(* ===== verification/Go_Prelude.thy ===== *)
theory Go_Prelude
  imports Main "HOL-Library.Word"
begin

text \<open>
  What the source uses of Go and of its standard library, shared by every other theory:
  64-bit signed arithmetic with its wrap-around, \<^verbatim>\<open>time.Time\<close> and
  \<^verbatim>\<open>time.Duration\<close>, errors with \<^verbatim>\<open>%w\<close> wrapping, byte strings with the
  functions of \<^verbatim>\<open>strings\<close> and \<^verbatim>\<open>strconv\<close> the code calls, and generic lemmas
  on lists.  A Go string is a byte sequence: a \<^typ>\<open>string\<close> holds one byte per character.  The
  case-folding and trimming functions are those of ASCII text.
\<close>

section \<open>Errors\<close>

text \<open>A Go error is the text its \<^verbatim>\<open>Error()\<close> method returns; \<open>wrap_err\<close> is
  \<^verbatim>\<open>fmt.Errorf("ctx: %w", err)\<close>.\<close>

type_synonym go_error = string
type_synonym 'a result = "go_error + 'a"

definition wrap_err :: "string \<Rightarrow> go_error \<Rightarrow> go_error" where
  "wrap_err ctx e = ctx @ '': '' @ e"

definition map_err :: "(go_error \<Rightarrow> go_error) \<Rightarrow> 'a result \<Rightarrow> 'a result" where
  "map_err f r = (case r of Inl e \<Rightarrow> Inl (f e) | Inr a \<Rightarrow> Inr a)"

lemma map_err_simps [simp]:
  "map_err f (Inl e) = Inl (f e)"
  "map_err f (Inr a) = Inr a"
  "(map_err f r = Inr a) = (r = Inr a)"
  by (auto simp: map_err_def split: sum.splits)

section \<open>64-bit signed integers\<close>

definition int64_min :: int where "int64_min = - (2 ^ 63)"
definition int64_max :: int where "int64_max = 2 ^ 63 - 1"

definition in_int64 :: "int \<Rightarrow> bool" where
  "in_int64 x \<longleftrightarrow> int64_min \<le> x \<and> x \<le> int64_max"

text \<open>The value a 64-bit two's complement register holds after an operation whose exact
  result is \<open>x\<close>.\<close>

definition wrap64 :: "int \<Rightarrow> int" where
  "wrap64 x = (x + 2 ^ 63) mod 2 ^ 64 - 2 ^ 63"

lemma wrap64_id: "in_int64 x \<Longrightarrow> wrap64 x = x"
  by (simp add: wrap64_def in_int64_def int64_min_def int64_max_def)

lemma wrap64_in_int64: "in_int64 (wrap64 x)"
proof -
  have "0 \<le> (x + 2 ^ 63) mod 2 ^ 64" "(x + 2 ^ 63) mod 2 ^ 64 < 2 ^ 64"
    by (rule pos_mod_sign pos_mod_bound, simp)+
  then show ?thesis
    by (simp add: wrap64_def in_int64_def int64_min_def int64_max_def)
qed

text \<open>\<open>wrap64\<close> is the signed reading of the 64-bit word with the value \<open>x\<close>.\<close>

lemma wrap64_word: "wrap64 x = sint (word_of_int x :: 64 word)"
proof -
  have "sint (word_of_int x :: 64 word) = signed_take_bit 63 x"
    by (simp add: signed_of_int)
  also have "\<dots> = (x + 2 ^ 63) mod 2 ^ 64 - 2 ^ 63"
    by (simp add: signed_take_bit_eq_take_bit_shift take_bit_eq_mod)
  finally show ?thesis by (simp add: wrap64_def)
qed

text \<open>Integer division of Go truncates towards zero.\<close>

definition go_quot :: "int \<Rightarrow> int \<Rightarrow> int" where
  "go_quot a b = sgn a * sgn b * (\<bar>a\<bar> div \<bar>b\<bar>)"

lemma go_quot_nonneg: "0 \<le> a \<Longrightarrow> 0 < b \<Longrightarrow> go_quot a b = a div b"
  by (cases "a = 0") (simp_all add: go_quot_def)

section \<open>Time\<close>

text \<open>
  A \<^verbatim>\<open>time.Time\<close> is its number of nanoseconds since the Unix epoch, a
  \<^verbatim>\<open>time.Duration\<close> an int64 number of nanoseconds.  The zero \<^verbatim>\<open>time.Time\<close> is
  1 January of the year 1.
\<close>

type_synonym time = int
type_synonym duration = int

definition nanos_per_second :: int where "nanos_per_second = 1000000000"

definition zero_time :: time where "zero_time = - 62135596800 * 1000000000"

definition IsZero :: "time \<Rightarrow> bool" where "IsZero t \<longleftrightarrow> t = zero_time"

text \<open>\<^verbatim>\<open>time.Duration(n) * time.Second\<close> is an int64 product.\<close>

definition seconds :: "int \<Rightarrow> duration" where
  "seconds n = wrap64 (n * nanos_per_second)"

lemma seconds_exact:
  assumes "0 \<le> n" "n \<le> 9223372036"
  shows "seconds n = n * nanos_per_second"
  using assms unfolding seconds_def nanos_per_second_def
  by (intro wrap64_id) (simp add: in_int64_def int64_min_def int64_max_def)

definition time_add :: "time \<Rightarrow> duration \<Rightarrow> time" where
  "time_add t d = t + d"

text \<open>\<^verbatim>\<open>Time.Sub\<close> saturates at the extreme durations.\<close>

definition time_sub :: "time \<Rightarrow> time \<Rightarrow> duration" where
  "time_sub t u = max int64_min (min int64_max (t - u))"

definition Milliseconds :: "duration \<Rightarrow> int" where
  "Milliseconds d = go_quot d 1000000"

lemma time_sub_exact: "in_int64 (t - u) \<Longrightarrow> time_sub t u = t - u"
  by (simp add: time_sub_def in_int64_def)

lemma time_sub_greater:
  "g < int64_max \<Longrightarrow> int64_min \<le> g \<Longrightarrow> time_sub t u > g \<longleftrightarrow> t - u > g"
  by (auto simp: time_sub_def)

text \<open>Other units, as int64 products.\<close>

definition millis :: "int \<Rightarrow> duration" where
  "millis n = wrap64 (n * 1000000)"

definition mins :: "int \<Rightarrow> duration" where
  "mins n = wrap64 (n * (60 * nanos_per_second))"

lemma millis_positive: "0 < n \<Longrightarrow> n \<le> 9223372036854 \<Longrightarrow> 0 < millis n"
  unfolding millis_def by (subst wrap64_id) (simp_all add: in_int64_def int64_min_def int64_max_def)

lemma mins_positive: "0 < n \<Longrightarrow> n \<le> 153722867 \<Longrightarrow> 0 < mins n"
  unfolding mins_def nanos_per_second_def
  by (subst wrap64_id) (simp_all add: in_int64_def int64_min_def int64_max_def)

lemma seconds_positive: "0 < n \<Longrightarrow> n \<le> 9223372036 \<Longrightarrow> 0 < seconds n"
  using seconds_exact [of n] by (simp add: nanos_per_second_def)

text \<open>\<^verbatim>\<open>time.NewTicker\<close> panics when its interval is not positive.  A polling loop works through the
  ticks that it receives until it is cancelled; with the state comes the panic that ended it, and with it the
  process, if there was one.\<close>

definition NewTicker :: "duration \<Rightarrow> unit result" where
  "NewTicker interval = (if interval \<le> 0 then Inl ''non-positive interval for NewTicker'' else Inr ())"

definition polling :: "duration \<Rightarrow> ('t \<Rightarrow> 's \<Rightarrow> 's) \<Rightarrow> 't list \<Rightarrow> 's \<Rightarrow> go_error option \<times> 's" where
  "polling interval step ticks st =
     (case NewTicker interval of
        Inl panic \<Rightarrow> (Some panic, st)
      | Inr _ \<Rightarrow> (None, fold step ticks st))"

lemma polling_returns: "0 < interval \<Longrightarrow> polling interval step ticks st = (None, fold step ticks st)"
  by (simp add: polling_def NewTicker_def)

lemma polling_keeps:
  assumes "I st" "\<And>t st. I st \<Longrightarrow> I (step t st)"
  shows "I (snd (polling interval step ticks st))"
proof -
  have "I (fold step ticks st)" using assms by (induction ticks arbitrary: st) simp_all
  with assms(1) show ?thesis by (simp add: polling_def NewTicker_def)
qed

section \<open>Decimal numbers\<close>

definition digit_char :: "nat \<Rightarrow> char" where
  "digit_char d = char_of (48 + d)"

definition is_digit :: "char \<Rightarrow> bool" where
  "is_digit c \<longleftrightarrow> 48 \<le> (of_char c :: nat) \<and> (of_char c :: nat) \<le> 57"

definition digit_value :: "char \<Rightarrow> nat" where
  "digit_value c = of_char c - 48"

fun show_nat :: "nat \<Rightarrow> string" where
  "show_nat n = (if n < 10 then [digit_char n] else show_nat (n div 10) @ [digit_char (n mod 10)])"

declare show_nat.simps [simp del]

text \<open>\<^verbatim>\<open>%d\<close> and \<^verbatim>\<open>strconv.FormatInt(x, 10)\<close>.\<close>

definition show_int :: "int \<Rightarrow> string" where
  "show_int x = (if x < 0 then CHR ''-'' # show_nat (nat (- x)) else show_nat (nat x))"

fun digits_value :: "nat \<Rightarrow> string \<Rightarrow> nat option" where
  "digits_value acc [] = Some acc"
| "digits_value acc (c # cs) =
     (if is_digit c then digits_value (10 * acc + digit_value c) cs else None)"

text \<open>\<^verbatim>\<open>strconv.ParseInt(s, 10, 64)\<close>, also \<^verbatim>\<open>strconv.Atoi\<close> on a
  64-bit platform: an optional sign, at least one digit, digits only, and the int64 range.\<close>

definition signed_digits :: "int \<Rightarrow> string \<Rightarrow> string \<Rightarrow> int result" where
  "signed_digits sg whole ds =
     (case (if ds = [] then None else digits_value 0 ds) of
        None \<Rightarrow> Inl (''parsing '' @ whole @ '': invalid syntax'')
      | Some n \<Rightarrow>
          if in_int64 (sg * int n) then Inr (sg * int n)
          else Inl (''parsing '' @ whole @ '': value out of range''))"

definition ParseInt :: "string \<Rightarrow> int result" where
  "ParseInt s =
     (case s of
        [] \<Rightarrow> signed_digits 1 s []
      | c # cs \<Rightarrow>
          if c = CHR ''-'' then signed_digits (- 1) s cs
          else if c = CHR ''+'' then signed_digits 1 s cs
          else signed_digits 1 s s)"

lemma of_digit_char: "d < 10 \<Longrightarrow> of_char (digit_char d) = 48 + d"
  by (simp add: digit_char_def)

lemma is_digit_digit_char [simp]: "d < 10 \<Longrightarrow> is_digit (digit_char d)"
  by (simp add: is_digit_def of_digit_char)

lemma digit_value_digit_char [simp]: "d < 10 \<Longrightarrow> digit_value (digit_char d) = d"
  by (simp add: digit_value_def of_digit_char)

lemma show_nat_nonempty [simp]: "show_nat n \<noteq> []"
  by (subst show_nat.simps) simp

lemma show_nat_digits: "\<forall>c \<in> set (show_nat n). is_digit c"
proof (induction n rule: show_nat.induct)
  case (1 n)
  then show ?case by (subst show_nat.simps) (auto split: if_splits)
qed

text \<open>Bytes below 128, and well-formed UTF-8 (RFC 3629: no overlong form, no surrogate, nothing above
  U+10FFFF), which is what a \<^verbatim>\<open>utf8mb4\<close> column stores.\<close>

fun ascii :: "string \<Rightarrow> bool" where
  "ascii [] = True"
| "ascii (c # cs) \<longleftrightarrow> \<not> digit7 c \<and> ascii cs"

definition trailing_byte :: "char \<Rightarrow> bool" where
  "trailing_byte c \<longleftrightarrow> 128 \<le> (of_char c :: nat) \<and> (of_char c :: nat) < 192"

fun valid_utf8 :: "string \<Rightarrow> bool" where
  "valid_utf8 [] = True"
| "valid_utf8 (c # cs) =
     (let n = (of_char c :: nat) in
      if n < 128 then valid_utf8 cs
      else if 194 \<le> n \<and> n < 224 then
        (case cs of a # rest \<Rightarrow> trailing_byte a \<and> valid_utf8 rest | [] \<Rightarrow> False)
      else if 224 \<le> n \<and> n < 240 then
        (case cs of
           a # b # rest \<Rightarrow> trailing_byte a \<and> trailing_byte b \<and>
             (n = 224 \<longrightarrow> 160 \<le> (of_char a :: nat)) \<and> (n = 237 \<longrightarrow> (of_char a :: nat) < 160) \<and> valid_utf8 rest
         | _ \<Rightarrow> False)
      else if 240 \<le> n \<and> n < 245 then
        (case cs of
           a # b # d # rest \<Rightarrow> trailing_byte a \<and> trailing_byte b \<and> trailing_byte d \<and>
             (n = 240 \<longrightarrow> 144 \<le> (of_char a :: nat)) \<and> (n = 244 \<longrightarrow> (of_char a :: nat) < 144) \<and> valid_utf8 rest
         | _ \<Rightarrow> False)
      else False)"

declare valid_utf8.simps(2) [simp del]

lemma low_byte: "(of_char c :: nat) < 128 \<longleftrightarrow> \<not> digit7 c"
  by (cases c) (auto simp: of_char_def split: bool.splits)

lemma valid_utf8_ascii [simp]: "ascii s \<Longrightarrow> valid_utf8 s"
  by (induction s) (auto simp: valid_utf8.simps(2) low_byte)

lemma ascii_append [simp]: "ascii (s @ t) \<longleftrightarrow> ascii s \<and> ascii t"
  by (induction s) auto

lemma valid_utf8_ascii_append: "ascii s \<Longrightarrow> valid_utf8 (s @ t) \<longleftrightarrow> valid_utf8 t"
  by (induction s) (auto simp: valid_utf8.simps(2) low_byte)

lemma ascii_digits: "\<forall>c \<in> set s. is_digit c \<Longrightarrow> ascii s"
  by (induction s) (auto simp: is_digit_def low_byte [symmetric])

lemma ascii_show_int [simp]: "ascii (show_int i)"
  by (simp add: show_int_def ascii_digits show_nat_digits)

lemma digits_value_append:
  "digits_value acc (xs @ ys) =
     (case digits_value acc xs of None \<Rightarrow> None | Some v \<Rightarrow> digits_value v ys)"
  by (induction acc xs rule: digits_value.induct) auto

lemma digits_value_show_nat: "digits_value 0 (show_nat n) = Some n"
proof (induction n rule: show_nat.induct)
  case (1 n)
  show ?case
  proof (cases "n < 10")
    case True
    then show ?thesis by (subst show_nat.simps) simp
  next
    case False
    with "1.IH" have "digits_value 0 (show_nat (n div 10)) = Some (n div 10)" by simp
    with False show ?thesis
      by (subst show_nat.simps) (simp add: digits_value_append)
  qed
qed

lemma show_nat_inject [simp]: "show_nat m = show_nat n \<longleftrightarrow> m = n"
  by (metis digits_value_show_nat option.inject)

lemma minus_not_digit [simp]: "\<not> is_digit (CHR ''-'')" "\<not> is_digit (CHR ''+'')"
  by (simp_all add: is_digit_def)

lemma show_nat_hd: "show_nat n = c # cs \<Longrightarrow> c \<noteq> CHR ''-'' \<and> c \<noteq> CHR ''+''"
  using show_nat_digits [of n] by auto

text \<open>Printing and parsing are inverse on the whole int64 range.\<close>

lemma signed_digits_show_nat:
  "in_int64 (sg * int n) \<Longrightarrow> signed_digits sg whole (show_nat n) = Inr (sg * int n)"
  by (simp add: signed_digits_def digits_value_show_nat)

lemma ParseInt_show_nat:
  assumes "in_int64 (int n)"
  shows "ParseInt (show_nat n) = Inr (int n)"
proof (cases "show_nat n")
  case (Cons c cs)
  with show_nat_hd [OF Cons] signed_digits_show_nat [of 1 n "show_nat n"] assms
  show ?thesis by (simp add: ParseInt_def)
qed simp

lemma ParseInt_show_int: "in_int64 x \<Longrightarrow> ParseInt (show_int x) = Inr x"
  using ParseInt_show_nat [of "nat x"]
    signed_digits_show_nat [of "- 1" "nat (- x)" "CHR ''-'' # show_nat (nat (- x))"]
  by (auto simp: show_int_def ParseInt_def)

lemma ParseInt_in_int64: "ParseInt s = Inr x \<Longrightarrow> in_int64 x"
  by (auto simp: ParseInt_def signed_digits_def split: list.splits if_splits option.splits)

lemma minus_notin_show_nat [simp]: "CHR ''-'' \<notin> set (show_nat n)"
  using show_nat_digits [of n] minus_not_digit(1) by blast

lemma show_int_nonneg: "0 \<le> x \<Longrightarrow> show_int x = show_nat (nat x)"
  by (simp add: show_int_def)

lemma show_int_inject [simp]: "show_int x = show_int y \<longleftrightarrow> x = y"
proof
  assume eq: "show_int x = show_int y"
  show "x = y"
  proof (cases "x < 0")
    case True
    with eq show ?thesis
      by (cases "y < 0")
         (auto simp: show_int_def nat_eq_iff dest: show_nat_hd [OF sym])
  next
    case False
    with eq show ?thesis
      by (cases "y < 0") (auto simp: show_int_def nat_eq_iff dest: show_nat_hd)
  qed
qed simp

lemma length_show_nat:
  assumes "n < 10 ^ Suc k"
  shows "length (show_nat n) \<le> Suc k"
  using assms
proof (induction k arbitrary: n)
  case 0
  then show ?case by (subst show_nat.simps) simp
next
  case (Suc k)
  show ?case
  proof (cases "n < 10")
    case True
    then show ?thesis by (subst show_nat.simps) simp
  next
    case False
    from Suc.prems have "n div 10 < 10 ^ Suc k"
      by (simp add: div_less_iff_less_mult mult.commute)
    from Suc.IH [OF this] False show ?thesis by (subst show_nat.simps) simp
  qed
qed

lemma length_show_int:
  assumes "in_int64 x"
  shows "length (show_int x) \<le> 20"
proof -
  have "nat x < 10 ^ Suc 18" "nat (- x) < 10 ^ Suc 18"
    using assms by (auto simp: in_int64_def int64_min_def int64_max_def nat_less_iff)
  from this [THEN length_show_nat] show ?thesis
    by (simp add: show_int_def)
qed

text \<open>Two printed numbers with a dash between them determine both numbers.\<close>

lemma show_nat_dash_inject [simp]:
  "show_nat a @ CHR ''-'' # xs = show_nat b @ CHR ''-'' # ys \<longleftrightarrow> a = b \<and> xs = ys"
proof
  assume eq: "show_nat a @ CHR ''-'' # xs = show_nat b @ CHR ''-'' # ys"
  let ?p = "\<lambda>c. c \<noteq> CHR ''-''"
  have tw: "takeWhile ?p (show_nat n @ CHR ''-'' # zs) = show_nat n" for n zs
    using minus_notin_show_nat [of n] by (subst takeWhile_append2) auto
  from eq have "show_nat a = show_nat b"
    using tw [of a xs] tw [of b ys] by simp
  with eq show "a = b \<and> xs = ys" by simp
qed simp

section \<open>Strings\<close>

definition is_space :: "char \<Rightarrow> bool" where
  "is_space c \<longleftrightarrow> (of_char c :: nat) \<in> {9, 10, 11, 12, 13, 32}"

definition TrimSpace :: "string \<Rightarrow> string" where
  "TrimSpace s = rev (dropWhile is_space (rev (dropWhile is_space s)))"

definition lower_char :: "char \<Rightarrow> char" where
  "lower_char c =
     (let n = (of_char c :: nat) in if 65 \<le> n \<and> n \<le> 90 then char_of (n + 32) else c)"

definition ToLower :: "string \<Rightarrow> string" where
  "ToLower s = map lower_char s"

fun HasPrefix :: "string \<Rightarrow> string \<Rightarrow> bool" where
  "HasPrefix s [] = True"
| "HasPrefix [] (_ # _) = False"
| "HasPrefix (c # cs) (p # ps) = (c = p \<and> HasPrefix cs ps)"

lemma HasPrefix_iff: "HasPrefix s p \<longleftrightarrow> (\<exists>r. s = p @ r)"
  by (induction s p rule: HasPrefix.induct) auto

lemma length_TrimSpace: "length (TrimSpace s) \<le> length s"
  by (metis TrimSpace_def le_trans length_dropWhile_le length_rev)

lemma length_ToLower [simp]: "length (ToLower s) = length s"
  by (simp add: ToLower_def)

section \<open>Lists\<close>

text \<open>\<open>list_take n\<close> is SQL's \<^verbatim>\<open>LIMIT n\<close> as gorm writes it: a negative limit is no limit.\<close>

definition list_take :: "int \<Rightarrow> 'a list \<Rightarrow> 'a list" where
  "list_take n xs = (if n < 0 then xs else take (nat n) xs)"

lemma set_list_take: "x \<in> set (list_take n xs) \<Longrightarrow> x \<in> set xs"
  by (auto simp: list_take_def dest: in_set_takeD split: if_splits)

lemma set_list_take_subset: "set (list_take n xs) \<subseteq> set xs"
  by (auto dest: set_list_take)

lemma distinct_list_take: "distinct (map f xs) \<Longrightarrow> distinct (map f (list_take n xs))"
  by (simp add: list_take_def take_map [symmetric] distinct_take)

lemma length_list_take: "0 \<le> n \<Longrightarrow> length (list_take n xs) \<le> nat n"
  by (simp add: list_take_def)

lemma list_take_all: "int (length xs) \<le> n \<Longrightarrow> list_take n xs = xs"
  by (simp add: list_take_def)

lemma distinct_map_filter_sub:
  "distinct (map f xs) \<Longrightarrow> distinct (map f (filter P xs))"
  by (rule distinct_map_filter)

lemma distinct_map_eq:
  "distinct (map f xs) \<Longrightarrow> x \<in> set xs \<Longrightarrow> y \<in> set xs \<Longrightarrow> f x = f y \<Longrightarrow> x = y"
  by (simp add: distinct_map inj_on_def)

lemma find_unique:
  "distinct (map f xs) \<Longrightarrow> x \<in> set xs \<Longrightarrow> List.find (\<lambda>y. f y = f x) xs = Some x"
  by (induction xs) force+

lemma find_Some_mem: "List.find P xs = Some x \<Longrightarrow> x \<in> set xs \<and> P x"
  by (auto simp: find_Some_iff)

end
