(* ===== verification/Json_Codec.thy ===== *)
theory Json_Codec
  imports Go_Prelude "HOL-Library.Char_ord" "HOL-Library.List_Lexorder"
begin

text \<open>
  The part of \<^verbatim>\<open>encoding/json\<close> the code relies on.  A MySQL JSON column stores a
  document's value, so a payload or a snapshot is a \<open>json\<close> value; \<open>JTime t\<close> is the
  string \<^verbatim>\<open>t.Format(time.RFC3339Nano)\<close> prints, which no code reads back.  The TEXT column
  \<^verbatim>\<open>callback_headers\<close> holds real JSON text: \<open>marshal_string_map\<close> and
  \<open>unmarshal_string_map\<close> are \<^verbatim>\<open>json.Marshal\<close> and \<^verbatim>\<open>json.Unmarshal\<close>
  at the type \<^verbatim>\<open>map[string]string\<close>, and \<open>unmarshal_marshal_string_map\<close> is their round trip.
  Strings are taken to be valid UTF-8, which decoding a request guarantees.
\<close>

section \<open>Maps with ordered keys\<close>

text \<open>A Go map with string keys is an association list in key order, the order in which
  \<^verbatim>\<open>json.Marshal\<close> writes it.\<close>

type_synonym string_map = "(string \<times> string) list"

fun map_put :: "'k::linorder \<Rightarrow> 'v \<Rightarrow> ('k \<times> 'v) list \<Rightarrow> ('k \<times> 'v) list" where
  "map_put k v [] = [(k, v)]"
| "map_put k v ((k', v') # m) =
     (if k < k' then (k, v) # (k', v') # m
      else if k = k' then (k, v) # m
      else (k', v') # map_put k v m)"

definition ordered_keys :: "('k::linorder \<times> 'v) list \<Rightarrow> bool" where
  "ordered_keys m \<longleftrightarrow> sorted_wrt (<) (map fst m)"

lemma ordered_keys_simps [simp]:
  "ordered_keys []"
  "ordered_keys (p # m) \<longleftrightarrow> (\<forall>q \<in> set m. fst p < fst q) \<and> ordered_keys m"
  by (simp_all add: ordered_keys_def)

lemma set_map_put_sub: "set (map_put k v m) \<subseteq> insert (k, v) (set m)"
  by (induction m) (auto split: if_splits)

lemma ordered_map_put: "ordered_keys m \<Longrightarrow> ordered_keys (map_put k v m)"
proof (induction m)
  case (Cons p m)
  obtain k' v' where p: "p = (k', v')" by force
  have "\<forall>q \<in> set (map_put k v m). k' < fst q" if "k' < k"
    using Cons.prems that set_map_put_sub [of k v m] by (auto simp: p)
  with Cons show ?case by (auto simp: p not_less le_less intro: less_trans)
qed simp

lemma map_of_map_put: "ordered_keys m \<Longrightarrow> map_of (map_put k v m) = (map_of m)(k \<mapsto> v)"
  by (induction m) (auto simp: fun_eq_iff)

lemma map_put_append:
  "ordered_keys m \<Longrightarrow> \<forall>q \<in> set m. fst q < k \<Longrightarrow> map_put k v m = m @ [(k, v)]"
  by (induction m) auto

section \<open>JSON values\<close>

datatype json =
    JNull
  | JBool bool
  | JNum int
  | JStr string
  | JTime time
  | JArr "json list"
  | JObj "(string \<times> json) list"

section \<open>String literals\<close>

definition hex_digit :: "nat \<Rightarrow> char" where
  "hex_digit d = (if d < 10 then char_of (48 + d) else char_of (87 + d))"

definition u_escape :: "nat \<Rightarrow> string" where
  "u_escape n = [CHR 0x5C, CHR ''u'', hex_digit (n div 4096 mod 16), hex_digit (n div 256 mod 16),
     hex_digit (n div 16 mod 16), hex_digit (n mod 16)]"

text \<open>One byte of \<^verbatim>\<open>appendString\<close> with HTML escaping on, the default of
  \<^verbatim>\<open>json.Marshal\<close>.\<close>

definition escape_char :: "char \<Rightarrow> string" where
  "escape_char c =
     (let n = (of_char c :: nat) in
      if c = CHR 0x22 \<or> c = CHR 0x5C then [CHR 0x5C, c]
      else if n = 8 then [CHR 0x5C, CHR ''b'']
      else if n = 12 then [CHR 0x5C, CHR ''f'']
      else if n = 10 then [CHR 0x5C, CHR ''n'']
      else if n = 13 then [CHR 0x5C, CHR ''r'']
      else if n = 9 then [CHR 0x5C, CHR ''t'']
      else if n < 32 \<or> c = CHR ''<'' \<or> c = CHR ''>'' \<or> c = CHR ''&'' then u_escape n
      else [c])"

text \<open>The line separators U+2028 and U+2029 are three bytes and are escaped too.\<close>

fun escape :: "string \<Rightarrow> string" where
  "escape (a # b # c # s) =
     (if a = CHR 0xE2 \<and> b = CHR 0x80 \<and> c = CHR 0xA8 then u_escape 8232 @ escape s
      else if a = CHR 0xE2 \<and> b = CHR 0x80 \<and> c = CHR 0xA9 then u_escape 8233 @ escape s
      else escape_char a @ escape (b # c # s))"
| "escape (a # s) = escape_char a @ escape s"
| "escape [] = []"

definition hex_value :: "char \<Rightarrow> nat option" where
  "hex_value c =
     (let n = (of_char c :: nat) in
      if 48 \<le> n \<and> n \<le> 57 then Some (n - 48)
      else if 97 \<le> n \<and> n \<le> 102 then Some (n - 87)
      else if 65 \<le> n \<and> n \<le> 70 then Some (n - 55)
      else None)"

fun hex4 :: "string \<Rightarrow> (nat \<times> string) option" where
  "hex4 (a # b # c # d # s) =
     (case (hex_value a, hex_value b, hex_value c, hex_value d) of
        (Some w, Some x, Some y, Some z) \<Rightarrow> Some (w * 4096 + x * 256 + y * 16 + z, s)
      | _ \<Rightarrow> None)"
| "hex4 _ = None"

definition utf8 :: "nat \<Rightarrow> string" where
  "utf8 n =
     (if n < 128 then [char_of n]
      else if n < 2048 then [char_of (192 + n div 64), char_of (128 + n mod 64)]
      else if n < 65536 then
        [char_of (224 + n div 4096), char_of (128 + n div 64 mod 64), char_of (128 + n mod 64)]
      else
        [char_of (240 + n div 262144), char_of (128 + n div 4096 mod 64),
         char_of (128 + n div 64 mod 64), char_of (128 + n mod 64)])"

text \<open>After \<^verbatim>\<open>\u\<close> and its first four digits: a high surrogate needs a low one
  behind it, anything else in the surrogate range is the replacement character.\<close>

definition u_unescape :: "nat \<Rightarrow> string \<Rightarrow> string \<times> string" where
  "u_unescape n s =
     (if 55296 \<le> n \<and> n < 57344 then
        (case s of
           b # u # r \<Rightarrow>
             (if b = CHR 0x5C \<and> u = CHR ''u'' then
                (case hex4 r of
                   Some (m, r') \<Rightarrow>
                     if n < 56320 \<and> 56320 \<le> m \<and> m < 57344
                     then (utf8 ((n - 55296) * 1024 + (m - 56320) + 65536), r')
                     else (utf8 65533, s)
                 | None \<Rightarrow> (utf8 65533, s))
              else (utf8 65533, s))
         | _ \<Rightarrow> (utf8 65533, s))
      else (utf8 n, s))"

text \<open>What follows a backslash.\<close>

fun unescape_one :: "string \<Rightarrow> (string \<times> string) option" where
  "unescape_one [] = None"
| "unescape_one (c # s) =
     (if c = CHR 0x22 \<or> c = CHR 0x5C \<or> c = CHR ''/'' then Some ([c], s)
      else if c = CHR ''b'' then Some ([char_of (8::nat)], s)
      else if c = CHR ''f'' then Some ([char_of (12::nat)], s)
      else if c = CHR ''n'' then Some ([char_of (10::nat)], s)
      else if c = CHR ''r'' then Some ([char_of (13::nat)], s)
      else if c = CHR ''t'' then Some ([char_of (9::nat)], s)
      else if c = CHR ''u'' then map_option (\<lambda>(n, r). u_unescape n r) (hex4 s)
      else None)"

lemma hex4_shorter: "hex4 s = Some (n, r) \<Longrightarrow> length r < length s"
  by (cases s rule: hex4.cases) (auto split: option.splits)

lemma u_unescape_shorter: "u_unescape n s = (b, r) \<Longrightarrow> length r \<le> length s"
  by (auto simp: u_unescape_def split: if_splits list.splits option.splits dest!: hex4_shorter)

lemma unescape_one_shorter: "unescape_one s = Some (b, r) \<Longrightarrow> length r < length s"
proof (cases s)
  case (Cons c s')
  assume "unescape_one s = Some (b, r)"
  with Cons show ?thesis
    by (auto split: if_splits dest!: hex4_shorter u_unescape_shorter)
qed simp

text \<open>A string literal after its opening quote: the text it denotes and what follows the
  closing quote.  A raw control character is a syntax error.\<close>

function unquote :: "string \<Rightarrow> (string \<times> string) option" where
  "unquote [] = None"
| "unquote (c # s) =
     (if c = CHR 0x22 then Some ([], s)
      else if c = CHR 0x5C then
        (case unescape_one s of
           None \<Rightarrow> None
         | Some (b, r) \<Rightarrow> map_option (\<lambda>(t, r'). (b @ t, r')) (unquote r))
      else if (of_char c :: nat) < 32 then None
      else map_option (\<lambda>(t, r). (c # t, r)) (unquote s))"
  by pat_completeness auto
termination
  by (relation "measure length") (auto dest: unescape_one_shorter)

declare unquote.simps(2) [simp del]

lemma unquote_Cons [simp]:
  "unquote (CHR 0x22 # s) = Some ([], s)"
  "unquote (CHR 0x5C # s) =
     (case unescape_one s of
        None \<Rightarrow> None
      | Some (b, r) \<Rightarrow> map_option (\<lambda>(t, r'). (b @ t, r')) (unquote r))"
  by (simp_all add: unquote.simps(2))

lemma unquote_plain [simp]:
  "c \<noteq> CHR 0x22 \<Longrightarrow> c \<noteq> CHR 0x5C \<Longrightarrow> 32 \<le> (of_char c :: nat) \<Longrightarrow>
     unquote (c # s) = map_option (\<lambda>(t, r). (c # t, r)) (unquote s)"
  by (simp add: unquote.simps(2))

lemma unquote_control:
  "c \<noteq> CHR 0x22 \<Longrightarrow> c \<noteq> CHR 0x5C \<Longrightarrow> (of_char c :: nat) < 32 \<Longrightarrow> unquote (c # s) = None"
  by (simp add: unquote.simps(2))

lemma unquote_shorter: "unquote s = Some (t, r) \<Longrightarrow> length r < length s"
proof (induction s arbitrary: t r rule: unquote.induct)
  case (2 c s)
  consider "c = CHR 0x22" | "c = CHR 0x5C" | "c \<noteq> CHR 0x22" "c \<noteq> CHR 0x5C" "32 \<le> (of_char c :: nat)"
    | "c \<noteq> CHR 0x22" "c \<noteq> CHR 0x5C" "(of_char c :: nat) < 32"
    by linarith
  then show ?case
  proof cases
    case 2
    with "2.prems" obtain b r0 t0 where e: "unescape_one s = Some (b, r0)" "unquote r0 = Some (t0, r)"
      by (auto split: option.splits)
    have "\<not> c = CHR 0x22" using 2 by simp
    from "2.IH"(1) [OF this 2 e(1) refl e(2)] unescape_one_shorter [OF e(1)] show ?thesis
      by simp
  next
    case 3
    with "2.prems" obtain t0 where "unquote s = Some (t0, r)" by auto
    with "2.IH"(2) [of t0 r] 3 show ?thesis by simp
  qed (use "2.prems" in \<open>auto simp: unquote_control\<close>)
qed simp

subsection \<open>A printed string reads back\<close>

lemma of_char_hex_digit:
  "d < 16 \<Longrightarrow> (of_char (hex_digit d) :: nat) = (if d < 10 then 48 + d else 87 + d)"
  by (simp add: hex_digit_def)

lemma low_hex_digit [simp]: "d < 16 \<Longrightarrow> \<not> digit7 (hex_digit d)"
  by (simp add: low_byte [symmetric] of_char_hex_digit)

lemma hex_value_hex_digit: "d < 16 \<Longrightarrow> hex_value (hex_digit d) = Some d"
  by (simp add: hex_value_def of_char_hex_digit)

lemma hex4_u_escape:
  assumes "n < 65536"
  shows "hex4 (drop 2 (u_escape n) @ s) = Some (n, s)"
proof -
  have d: "n div 256 = n div 16 div 16" "n div 4096 = n div 16 div 16 div 16"
    by (simp_all add: div_mult2_eq [symmetric])
  have m: "n div 4096 mod 16 = n div 4096" using assms by (simp add: div_less_iff_less_mult)
  have "n div 4096 * 4096 + n div 256 mod 16 * 256 + n div 16 mod 16 * 16 + n mod 16 = n"
    using mult_div_mod_eq [of 16 n] mult_div_mod_eq [of 16 "n div 16"]
      mult_div_mod_eq [of 16 "n div 16 div 16"]
    unfolding d by linarith
  moreover have "hex_value (hex_digit (n div 4096)) = Some (n div 4096)"
    using assms by (intro hex_value_hex_digit) (simp add: div_less_iff_less_mult)
  ultimately show ?thesis using m by (simp add: u_escape_def hex_value_hex_digit)
qed

lemma unquote_u_escape:
  assumes "n < 55296"
  shows "unquote (u_escape n @ s) = map_option (\<lambda>(t, r). (utf8 n @ t, r)) (unquote s)"
proof -
  have "u_escape n = CHR 0x5C # CHR ''u'' # drop 2 (u_escape n)"
    by (simp add: u_escape_def)
  then have "unquote (u_escape n @ s) = unquote (CHR 0x5C # CHR ''u'' # drop 2 (u_escape n) @ s)"
    by (metis append_Cons)
  moreover have "hex4 (drop 2 (u_escape n) @ s) = Some (n, s)"
    using assms by (intro hex4_u_escape) simp
  moreover have "u_unescape n s = (utf8 n, s)"
    using assms by (simp add: u_unescape_def)
  ultimately show ?thesis by simp
qed

lemma char_eq_of_char: "(of_char c :: nat) = n \<Longrightarrow> c = char_of n"
  by (metis char_of_char)

lemma utf8_of_char: "(of_char c :: nat) < 128 \<Longrightarrow> utf8 (of_char c) = [c]"
  by (simp add: utf8_def)

lemma unquote_escape_char:
  "unquote (escape_char c @ s) = map_option (\<lambda>(t, r). (c # t, r)) (unquote s)"
proof -
  let ?n = "of_char c :: nat"
  have u: "unquote (u_escape ?n @ s) = map_option (\<lambda>(t, r). (c # t, r)) (unquote s)"
    if "?n < 128"
    using that by (simp add: unquote_u_escape utf8_of_char)
  consider "c = CHR 0x22 \<or> c = CHR 0x5C" | "?n = 8" | "?n = 12" | "?n = 10" | "?n = 13" | "?n = 9"
    | "c \<noteq> CHR 0x22" "c \<noteq> CHR 0x5C" "?n \<noteq> 8" "?n \<noteq> 12" "?n \<noteq> 10" "?n \<noteq> 13" "?n \<noteq> 9"
    by blast
  then show ?thesis
  proof cases
    case 7
    show ?thesis
    proof (cases "?n < 32 \<or> c = CHR ''<'' \<or> c = CHR ''>'' \<or> c = CHR ''&''")
      case True
      then have "?n < 128" by auto
      with True 7 u show ?thesis by (simp add: escape_char_def Let_def)
    next
      case False
      with 7 show ?thesis by (simp add: escape_char_def Let_def)
    qed
  qed (auto simp: escape_char_def Let_def dest!: char_eq_of_char)
qed

lemma unquote_escape: "unquote (escape t @ CHR 0x22 # s) = Some (t, s)"
proof (induction t rule: escape.induct)
  case (1 a b c t)
  have "utf8 8232 = [CHR 0xE2, CHR 0x80, CHR 0xA8]" "utf8 8233 = [CHR 0xE2, CHR 0x80, CHR 0xA9]"
    using char_of_char [where 'a = nat, of "CHR 0xE2"] char_of_char [where 'a = nat, of "CHR 0x80"]
      char_of_char [where 'a = nat, of "CHR 0xA8"] char_of_char [where 'a = nat, of "CHR 0xA9"]
    by (simp_all add: utf8_def)
  with 1 show ?case by (auto simp: unquote_u_escape unquote_escape_char)
qed (simp_all add: unquote_escape_char)

section \<open>Objects of strings\<close>

definition quote_string :: "string \<Rightarrow> string" where
  "quote_string s = CHR 0x22 # escape s @ [CHR 0x22]"

fun marshal_members :: "string_map \<Rightarrow> string" where
  "marshal_members [] = ''}''"
| "marshal_members [(k, v)] = quote_string k @ '':'' @ quote_string v @ ''}''"
| "marshal_members ((k, v) # m) =
     quote_string k @ '':'' @ quote_string v @ '','' @ marshal_members m"

text \<open>\<^verbatim>\<open>json.Marshal\<close> of a non-nil \<^verbatim>\<open>map[string]string\<close>.\<close>

definition marshal_string_map :: "string_map \<Rightarrow> string" where
  "marshal_string_map m = ''{'' @ marshal_members m"

definition json_space :: "char \<Rightarrow> bool" where
  "json_space c \<longleftrightarrow> (of_char c :: nat) \<in> {9, 10, 13, 32}"

definition skip_ws :: "string \<Rightarrow> string" where
  "skip_ws s = dropWhile json_space s"

text \<open>A string member value; \<^verbatim>\<open>null\<close> leaves the element's zero value, the empty string.\<close>

definition read_member :: "string \<Rightarrow> (string \<times> string) option" where
  "read_member s =
     (case s of
        [] \<Rightarrow> None
      | c # r \<Rightarrow>
          if c = CHR 0x22 then unquote r
          else if HasPrefix s ''null'' then Some ([], drop 4 s)
          else None)"

definition read_pair :: "string \<Rightarrow> ((string \<times> string) \<times> string) option" where
  "read_pair s =
     (case skip_ws s of
        [] \<Rightarrow> None
      | c # r \<Rightarrow>
          if c \<noteq> CHR 0x22 then None
          else (case unquote r of
                  None \<Rightarrow> None
                | Some (k, r1) \<Rightarrow>
                    (case skip_ws r1 of
                       [] \<Rightarrow> None
                     | d # r2 \<Rightarrow>
                         if d \<noteq> CHR '':'' then None
                         else map_option (\<lambda>(v, r3). ((k, v), r3)) (read_member (skip_ws r2)))))"

lemma skip_ws_le: "length (skip_ws s) \<le> length s"
  by (simp add: skip_ws_def length_dropWhile_le)

lemma skip_ws_Cons_shorter: "skip_ws s = c # r \<Longrightarrow> length r < length s"
  using skip_ws_le [of s] by simp

lemma read_member_le: "read_member s = Some (v, r) \<Longrightarrow> length r \<le> length s"
  by (auto simp: read_member_def split: list.splits if_splits dest: unquote_shorter)

lemma read_pair_shorter:
  assumes "read_pair s = Some (p, r)"
  shows "length r < length s"
proof -
  from assms obtain c r0 k r1 d r2 v where
    s: "skip_ws s = c # r0" "unquote r0 = Some (k, r1)" "skip_ws r1 = d # r2"
      "read_member (skip_ws r2) = Some (v, r)"
    by (auto simp: read_pair_def split: list.splits if_splits option.splits)
  have "length r \<le> length r2"
    using read_member_le [OF s(4)] skip_ws_le [of r2] by simp
  also have "\<dots> < length r1"
    using skip_ws_le [of r1] s(3) by simp
  also have "\<dots> < length s"
    using unquote_shorter [OF s(2)] skip_ws_le [of s] s(1) by simp
  finally show ?thesis .
qed

text \<open>The members after \<^verbatim>\<open>{\<close> or a comma, put into the map in the order of the text, so
  that a repeated key keeps its last value; only white space may follow the closing brace.\<close>

function read_members :: "string_map \<Rightarrow> string \<Rightarrow> string_map option" where
  "read_members m s =
     (case read_pair s of
        None \<Rightarrow> None
      | Some ((k, v), r) \<Rightarrow>
          (case skip_ws r of
             [] \<Rightarrow> None
           | c # r' \<Rightarrow>
               if c = CHR '','' then read_members (map_put k v m) r'
               else if c = CHR ''}'' \<and> skip_ws r' = [] then Some (map_put k v m)
               else None))"
  by pat_completeness auto
termination
  by (relation "measure (\<lambda>(m, s). length s)")
     (auto dest!: read_pair_shorter skip_ws_Cons_shorter)

declare read_members.simps [simp del]

definition json_syntax_error :: go_error where
  "json_syntax_error = ''json: cannot unmarshal into map[string]string''"

text \<open>\<^verbatim>\<open>json.Unmarshal\<close> into an empty \<^verbatim>\<open>map[string]string\<close>: an object
  whose members are strings or \<^verbatim>\<open>null\<close>, or the document \<^verbatim>\<open>null\<close>; any other document is an error,
  whose text is not kept.\<close>

definition unmarshal_string_map :: "string \<Rightarrow> string_map result" where
  "unmarshal_string_map s =
     (case skip_ws s of
        [] \<Rightarrow> Inl json_syntax_error
      | c # r \<Rightarrow>
          if c = CHR ''{'' then
            (case skip_ws r of
               [] \<Rightarrow> Inl json_syntax_error
             | d # r' \<Rightarrow>
                 if d = CHR ''}'' then
                   (if skip_ws r' = [] then Inr [] else Inl json_syntax_error)
                 else (case read_members [] (d # r') of
                         None \<Rightarrow> Inl json_syntax_error
                       | Some m \<Rightarrow> Inr m))
          else if HasPrefix (c # r) ''null'' \<and> skip_ws (drop 3 r) = [] then Inr []
          else Inl json_syntax_error)"

lemma skip_ws_simps [simp]:
  "skip_ws [] = []"
  "skip_ws (CHR 0x22 # s) = CHR 0x22 # s"
  "skip_ws (CHR '':'' # s) = CHR '':'' # s"
  "skip_ws (CHR '','' # s) = CHR '','' # s"
  "skip_ws (CHR ''}'' # s) = CHR ''}'' # s"
  "skip_ws (CHR ''{'' # s) = CHR ''{'' # s"
  by (simp_all add: skip_ws_def json_space_def)

lemma read_pair_printed:
  "read_pair (quote_string k @ '':'' @ quote_string v @ s) = Some ((k, v), s)"
  by (simp add: read_pair_def quote_string_def unquote_escape read_member_def)

lemma read_members_printed:
  "read_members acc (marshal_members (p # m)) = Some (foldl (\<lambda>a (k, v). map_put k v a) acc (p # m))"
proof (induction m arbitrary: acc p)
  case Nil
  show ?case
    by (cases p) (subst read_members.simps, simp only: marshal_members.simps read_pair_printed, simp)
next
  case (Cons q m)
  obtain k v where p: "p = (k, v)" by force
  have "read_members acc (marshal_members (p # q # m)) =
      read_members (map_put k v acc) (marshal_members (q # m))"
    by (subst read_members.simps, simp only: p marshal_members.simps read_pair_printed, simp)
  with Cons.IH [of "map_put k v acc" q] show ?case by (simp add: p)
qed

lemma foldl_map_put_ordered:
  assumes "ordered_keys (acc @ m)"
  shows "foldl (\<lambda>a (k, v). map_put k v a) acc m = acc @ m"
  using assms
proof (induction m arbitrary: acc)
  case (Cons p m)
  obtain k v where p: "p = (k, v)" by force
  have "map_put k v acc = acc @ [(k, v)]"
    using Cons.prems by (intro map_put_append) (auto simp: ordered_keys_def sorted_wrt_append p)
  with Cons.IH [of "acc @ [p]"] Cons.prems show ?case by (simp add: p)
qed simp

theorem unmarshal_marshal_string_map:
  assumes "ordered_keys m"
  shows "unmarshal_string_map (marshal_string_map m) = Inr m"
proof (cases m)
  case Nil
  then show ?thesis by (simp add: unmarshal_string_map_def marshal_string_map_def)
next
  case (Cons p m')
  obtain r where r: "marshal_members m = CHR 0x22 # r"
    using Cons by (cases p; cases m') (auto simp: quote_string_def)
  have "read_members [] (marshal_members m) = Some m"
    using read_members_printed [of "[]" p m'] foldl_map_put_ordered [of "[]" m] assms Cons by simp
  with r show ?thesis
    by (simp add: unmarshal_string_map_def marshal_string_map_def)
qed

end
