(* ===== verification/Domain_Model.thy ===== *)
theory Domain_Model
  imports Json_Codec
begin

text \<open>
  \<^verbatim>\<open>internal/model\<close>: the three tables' rows, the status types and the Timer state machine.
  A Go string type with constants is a datatype with one constructor per constant and one for any
  other text.  A \<^verbatim>\<open>*time.Time\<close> is a \<^typ>\<open>time option\<close>.
\<close>

section \<open>Timer definitions\<close>

datatype TimerStatus =
    TimerStatusActive
  | TimerStatusInactive
  | TimerStatusDeleted
  | TimerStatusOther string

fun timer_status_text :: "TimerStatus \<Rightarrow> string" where
  "timer_status_text TimerStatusActive = ''ACTIVE''"
| "timer_status_text TimerStatusInactive = ''INACTIVE''"
| "timer_status_text TimerStatusDeleted = ''DELETED''"
| "timer_status_text (TimerStatusOther s) = s"

datatype MisfirePolicy =
    MisfirePolicySkip
  | MisfirePolicyFireOnce
  | MisfirePolicyCatchUp
  | MisfirePolicyOther string

fun misfire_policy_text :: "MisfirePolicy \<Rightarrow> string" where
  "misfire_policy_text MisfirePolicySkip = ''SKIP''"
| "misfire_policy_text MisfirePolicyFireOnce = ''FIRE_ONCE''"
| "misfire_policy_text MisfirePolicyCatchUp = ''CATCH_UP''"
| "misfire_policy_text (MisfirePolicyOther s) = s"

record TimerDefinition =
  td_ID :: int
  td_App :: string
  td_Name :: string
  td_CronExpr :: string
  td_CallbackURL :: string
  td_CallbackMethod :: string
  td_CallbackBody :: string
  td_CallbackHeaders :: string
  td_Status :: TimerStatus
  td_NextFireAt :: "time option"
  td_MisfirePolicy :: MisfirePolicy
  td_MaxCatchUp :: int
  td_Version :: int
  td_CreatedAt :: time
  td_UpdatedAt :: time

record CreateTimerDefinitionRequest =
  cr_App :: string
  cr_Name :: string
  cr_CronExpr :: string
  cr_CallbackURL :: string
  cr_CallbackMethod :: string
  cr_CallbackBody :: string
  cr_CallbackHeaders :: "string_map option"
  cr_MisfirePolicy :: MisfirePolicy
  cr_MaxCatchUp :: int

section \<open>The Timer state machine\<close>

text \<open>\<^verbatim>\<open>state_machine.go\<close>: the table of allowed targets, and the validation that looks
  a transition up in it.\<close>

fun timerTransitions :: "TimerStatus \<Rightarrow> TimerStatus list option" where
  "timerTransitions TimerStatusActive = Some [TimerStatusInactive, TimerStatusDeleted]"
| "timerTransitions TimerStatusInactive = Some [TimerStatusActive, TimerStatusDeleted]"
| "timerTransitions TimerStatusDeleted = Some []"
| "timerTransitions (TimerStatusOther _) = None"

definition transition_error :: "TimerStatus \<Rightarrow> TimerStatus \<Rightarrow> go_error" where
  "transition_error from to =
     ''invalid status transition: '' @ timer_status_text from @ '' -> '' @ timer_status_text to"

fun find_target :: "TimerStatus \<Rightarrow> TimerStatus list \<Rightarrow> bool" where
  "find_target to [] = False"
| "find_target to (target # targets) = (if target = to then True else find_target to targets)"

definition ValidateTimerTransition :: "TimerStatus \<Rightarrow> TimerStatus \<Rightarrow> unit result" where
  "ValidateTimerTransition from to =
     (case timerTransitions from of
        None \<Rightarrow> Inl (transition_error from to)
      | Some targets \<Rightarrow>
          if find_target to targets then Inr () else Inl (transition_error from to))"

lemma find_target_iff [simp]: "find_target to targets \<longleftrightarrow> to \<in> set targets"
  by (induction targets) auto

text \<open>The transitions the validation accepts, spelled out.\<close>

definition allowed_transition :: "TimerStatus \<Rightarrow> TimerStatus \<Rightarrow> bool" where
  "allowed_transition from to \<longleftrightarrow>
     (from = TimerStatusActive \<and> to \<in> {TimerStatusInactive, TimerStatusDeleted}) \<or>
     (from = TimerStatusInactive \<and> to \<in> {TimerStatusActive, TimerStatusDeleted})"

lemma ValidateTimerTransition_ok:
  "ValidateTimerTransition from to = Inr () \<longleftrightarrow> allowed_transition from to"
  by (cases "from") (auto simp: ValidateTimerTransition_def allowed_transition_def)

lemma ValidateTimerTransition_active:
  "ValidateTimerTransition from TimerStatusActive = Inr () \<longleftrightarrow> from = TimerStatusInactive"
  by (auto simp: ValidateTimerTransition_ok allowed_transition_def)

lemma ValidateTimerTransition_inactive:
  "ValidateTimerTransition from TimerStatusInactive = Inr () \<longleftrightarrow> from = TimerStatusActive"
  by (auto simp: ValidateTimerTransition_ok allowed_transition_def)

section \<open>Executions\<close>

datatype ExecutionStatus =
    ExecutionStatusPending
  | ExecutionStatusRunning
  | ExecutionStatusRetryWait
  | ExecutionStatusSuccess
  | ExecutionStatusFailed
  | ExecutionStatusCancelled

fun execution_status_text :: "ExecutionStatus \<Rightarrow> string" where
  "execution_status_text ExecutionStatusPending = ''PENDING''"
| "execution_status_text ExecutionStatusRunning = ''RUNNING''"
| "execution_status_text ExecutionStatusRetryWait = ''RETRY_WAIT''"
| "execution_status_text ExecutionStatusSuccess = ''SUCCESS''"
| "execution_status_text ExecutionStatusFailed = ''FAILED''"
| "execution_status_text ExecutionStatusCancelled = ''CANCELLED''"

record TimerExecution =
  te_ID :: int
  te_TimerID :: int
  te_ScheduledAt :: time
  te_Status :: ExecutionStatus
  te_Attempt :: int
  te_MaxAttempts :: int
  te_NextAttemptAt :: "time option"
  te_LeaseOwner :: string
  te_LeaseUntil :: "time option"
  te_RunToken :: string
  te_LastEnqueuedAt :: "time option"
  te_RequestSnapshot :: json
  te_StartedAt :: "time option"
  te_FinishedAt :: "time option"
  te_ResponseCode :: int
  te_ResponseBody :: string
  te_ErrorMessage :: string
  te_DurationMS :: int
  te_CreatedAt :: time
  te_UpdatedAt :: time

definition terminal_status :: "ExecutionStatus \<Rightarrow> bool" where
  "terminal_status st \<longleftrightarrow>
     st = ExecutionStatusSuccess \<or> st = ExecutionStatusFailed \<or> st = ExecutionStatusCancelled"

definition IsTerminal :: "TimerExecution \<Rightarrow> bool" where
  "IsTerminal e \<longleftrightarrow> terminal_status (te_Status e)"

lemma terminal_status_simps [simp]:
  "\<not> terminal_status ExecutionStatusPending"
  "\<not> terminal_status ExecutionStatusRunning"
  "\<not> terminal_status ExecutionStatusRetryWait"
  "terminal_status ExecutionStatusSuccess"
  "terminal_status ExecutionStatusFailed"
  "terminal_status ExecutionStatusCancelled"
  by (simp_all add: terminal_status_def)

record CallbackSnapshot =
  cs_URL :: string
  cs_Method :: string
  cs_Body :: string
  cs_Headers :: string_map

text \<open>\<^verbatim>\<open>json.Marshal\<close> of the struct: the fields in their order under their tags, empty
  headers left out (\<^verbatim>\<open>omitempty\<close>).\<close>

definition marshal_snapshot :: "CallbackSnapshot \<Rightarrow> json" where
  "marshal_snapshot s =
     JObj ([(''url'', JStr (cs_URL s)), (''method'', JStr (cs_Method s)),
            (''body'', JStr (cs_Body s))] @
           (if cs_Headers s = [] then []
            else [(''headers'', JObj (map (\<lambda>(k, v). (k, JStr v)) (cs_Headers s)))]))"

text \<open>
  \<^verbatim>\<open>json.Unmarshal\<close> into a zero \<^verbatim>\<open>CallbackSnapshot\<close>.  Members are taken in
  order, matched with the tags without regard to case, unknown ones skipped; \<^verbatim>\<open>null\<close> changes
  nothing in a string field; a value of another type is the error the call returns once the rest has
  been read.  The first component says whether such an error was met.
\<close>

definition string_field :: "json \<Rightarrow> string \<Rightarrow> bool \<times> string" where
  "string_field v old =
     (case v of JStr s \<Rightarrow> (False, s) | JNull \<Rightarrow> (False, old) | _ \<Rightarrow> (True, old))"

fun headers_members :: "(string \<times> json) list \<Rightarrow> string_map \<Rightarrow> bool \<times> string_map" where
  "headers_members [] m = (False, m)"
| "headers_members ((k, v) # ms) m =
     (let (bad, s) = string_field v [];
          (bad', m') = headers_members ms (map_put k s m)
      in (bad \<or> bad', m'))"

definition headers_field :: "json \<Rightarrow> string_map \<Rightarrow> bool \<times> string_map" where
  "headers_field v old =
     (case v of JObj ms \<Rightarrow> headers_members ms old | JNull \<Rightarrow> (False, []) | _ \<Rightarrow> (True, old))"

fun snapshot_members ::
  "(string \<times> json) list \<Rightarrow> CallbackSnapshot \<Rightarrow> bool \<times> CallbackSnapshot" where
  "snapshot_members [] c = (False, c)"
| "snapshot_members ((k, v) # ms) c =
     (let n = ToLower k;
          (bad, c') =
            (if n = ''url'' then
               (case string_field v (cs_URL c) of (b, s) \<Rightarrow> (b, c\<lparr>cs_URL := s\<rparr>))
             else if n = ''method'' then
               (case string_field v (cs_Method c) of (b, s) \<Rightarrow> (b, c\<lparr>cs_Method := s\<rparr>))
             else if n = ''body'' then
               (case string_field v (cs_Body c) of (b, s) \<Rightarrow> (b, c\<lparr>cs_Body := s\<rparr>))
             else if n = ''headers'' then
               (case headers_field v (cs_Headers c) of (b, m) \<Rightarrow> (b, c\<lparr>cs_Headers := m\<rparr>))
             else (False, c));
          (bad', c'') = snapshot_members ms c'
      in (bad \<or> bad', c''))"

definition empty_snapshot :: CallbackSnapshot where
  "empty_snapshot = \<lparr>cs_URL = [], cs_Method = [], cs_Body = [], cs_Headers = []\<rparr>"

definition unmarshal_snapshot :: "json \<Rightarrow> CallbackSnapshot result" where
  "unmarshal_snapshot v =
     (case v of
        JObj ms \<Rightarrow>
          (case snapshot_members ms empty_snapshot of
             (bad, c) \<Rightarrow>
               if bad then Inl ''json: cannot unmarshal into model.CallbackSnapshot'' else Inr c)
      | JNull \<Rightarrow> Inr empty_snapshot
      | _ \<Rightarrow> Inl ''json: cannot unmarshal into model.CallbackSnapshot'')"

lemma headers_members_strings:
  "ordered_keys (acc @ m) \<Longrightarrow>
     headers_members (map (\<lambda>(k, v). (k, JStr v)) m) acc = (False, acc @ m)"
proof (induction m arbitrary: acc)
  case (Cons p m)
  obtain k v where p: "p = (k, v)" by force
  have "map_put k v acc = acc @ [(k, v)]"
    using Cons.prems by (intro map_put_append) (auto simp: ordered_keys_def sorted_wrt_append p)
  with Cons.IH [of "acc @ [p]"] Cons.prems show ?case by (simp add: p string_field_def)
qed simp

lemma ToLower_tags [simp]:
  "ToLower ''url'' = ''url''" "ToLower ''method'' = ''method''"
  "ToLower ''body'' = ''body''" "ToLower ''headers'' = ''headers''"
  by (simp_all add: ToLower_def lower_char_def)

text \<open>A stored snapshot decodes to the snapshot that was stored.\<close>

lemma unmarshal_marshal_snapshot:
  assumes "ordered_keys (cs_Headers c)"
  shows "unmarshal_snapshot (marshal_snapshot c) = Inr c"
  using assms headers_members_strings [of "[]" "cs_Headers c"]
  by (simp add: unmarshal_snapshot_def marshal_snapshot_def empty_snapshot_def string_field_def
      headers_field_def)

section \<open>Outbox events\<close>

definition OutboxAggregateTimerExecution :: string where
  "OutboxAggregateTimerExecution = ''timer_execution''"

definition OutboxEventExecutionReady :: string where
  "OutboxEventExecutionReady = ''EXECUTION_READY''"

definition OutboxEventExecutionRetry :: string where
  "OutboxEventExecutionRetry = ''EXECUTION_RETRY''"

definition OutboxEventExecutionRecovery :: string where
  "OutboxEventExecutionRecovery = ''EXECUTION_RECOVERY''"

record OutboxEvent =
  oe_ID :: int
  oe_EventID :: string
  oe_AggregateType :: string
  oe_AggregateID :: int
  oe_EventType :: string
  oe_Payload :: json
  oe_AvailableAt :: time
  oe_PublishedAt :: "time option"
  oe_PublishedMessageID :: string
  oe_Attempts :: int
  oe_NextAttemptAt :: "time option"
  oe_ClaimOwner :: string
  oe_ClaimUntil :: "time option"
  oe_LastError :: string
  oe_CreatedAt :: time
  oe_UpdatedAt :: time

section \<open>Event identifiers\<close>

text \<open>The three \<^verbatim>\<open>fmt.Sprintf\<close> formats of an event's business key, written by
  \<^verbatim>\<open>ScheduleDueBatch\<close>, \<^verbatim>\<open>CompleteFailure\<close> and
  \<^verbatim>\<open>RecoverBatch\<close>.\<close>

definition ready_event_id :: "int \<Rightarrow> string" where
  "ready_event_id i = ''execution-ready-'' @ show_int i"

definition retry_event_id :: "int \<Rightarrow> int \<Rightarrow> string" where
  "retry_event_id i attempt = ''execution-retry-'' @ show_int i @ ''-'' @ show_int attempt"

definition recovery_event_id :: "int \<Rightarrow> time \<Rightarrow> string" where
  "recovery_event_id i now = ''execution-recovery-'' @ show_int i @ ''-'' @ show_int now"

lemma ready_event_id_inject [simp]: "ready_event_id i = ready_event_id j \<longleftrightarrow> i = j"
  by (simp add: ready_event_id_def)

lemma retry_event_id_inject:
  "0 \<le> i \<Longrightarrow> 0 \<le> j \<Longrightarrow> retry_event_id i a = retry_event_id j b \<longleftrightarrow> i = j \<and> a = b"
  by (simp add: retry_event_id_def show_int_nonneg eq_nat_nat_iff)

lemma recovery_event_id_inject:
  "0 \<le> i \<Longrightarrow> 0 \<le> j \<Longrightarrow> recovery_event_id i s = recovery_event_id j t \<longleftrightarrow> i = j \<and> s = t"
  by (simp add: recovery_event_id_def show_int_nonneg eq_nat_nat_iff)

lemma event_id_kinds_differ [simp]:
  "ready_event_id i \<noteq> retry_event_id j a" "retry_event_id j a \<noteq> ready_event_id i"
  "ready_event_id i \<noteq> recovery_event_id k t" "recovery_event_id k t \<noteq> ready_event_id i"
  "retry_event_id j a \<noteq> recovery_event_id k t" "recovery_event_id k t \<noteq> retry_event_id j a"
  by (simp_all add: ready_event_id_def retry_event_id_def recovery_event_id_def)

text \<open>\<^verbatim>\<open>event_id VARCHAR(64)\<close> is wide enough for all of them.\<close>

lemma event_id_lengths:
  assumes "in_int64 i" "in_int64 j"
  shows "length (ready_event_id i) \<le> 64"
    and "length (retry_event_id i j) \<le> 64"
    and "length (recovery_event_id i j) \<le> 64"
  using assms [THEN length_show_int]
  by (simp_all add: ready_event_id_def retry_event_id_def recovery_event_id_def)

lemma event_id_ascii [simp]:
  "ascii (ready_event_id i)" "ascii (retry_event_id i j)" "ascii (recovery_event_id i j)"
  by (simp_all add: ready_event_id_def retry_event_id_def recovery_event_id_def)

end
