(* ===== verification/Sql_Store.thy ===== *)
theory Sql_Store
  imports Domain_Model
begin

text \<open>
  The database as the repositories use it: the three tables of
  \<^verbatim>\<open>migrations/00001_init.up.sql\<close> as row lists in primary-key order with their
  \<^verbatim>\<open>AUTO_INCREMENT\<close> counters, the SQL statements gorm issues, and transactions.

  A \<^emph>\<open>session\<close> is what the environment contributes to one repository call: which
  statement fails and with what error (a lost connection, a deadlock, a failed commit), the clock gorm
  stamps \<^verbatim>\<open>created_at\<close> and \<^verbatim>\<open>updated_at\<close> with, and the rows other transactions hold locked,
  which \<^verbatim>\<open>FOR UPDATE SKIP LOCKED\<close> leaves out.  Statements are numbered within a
  call.  A transaction keeps its changes only when every statement and the commit succeed;
  otherwise the call leaves the database as it was (InnoDB would leave a gap in the counters, which
  nothing observes).  A write outside an explicit transaction is one of its own: gorm wraps it,
  since the code does not set \<^verbatim>\<open>SkipDefaultTransaction\<close>.

  \<^verbatim>\<open>RowsAffected\<close> counts the rows an UPDATE changed, as MySQL reports when the DSN does
  not ask for \<^verbatim>\<open>clientFoundRows\<close>.  The column widths are those of the schema and
  are enforced, as in MySQL's default strict mode, and so is the character set: a text that is not UTF-8 is
  refused like one that is too long.  String comparison is exact: the
  case-insensitive collation and the rounding of \<^verbatim>\<open>DATETIME(3)\<close> are left out.
\<close>

section \<open>Tables\<close>

record db =
  timers :: "TimerDefinition list"
  executions :: "TimerExecution list"
  outbox :: "OutboxEvent list"
  timer_seq :: int
  execution_seq :: int
  outbox_seq :: int

definition empty_db :: db where
  "empty_db = \<lparr>timers = [], executions = [], outbox = [],
     timer_seq = 1, execution_seq = 1, outbox_seq = 1\<rparr>"

record session =
  ses_fault :: "nat \<Rightarrow> go_error option"
  ses_clock :: "nat \<Rightarrow> time"
  ses_timer_locked :: "int \<Rightarrow> bool"
  ses_execution_locked :: "int \<Rightarrow> bool"
  ses_outbox_locked :: "int \<Rightarrow> bool"

text \<open>A session in which nothing fails and nobody else holds a lock.\<close>

definition quiet_session :: "time \<Rightarrow> session" where
  "quiet_session t = \<lparr>ses_fault = (\<lambda>_. None), ses_clock = (\<lambda>_. t),
     ses_timer_locked = (\<lambda>_. False), ses_execution_locked = (\<lambda>_. False),
     ses_outbox_locked = (\<lambda>_. False)\<rparr>"

text \<open>Characters of UTF-8 text: the bytes that do not continue one.\<close>

definition char_count :: "string \<Rightarrow> nat" where
  "char_count s = length (filter (\<lambda>c. (of_char c :: nat) < 128 \<or> 192 \<le> (of_char c :: nat)) s)"

definition varchar :: "nat \<Rightarrow> string \<Rightarrow> bool" where
  "varchar n s \<longleftrightarrow> valid_utf8 s \<and> char_count s \<le> n"

text \<open>A \<^verbatim>\<open>TEXT\<close> column holds 65535 bytes of text.\<close>

definition text_column :: "string \<Rightarrow> bool" where
  "text_column s \<longleftrightarrow> valid_utf8 s \<and> length s \<le> 65535"

definition timer_fits :: "TimerDefinition \<Rightarrow> bool" where
  "timer_fits t \<longleftrightarrow>
     varchar 128 (td_App t) \<and> varchar 128 (td_Name t) \<and> varchar 64 (td_CronExpr t) \<and>
     varchar 512 (td_CallbackURL t) \<and> varchar 16 (td_CallbackMethod t) \<and>
     text_column (td_CallbackBody t) \<and> text_column (td_CallbackHeaders t) \<and>
     varchar 32 (timer_status_text (td_Status t)) \<and>
     varchar 32 (misfire_policy_text (td_MisfirePolicy t))"

definition execution_fits :: "TimerExecution \<Rightarrow> bool" where
  "execution_fits e \<longleftrightarrow>
     varchar 128 (te_LeaseOwner e) \<and> varchar 64 (te_RunToken e) \<and>
     text_column (te_ResponseBody e) \<and> text_column (te_ErrorMessage e)"

definition outbox_fits :: "OutboxEvent \<Rightarrow> bool" where
  "outbox_fits o' \<longleftrightarrow>
     varchar 64 (oe_EventID o') \<and> varchar 64 (oe_AggregateType o') \<and> varchar 64 (oe_EventType o') \<and>
     varchar 128 (oe_PublishedMessageID o') \<and> varchar 128 (oe_ClaimOwner o') \<and>
     text_column (oe_LastError o')"

lemma char_count_le: "char_count s \<le> length s"
  by (simp add: char_count_def)

lemma varcharI: "ascii s \<Longrightarrow> length s \<le> n \<Longrightarrow> varchar n s"
  using char_count_le [of s] by (simp add: varchar_def)

section \<open>Transactions\<close>

text \<open>A computation inside a transaction: it threads the number of the next statement and the
  working copy of the database, and an error ends it.\<close>

type_synonym 'a tx = "session \<Rightarrow> nat \<times> db \<Rightarrow> 'a result \<times> nat \<times> db"
type_synonym 'a db_op = "session \<Rightarrow> db \<Rightarrow> 'a result \<times> db"

definition tx_return :: "'a \<Rightarrow> 'a tx" where
  "tx_return a = (\<lambda>ses s. (Inr a, s))"

definition tx_throw :: "go_error \<Rightarrow> 'a tx" where
  "tx_throw e = (\<lambda>ses s. (Inl e, s))"

definition tx_bind :: "'a tx \<Rightarrow> ('a \<Rightarrow> 'b tx) \<Rightarrow> 'b tx" where
  "tx_bind m f = (\<lambda>ses s.
     case m ses s of (Inl e, s') \<Rightarrow> (Inl e, s') | (Inr a, s') \<Rightarrow> f a ses s')"

definition tx_wrap :: "string \<Rightarrow> 'a tx \<Rightarrow> 'a tx" where
  "tx_wrap ctx m = (\<lambda>ses s. case m ses s of (r, s') \<Rightarrow> (map_err (wrap_err ctx) r, s'))"

text \<open>A \<^verbatim>\<open>for\<close> loop over a slice inside a transaction.\<close>

fun tx_each :: "('a \<Rightarrow> 'b \<Rightarrow> 'b tx) \<Rightarrow> 'a list \<Rightarrow> 'b \<Rightarrow> 'b tx" where
  "tx_each f [] b = tx_return b"
| "tx_each f (a # as) b = tx_bind (f a b) (\<lambda>b'. tx_each f as b')"

text \<open>One SQL statement: the environment may fail it.\<close>

definition statement :: "(session \<Rightarrow> time \<Rightarrow> db \<Rightarrow> 'a result \<times> db) \<Rightarrow> 'a tx" where
  "statement f = (\<lambda>ses (n, d).
     case ses_fault ses n of
       Some e \<Rightarrow> (Inl e, Suc n, d)
     | None \<Rightarrow> (case f ses (ses_clock ses n) d of (r, d') \<Rightarrow> (r, Suc n, d')))"

definition transaction :: "'a tx \<Rightarrow> 'a db_op" where
  "transaction m = (\<lambda>ses d.
     case m ses (0, d) of
       (Inl e, s) \<Rightarrow> (Inl e, d)
     | (Inr a, n, d') \<Rightarrow> (case ses_fault ses n of Some e \<Rightarrow> (Inl e, d) | None \<Rightarrow> (Inr a, d')))"

text \<open>A Go function that post-processes a repository error, \<^verbatim>\<open>fmt.Errorf("...: %w", err)\<close>.\<close>

definition op_wrap :: "string \<Rightarrow> 'a db_op \<Rightarrow> 'a db_op" where
  "op_wrap ctx m = (\<lambda>ses d. case m ses d of (r, d') \<Rightarrow> (map_err (wrap_err ctx) r, d'))"

subsection \<open>Reasoning about a transaction\<close>

text \<open>\<open>ensures ses P m Q\<close>: when \<open>m\<close> started in a state with \<open>P\<close> returns a value, the
  value and the new state satisfy \<open>Q\<close>.\<close>

definition ensures :: "session \<Rightarrow> (db \<Rightarrow> bool) \<Rightarrow> 'a tx \<Rightarrow> ('a \<Rightarrow> db \<Rightarrow> bool) \<Rightarrow> bool" where
  "ensures ses P m Q \<longleftrightarrow>
     (\<forall>n d a n' d'. P d \<longrightarrow> m ses (n, d) = (Inr a, n', d') \<longrightarrow> Q a d')"

named_theorems ensures_rules "rules that decompose ensures"

lemma ensures_return [ensures_rules]: "(\<And>d. P d \<Longrightarrow> Q a d) \<Longrightarrow> ensures ses P (tx_return a) Q"
  by (simp add: ensures_def tx_return_def)

lemma ensures_throw [ensures_rules]: "ensures ses P (tx_throw e) Q"
  by (simp add: ensures_def tx_throw_def)

lemma ensures_bind:
  assumes "ensures ses P m R" "\<And>a. ensures ses (R a) (f a) Q"
  shows "ensures ses P (tx_bind m f) Q"
  using assms unfolding ensures_def tx_bind_def
  by (fastforce split: prod.splits sum.splits)

lemma ensures_wrap [ensures_rules]: "ensures ses P m Q \<Longrightarrow> ensures ses P (tx_wrap ctx m) Q"
  by (fastforce simp: ensures_def tx_wrap_def split: prod.splits)

lemma ensures_statement:
  assumes "\<And>t d a d'. P d \<Longrightarrow> f ses t d = (Inr a, d') \<Longrightarrow> Q a d'"
  shows "ensures ses P (statement f) Q"
  using assms unfolding ensures_def statement_def
  by (fastforce split: prod.splits option.splits)

lemma ensures_if [ensures_rules]:
  "(b \<Longrightarrow> ensures ses P m Q) \<Longrightarrow> (\<not> b \<Longrightarrow> ensures ses P m' Q) \<Longrightarrow>
     ensures ses P (if b then m else m') Q"
  by simp

lemma ensures_pre: "ensures ses P' m Q \<Longrightarrow> (\<And>d. P d \<Longrightarrow> P' d) \<Longrightarrow> ensures ses P m Q"
  unfolding ensures_def by blast

lemma ensures_post:
  "ensures ses P m Q' \<Longrightarrow> (\<And>a d. Q' a d \<Longrightarrow> Q a d) \<Longrightarrow> ensures ses P m Q"
  by (fastforce simp: ensures_def)

lemma ensures_conj:
  "ensures ses P m Q \<Longrightarrow> ensures ses P m Q' \<Longrightarrow> ensures ses P m (\<lambda>a d. Q a d \<and> Q' a d)"
  by (simp add: ensures_def)

lemma ensures_known:
  assumes "ensures ses P (f c) Q"
  shows "ensures ses (\<lambda>d. a = c \<and> P d) (f a) Q"
  using assms by (cases "a = c") (simp_all add: ensures_def)

text \<open>A committed transaction has done what its body ensures; a failed one nothing.\<close>

lemma transaction_ok:
  assumes "ensures ses P m Q" "P d" "transaction m ses d = (Inr a, d')"
  shows "Q a d'"
  using assms by (fastforce simp: transaction_def ensures_def split: prod.splits sum.splits option.splits)

lemma transaction_error: "transaction m ses d = (Inl e, d') \<Longrightarrow> d' = d"
  by (auto simp: transaction_def split: prod.splits sum.splits option.splits)

lemma transaction_preserves:
  assumes "ensures ses I m (\<lambda>_. I)" "I d" "transaction m ses d = (r, d')"
  shows "I d'"
proof (cases r)
  case (Inl e)
  with assms show ?thesis using transaction_error by blast
next
  case (Inr a)
  with assms show ?thesis using transaction_ok [OF assms(1,2)] by blast
qed

lemma op_wrap_Inr: "op_wrap ctx m ses d = (Inr a, d') \<longleftrightarrow> m ses d = (Inr a, d')"
  by (auto simp: op_wrap_def split: prod.splits)

lemma op_wrap_Inl: "op_wrap ctx m ses d = (Inl e, d') \<Longrightarrow> \<exists>e0. m ses d = (Inl e0, d')"
  by (auto simp: op_wrap_def map_err_def split: prod.splits sum.splits)

lemma op_wrap_state: "snd (op_wrap ctx m ses d) = snd (m ses d)"
  by (simp add: op_wrap_def split: prod.splits)

lemma snd_transaction_preserves:
  "ensures ses I m (\<lambda>_. I) \<Longrightarrow> I d \<Longrightarrow> I (snd (transaction m ses d))"
  by (metis prod.collapse transaction_preserves)

subsection \<open>When nothing fails\<close>

text \<open>\<open>succeeds ses P m Q\<close>: with no fault in the session, \<open>m\<close> started in a state
  with \<open>P\<close> does return a value, and \<open>Q\<close> holds of it.\<close>

definition faultless :: "session \<Rightarrow> bool" where
  "faultless ses \<longleftrightarrow> (\<forall>n. ses_fault ses n = None)"

definition succeeds :: "session \<Rightarrow> (db \<Rightarrow> bool) \<Rightarrow> 'a tx \<Rightarrow> ('a \<Rightarrow> db \<Rightarrow> bool) \<Rightarrow> bool" where
  "succeeds ses P m Q \<longleftrightarrow>
     (\<forall>n d. P d \<longrightarrow> (\<exists>a n' d'. m ses (n, d) = (Inr a, n', d') \<and> Q a d'))"

lemma succeedsI:
  "(\<And>n d. P d \<Longrightarrow> \<exists>a n' d'. m ses (n, d) = (Inr a, n', d') \<and> Q a d') \<Longrightarrow> succeeds ses P m Q"
  by (simp add: succeeds_def)

lemma succeedsE:
  assumes "succeeds ses P m Q" "P d"
  obtains a n' d' where "m ses (n, d) = (Inr a, n', d')" "Q a d'"
  using assms unfolding succeeds_def by blast

lemma succeeds_return: "(\<And>d. P d \<Longrightarrow> Q a d) \<Longrightarrow> succeeds ses P (tx_return a) Q"
  by (simp add: succeeds_def tx_return_def)

lemma succeeds_bind:
  assumes "succeeds ses P m R" "\<And>a. succeeds ses (R a) (f a) Q"
  shows "succeeds ses P (tx_bind m f) Q"
proof (rule succeedsI)
  fix n d assume "P d"
  with assms(1) obtain a n1 d1 where m: "m ses (n, d) = (Inr a, n1, d1)" "R a d1"
    by (rule succeedsE)
  from assms(2) m(2) obtain b n2 d2 where "f a ses (n1, d1) = (Inr b, n2, d2)" "Q b d2"
    by (rule succeedsE)
  with m(1) show "\<exists>b n' d'. tx_bind m f ses (n, d) = (Inr b, n', d') \<and> Q b d'"
    by (simp add: tx_bind_def)
qed

lemma succeeds_wrap:
  assumes "succeeds ses P m Q"
  shows "succeeds ses P (tx_wrap ctx m) Q"
proof (rule succeedsI)
  fix n d assume "P d"
  with assms obtain a n1 d1 where "m ses (n, d) = (Inr a, n1, d1)" "Q a d1"
    by (rule succeedsE)
  then show "\<exists>a n' d'. tx_wrap ctx m ses (n, d) = (Inr a, n', d') \<and> Q a d'"
    by (simp add: tx_wrap_def)
qed

lemma succeeds_statement:
  assumes "faultless ses" "\<And>t d. P d \<Longrightarrow> \<exists>a d'. f ses t d = (Inr a, d') \<and> Q a d'"
  shows "succeeds ses P (statement f) Q"
proof (rule succeedsI)
  fix n d assume "P d"
  with assms(2) obtain a d' where "f ses (ses_clock ses n) d = (Inr a, d')" "Q a d'"
    by blast
  with assms(1) show "\<exists>a n' d'. statement f ses (n, d) = (Inr a, n', d') \<and> Q a d'"
    by (simp add: statement_def faultless_def)
qed

lemma succeeds_pre: "succeeds ses P' m Q \<Longrightarrow> (\<And>d. P d \<Longrightarrow> P' d) \<Longrightarrow> succeeds ses P m Q"
  unfolding succeeds_def by blast

lemma succeeds_post:
  "succeeds ses P m Q' \<Longrightarrow> (\<And>a d. Q' a d \<Longrightarrow> Q a d) \<Longrightarrow> succeeds ses P m Q"
  unfolding succeeds_def by blast

lemma succeeds_ensures:
  "succeeds ses P m (\<lambda>_ _. True) \<Longrightarrow> ensures ses P m Q \<Longrightarrow> succeeds ses P m Q"
  by (fastforce simp: succeeds_def ensures_def)

lemma transaction_succeeds:
  assumes "faultless ses" "succeeds ses P m Q" "P d"
  obtains a d' where "transaction m ses d = (Inr a, d')" "Q a d'"
proof -
  from assms(2,3) obtain a n' d' where m: "m ses (0, d) = (Inr a, n', d')" "Q a d'"
    unfolding succeeds_def by blast
  with assms(1) have "transaction m ses d = (Inr a, d')"
    by (simp add: transaction_def faultless_def)
  with m(2) that show ?thesis by blast
qed

lemma faultless_quiet [simp]: "faultless (quiet_session t)"
  by (simp add: faultless_def quiet_session_def)

subsection \<open>Loops\<close>

lemma ensures_each:
  assumes "\<And>xs x ys b. all = xs @ x # ys \<Longrightarrow>
      ensures ses (R xs b) (f x b) (\<lambda>b' d. R (xs @ [x]) b' d)"
  shows "ensures ses (R [] b) (tx_each f all b) (\<lambda>b' d. R all b' d)"
proof -
  have "ensures ses (R done b) (tx_each f rest b) (\<lambda>b' d. R all b' d)"
    if "all = done @ rest" for "done" rest b
    using that
  proof (induction rest arbitrary: "done" b)
    case Nil
    then show ?case by (simp add: ensures_return)
  next
    case (Cons x rest)
    then have "ensures ses (R (done @ [x]) b') (tx_each f rest b') (\<lambda>b' d. R all b' d)" for b'
      by simp
    with assms [OF Cons.prems] show ?case
      using ensures_bind [of ses "R done b" "f x b" "R (done @ [x])" "tx_each f rest"] by simp
  qed
  from this [of "[]"] show ?thesis by simp
qed

lemma succeeds_each:
  assumes "\<And>xs x ys b. all = xs @ x # ys \<Longrightarrow>
      succeeds ses (R xs b) (f x b) (\<lambda>b' d. R (xs @ [x]) b' d)"
  shows "succeeds ses (R [] b) (tx_each f all b) (\<lambda>b' d. R all b' d)"
proof -
  have "succeeds ses (R done b) (tx_each f rest b) (\<lambda>b' d. R all b' d)"
    if "all = done @ rest" for "done" rest b
    using that
  proof (induction rest arbitrary: "done" b)
    case Nil
    then show ?case by (simp add: succeeds_return)
  next
    case (Cons x rest)
    then have "succeeds ses (R (done @ [x]) b') (tx_each f rest b') (\<lambda>b' d. R all b' d)" for b'
      by simp
    with assms [OF Cons.prems] show ?case
      using succeeds_bind [of ses "R done b" "f x b" "R (done @ [x])" "tx_each f rest"] by simp
  qed
  from this [of "[]"] show ?thesis by simp
qed

end
