(* ===== verification/Sql_Statements.thy ===== *)
theory Sql_Statements
  imports Sql_Store
begin

text \<open>
  The SQL statements the repositories issue, generic in the table: UPDATE with its
  \<^verbatim>\<open>RowsAffected\<close>, locking and plain SELECT, INSERT with a unique key, INSERT that ignores a
  duplicate, DELETE in key order with a limit, and reads outside a transaction.  The locale \<open>sql_table\<close> is the interface of a
  table, interpreted on the three tables of the schema; the laws of the statements are proved once
  inside it.
\<close>

section \<open>Statements\<close>

text \<open>A row that does not fit its columns; the same error stands for 1366, an incorrect string value.\<close>

definition data_too_long :: go_error where
  "data_too_long = ''Error 1406: Data too long for column''"

definition duplicate_entry :: go_error where
  "duplicate_entry = ''Error 1062: Duplicate entry''"

definition update_rows :: "('r \<Rightarrow> bool) \<Rightarrow> ('r \<Rightarrow> 'r) \<Rightarrow> 'r list \<Rightarrow> 'r list" where
  "update_rows P g rs = map (\<lambda>r. if P r then g r else r) rs"

definition changed_rows :: "('r \<Rightarrow> bool) \<Rightarrow> ('r \<Rightarrow> 'r) \<Rightarrow> 'r list \<Rightarrow> int" where
  "changed_rows P g rs = int (length (filter (\<lambda>r. P r \<and> g r \<noteq> r) rs))"

text \<open>\<^verbatim>\<open>UPDATE t SET f WHERE P\<close>; \<open>touch\<close> sets \<^verbatim>\<open>updated_at\<close>, which gorm adds to
  every update of a model.\<close>

definition update_stmt ::
  "(db \<Rightarrow> 'r list) \<Rightarrow> ('r list \<Rightarrow> db \<Rightarrow> db) \<Rightarrow> (time \<Rightarrow> 'r \<Rightarrow> 'r) \<Rightarrow> ('r \<Rightarrow> bool) \<Rightarrow>
     ('r \<Rightarrow> bool) \<Rightarrow> ('r \<Rightarrow> 'r) \<Rightarrow> int tx" where
  "update_stmt rows put touch fits P f = statement (\<lambda>ses t d.
     let g = (\<lambda>r. touch t (f r)) in
     if list_all (\<lambda>r. P r \<longrightarrow> fits (g r)) (rows d)
     then (Inr (changed_rows P g (rows d)), put (update_rows P g (rows d)) d)
     else (Inl data_too_long, d))"

text \<open>\<^verbatim>\<open>SELECT ... WHERE P ORDER BY ... LIMIT n FOR UPDATE SKIP LOCKED\<close>.\<close>

definition select_stmt ::
  "(db \<Rightarrow> 'r list) \<Rightarrow> (session \<Rightarrow> 'r \<Rightarrow> bool) \<Rightarrow> ('r list \<Rightarrow> 'r list) \<Rightarrow> int \<Rightarrow> ('r \<Rightarrow> bool) \<Rightarrow>
     'r list tx" where
  "select_stmt rows locked ord n P = statement (\<lambda>ses t d.
     (Inr (list_take n (ord (filter (\<lambda>r. P r \<and> \<not> locked ses r) (rows d)))), d))"

text \<open>INSERT: the row gets the next key and its creation time.\<close>

definition insert_stmt ::
  "(db \<Rightarrow> 'r list) \<Rightarrow> ('r list \<Rightarrow> db \<Rightarrow> db) \<Rightarrow> (db \<Rightarrow> int) \<Rightarrow> (db \<Rightarrow> db) \<Rightarrow>
     (int \<Rightarrow> time \<Rightarrow> 'r \<Rightarrow> 'r) \<Rightarrow> ('r \<Rightarrow> bool) \<Rightarrow> ('r \<Rightarrow> 'r \<Rightarrow> bool) \<Rightarrow> 'r \<Rightarrow> 'r tx" where
  "insert_stmt rows put seq bump create fits clash r = statement (\<lambda>ses t d.
     let r' = create (seq d) t r in
     if \<not> fits r' then (Inl data_too_long, d)
     else if list_ex (clash r') (rows d) then (Inl duplicate_entry, d)
     else (Inr r', bump (put (rows d @ [r']) d)))"

text \<open>INSERT with \<^verbatim>\<open>OnConflict{DoNothing: true}\<close>: \<^const>\<open>None\<close> is \<^verbatim>\<open>RowsAffected = 0\<close>.\<close>

definition insert_ignore_stmt ::
  "(db \<Rightarrow> 'r list) \<Rightarrow> ('r list \<Rightarrow> db \<Rightarrow> db) \<Rightarrow> (db \<Rightarrow> int) \<Rightarrow> (db \<Rightarrow> db) \<Rightarrow>
     (int \<Rightarrow> time \<Rightarrow> 'r \<Rightarrow> 'r) \<Rightarrow> ('r \<Rightarrow> bool) \<Rightarrow> ('r \<Rightarrow> 'r \<Rightarrow> bool) \<Rightarrow> 'r \<Rightarrow> 'r option tx" where
  "insert_ignore_stmt rows put seq bump create fits clash r = statement (\<lambda>ses t d.
     let r' = create (seq d) t r in
     if \<not> fits r' then (Inl data_too_long, d)
     else if list_ex (clash r') (rows d) then (Inr None, d)
     else (Inr (Some r'), bump (put (rows d @ [r']) d)))"

text \<open>\<^verbatim>\<open>DELETE FROM t WHERE P ORDER BY id LIMIT n\<close>: the rows are in key order.\<close>

fun delete_rows :: "nat \<Rightarrow> ('r \<Rightarrow> bool) \<Rightarrow> 'r list \<Rightarrow> 'r list" where
  "delete_rows n P [] = []"
| "delete_rows 0 P rs = rs"
| "delete_rows (Suc n) P (r # rs) =
     (if P r then delete_rows n P rs else r # delete_rows (Suc n) P rs)"

definition delete_stmt ::
  "(db \<Rightarrow> 'r list) \<Rightarrow> ('r list \<Rightarrow> db \<Rightarrow> db) \<Rightarrow> int \<Rightarrow> (db \<Rightarrow> 'r \<Rightarrow> bool) \<Rightarrow> int tx" where
  "delete_stmt rows put n P = statement (\<lambda>ses t d.
     if n < 0 then (Inl ''Error 1064: You have an error in your SQL syntax'', d)
     else (let rs = delete_rows (nat n) (P d) (rows d)
           in (Inr (int (length (rows d)) - int (length rs)), put rs d)))"

section \<open>Facts about row lists\<close>

definition table_ok :: "('r \<Rightarrow> int) \<Rightarrow> int \<Rightarrow> 'r list \<Rightarrow> bool" where
  "table_ok key next rs \<longleftrightarrow>
     sorted_wrt (<) (map key rs) \<and> (\<forall>r \<in> set rs. 1 \<le> key r \<and> key r < next) \<and> 1 \<le> next"

lemma table_ok_Nil [simp]: "table_ok key 1 []"
  by (simp add: table_ok_def)

lemma table_ok_distinct: "table_ok key next rs \<Longrightarrow> distinct (map key rs)"
  by (simp add: table_ok_def strict_sorted_iff)

lemma table_ok_inj:
  "table_ok key next rs \<Longrightarrow> r \<in> set rs \<Longrightarrow> r' \<in> set rs \<Longrightarrow> key r = key r' \<Longrightarrow> r = r'"
  using table_ok_distinct distinct_map_eq by metis

lemma table_ok_bounds:
  "table_ok key next rs \<Longrightarrow> r \<in> set rs \<Longrightarrow> 1 \<le> key r \<and> key r < next"
  by (simp add: table_ok_def)

lemma map_key_update [simp]:
  "(\<And>r. key (g r) = key r) \<Longrightarrow> map key (update_rows P g rs) = map key rs"
  by (simp add: update_rows_def)

lemma length_update_rows [simp]: "length (update_rows P g rs) = length rs"
  by (simp add: update_rows_def)

lemma update_rows_Nil [simp]: "update_rows P g [] = []"
  by (simp add: update_rows_def)

lemma update_rows_Cons [simp]:
  "update_rows P g (r # rs) = (if P r then g r else r) # update_rows P g rs"
  by (simp add: update_rows_def)

lemma in_update_rows:
  "r' \<in> set (update_rows P g rs) \<longleftrightarrow> (\<exists>r \<in> set rs. r' = (if P r then g r else r))"
  by (auto simp: update_rows_def)

lemma update_rows_same: "(\<And>r. r \<in> set rs \<Longrightarrow> \<not> P r) \<Longrightarrow> update_rows P g rs = rs"
  by (induction rs) auto

lemma ball_update_rows:
  "\<forall>r \<in> set rs. R r \<Longrightarrow> (\<And>r. r \<in> set rs \<Longrightarrow> P r \<Longrightarrow> R r \<Longrightarrow> R (g r)) \<Longrightarrow>
     \<forall>r \<in> set (update_rows P g rs). R r"
  by (auto simp: in_update_rows)

lemma map_update_rows_same:
  "(\<And>r. f (g r) = f r) \<Longrightarrow> map f (update_rows P g rs) = map f rs"
  by (simp add: update_rows_def)

lemma table_ok_update:
  "table_ok key next rs \<Longrightarrow> (\<And>r. key (g r) = key r) \<Longrightarrow> table_ok key next (update_rows P g rs)"
  unfolding table_ok_def by (auto simp: in_update_rows)

lemma table_ok_append:
  "table_ok key next rs \<Longrightarrow> key r = next \<Longrightarrow> table_ok key (next + 1) (rs @ [r])"
  unfolding table_ok_def by (force simp: sorted_wrt_append)

lemma set_delete_rows: "set (delete_rows n P rs) \<subseteq> set rs"
  by (induction n P rs rule: delete_rows.induct) auto

lemma delete_rows_keeps: "r \<in> set rs \<Longrightarrow> \<not> P r \<Longrightarrow> r \<in> set (delete_rows n P rs)"
  by (induction n P rs rule: delete_rows.induct) auto

lemma delete_rows_gone: "r \<in> set rs \<Longrightarrow> r \<notin> set (delete_rows n P rs) \<Longrightarrow> P r"
  using delete_rows_keeps by metis

lemma length_delete_rows:
  "length rs - length (delete_rows n P rs) \<le> n" "length (delete_rows n P rs) \<le> length rs"
  by (induction n P rs rule: delete_rows.induct) auto

lemma sorted_wrt_delete_rows:
  "sorted_wrt (<) (map key rs) \<Longrightarrow> sorted_wrt (<) (map key (delete_rows n P rs))"
proof (induction n P rs rule: delete_rows.induct)
  case (3 n P r rs)
  with set_delete_rows [of "Suc n" P rs] show ?case by auto
qed auto

lemma distinct_delete_rows:
  "distinct (map f rs) \<Longrightarrow> distinct (map f (delete_rows n P rs))"
proof (induction n P rs rule: delete_rows.induct)
  case (3 n P r rs)
  with set_delete_rows [of "Suc n" P rs] show ?case by auto
qed auto

lemma table_ok_delete: "table_ok key next rs \<Longrightarrow> table_ok key next (delete_rows n P rs)"
  unfolding table_ok_def by (auto simp: sorted_wrt_delete_rows dest: subsetD [OF set_delete_rows])

text \<open>A WHERE clause that pins the key changes at most one row.\<close>

lemma length_filter_unique:
  assumes "distinct (map key rs)" "\<And>r. r \<in> set rs \<Longrightarrow> P r \<Longrightarrow> key r = k"
  shows "length (filter P rs) \<le> 1"
proof (rule ccontr)
  assume "\<not> length (filter P rs) \<le> 1"
  then obtain a b zs where f: "filter P rs = a # b # zs"
    by (cases "filter P rs"; cases "tl (filter P rs)") auto
  then have "a \<in> set (filter P rs)" "b \<in> set (filter P rs)" by simp_all
  then have "key a = key b" using assms(2) by simp
  moreover have "distinct (map key (filter P rs))" using assms(1) by (rule distinct_map_filter)
  ultimately show False by (simp add: f)
qed

lemma changed_rows_unique:
  assumes "distinct (map key rs)" "\<And>r. r \<in> set rs \<Longrightarrow> P r \<Longrightarrow> key r = k"
  shows "changed_rows P g rs = 1 \<longleftrightarrow> (\<exists>r \<in> set rs. P r \<and> g r \<noteq> r)"
proof -
  let ?F = "filter (\<lambda>r. P r \<and> g r \<noteq> r) rs"
  have "length ?F \<le> 1" using assms by (intro length_filter_unique [where key = key and k = k]) auto
  moreover have "length ?F \<noteq> 0 \<longleftrightarrow> (\<exists>r \<in> set rs. P r \<and> g r \<noteq> r)"
    by (auto simp: filter_empty_conv)
  ultimately show ?thesis unfolding changed_rows_def by linarith
qed

lemma changed_rows_zero:
  "changed_rows P g rs = 0 \<longleftrightarrow> (\<forall>r \<in> set rs. P r \<longrightarrow> g r = r)"
  by (simp add: changed_rows_def filter_empty_conv)

lemma changed_rows_nonneg [simp]: "0 \<le> changed_rows P g rs"
  by (simp add: changed_rows_def)

lemma changed_rows_all:
  "(\<And>r. r \<in> set rs \<Longrightarrow> P r \<Longrightarrow> g r \<noteq> r) \<Longrightarrow> changed_rows P g rs = int (length (filter P rs))"
  unfolding changed_rows_def
  by (rule arg_cong [where f = "\<lambda>xs. int (length xs)"], rule filter_cong) auto

section \<open>The interface of a table\<close>

locale sql_table =
  fixes rows :: "db \<Rightarrow> 'r list"
    and put :: "'r list \<Rightarrow> db \<Rightarrow> db"
    and key :: "'r \<Rightarrow> int"
    and seq :: "db \<Rightarrow> int"
    and bump :: "db \<Rightarrow> db"
    and touch :: "time \<Rightarrow> 'r \<Rightarrow> 'r"
    and create :: "int \<Rightarrow> time \<Rightarrow> 'r \<Rightarrow> 'r"
    and fits :: "'r \<Rightarrow> bool"
  assumes rows_put: "rows (put rs d) = rs"
    and seq_put: "seq (put rs d) = seq d"
    and rows_bump: "rows (bump d) = rows d"
    and seq_bump: "seq (bump d) = seq d + 1"
    and key_touch: "key (touch t r) = key r"
    and key_create: "key (create i t r) = i"
begin

lemma ok_update:
  "table_ok key (seq d) (rows d) \<Longrightarrow> (\<And>r. key (g r) = key r) \<Longrightarrow>
     table_ok key (seq d) (update_rows P g (rows d))"
  by (rule table_ok_update)

lemma ok_insert:
  "table_ok key (seq d) (rows d) \<Longrightarrow>
     table_ok key (seq (bump (put (rows d @ [create (seq d) t r]) d)))
       (rows (bump (put (rows d @ [create (seq d) t r]) d)))"
  by (simp add: rows_put seq_put rows_bump seq_bump table_ok_append key_create)

lemma fresh_key:
  "table_ok key (seq d) (rows d) \<Longrightarrow> x \<in> set (rows d) \<Longrightarrow> key x \<noteq> key (create (seq d) t r)"
  using table_ok_bounds [of key "seq d" "rows d" x] by (simp add: key_create)

lemma ensures_update:
  assumes "\<And>t d. I d \<Longrightarrow> \<forall>r \<in> set (rows d). P r \<longrightarrow> fits (touch t (f r)) \<Longrightarrow>
      Q (changed_rows P (\<lambda>r. touch t (f r)) (rows d))
        (put (update_rows P (\<lambda>r. touch t (f r)) (rows d)) d)"
  shows "ensures ses I (update_stmt rows put touch fits P f) Q"
  unfolding update_stmt_def
  by (rule ensures_statement)
     (use assms in \<open>auto simp: Let_def list_all_iff split: if_splits\<close>)

lemma ensures_select:
  assumes "\<And>d. I d \<Longrightarrow> Q (list_take n (ord (filter (\<lambda>r. P r \<and> \<not> locked ses r) (rows d)))) d"
  shows "ensures ses I (select_stmt rows locked ord n P) Q"
  unfolding select_stmt_def by (rule ensures_statement) (use assms in auto)

lemma ensures_insert:
  assumes "\<And>t d. I d \<Longrightarrow> fits (create (seq d) t r) \<Longrightarrow>
      (\<forall>x \<in> set (rows d). \<not> clash (create (seq d) t r) x) \<Longrightarrow>
      Q (create (seq d) t r) (bump (put (rows d @ [create (seq d) t r]) d))"
  shows "ensures ses I (insert_stmt rows put seq bump create fits clash r) Q"
  unfolding insert_stmt_def
  by (rule ensures_statement) (use assms in \<open>auto simp: Let_def list_ex_iff split: if_splits\<close>)

lemma ensures_insert_ignore:
  assumes "\<And>t d. I d \<Longrightarrow> fits (create (seq d) t r) \<Longrightarrow>
      (\<forall>x \<in> set (rows d). \<not> clash (create (seq d) t r) x) \<Longrightarrow>
      Q (Some (create (seq d) t r)) (bump (put (rows d @ [create (seq d) t r]) d))"
    and "\<And>t d x. I d \<Longrightarrow> x \<in> set (rows d) \<Longrightarrow> clash (create (seq d) t r) x \<Longrightarrow> Q None d"
  shows "ensures ses I (insert_ignore_stmt rows put seq bump create fits clash r) Q"
  unfolding insert_ignore_stmt_def
  by (rule ensures_statement) (use assms in \<open>auto simp: Let_def list_ex_iff split: if_splits\<close>)

lemma ensures_delete:
  assumes "\<And>d. I d \<Longrightarrow> 0 \<le> n \<Longrightarrow>
      Q (int (length (rows d)) - int (length (delete_rows (nat n) (P d) (rows d))))
        (put (delete_rows (nat n) (P d) (rows d)) d)"
  shows "ensures ses I (delete_stmt rows put n P) Q"
  unfolding delete_stmt_def
  by (rule ensures_statement) (use assms in \<open>auto simp: Let_def split: if_splits\<close>)

text \<open>The effect of an UPDATE that is a transaction of its own.\<close>

lemma update_effect:
  assumes "transaction (update_stmt rows put touch fits P f) ses d = (Inr n, d')"
  obtains u where "d' = put (update_rows P (\<lambda>r. touch u (f r)) (rows d)) d"
    and "n = changed_rows P (\<lambda>r. touch u (f r)) (rows d)"
    and "\<And>r. r \<in> set (rows d) \<Longrightarrow> P r \<Longrightarrow> fits (touch u (f r))"
proof -
  have "ensures ses (\<lambda>x. x = d) (update_stmt rows put touch fits P f) (\<lambda>n d'. \<exists>u.
      d' = put (update_rows P (\<lambda>r. touch u (f r)) (rows d)) d \<and>
      n = changed_rows P (\<lambda>r. touch u (f r)) (rows d) \<and>
      (\<forall>r \<in> set (rows d). P r \<longrightarrow> fits (touch u (f r))))"
    by (rule ensures_update) blast
  from transaction_ok [OF this refl assms] that show ?thesis by blast
qed

lemma succeeds_update:
  assumes "faultless ses"
    and "\<And>t d r. I d \<Longrightarrow> r \<in> set (rows d) \<Longrightarrow> P r \<Longrightarrow> fits (touch t (f r))"
    and "\<And>t d. I d \<Longrightarrow> Q (changed_rows P (\<lambda>r. touch t (f r)) (rows d))
        (put (update_rows P (\<lambda>r. touch t (f r)) (rows d)) d)"
  shows "succeeds ses I (update_stmt rows put touch fits P f) Q"
  unfolding update_stmt_def
  by (rule succeeds_statement) (use assms in \<open>auto simp: Let_def list_all_iff\<close>)

lemma succeeds_select:
  assumes "faultless ses"
    and "\<And>d. I d \<Longrightarrow> Q (list_take n (ord (filter (\<lambda>r. P r \<and> \<not> locked ses r) (rows d)))) d"
  shows "succeeds ses I (select_stmt rows locked ord n P) Q"
  unfolding select_stmt_def by (rule succeeds_statement) (use assms in auto)

lemma succeeds_insert:
  assumes "faultless ses"
    and "\<And>t d. I d \<Longrightarrow> fits (create (seq d) t r)"
    and "\<And>t d x. I d \<Longrightarrow> x \<in> set (rows d) \<Longrightarrow> \<not> clash (create (seq d) t r) x"
    and "\<And>t d. I d \<Longrightarrow> Q (create (seq d) t r) (bump (put (rows d @ [create (seq d) t r]) d))"
  shows "succeeds ses I (insert_stmt rows put seq bump create fits clash r) Q"
  unfolding insert_stmt_def
  by (rule succeeds_statement) (use assms in \<open>auto simp: Let_def list_ex_iff\<close>)

lemma succeeds_insert_ignore:
  assumes "faultless ses"
    and "\<And>t d. I d \<Longrightarrow> fits (create (seq d) t r)"
    and "\<And>t d. I d \<Longrightarrow> (\<forall>x \<in> set (rows d). \<not> clash (create (seq d) t r) x) \<Longrightarrow>
      Q (Some (create (seq d) t r)) (bump (put (rows d @ [create (seq d) t r]) d))"
    and "\<And>t d x. I d \<Longrightarrow> x \<in> set (rows d) \<Longrightarrow> clash (create (seq d) t r) x \<Longrightarrow> Q None d"
  shows "succeeds ses I (insert_ignore_stmt rows put seq bump create fits clash r) Q"
  unfolding insert_ignore_stmt_def
proof (rule succeeds_statement [OF assms(1)])
  fix t d assume I: "I d"
  show "\<exists>a d'. (let r' = create (seq d) t r in
     if \<not> fits r' then (Inl data_too_long, d)
     else if list_ex (clash r') (rows d) then (Inr None, d)
     else (Inr (Some r'), bump (put (rows d @ [r']) d))) = (Inr a, d') \<and> Q a d'"
    using assms(2-4) [OF I] by (auto simp: Let_def list_ex_iff)
qed

end

section \<open>The three tables\<close>

definition put_timers :: "TimerDefinition list \<Rightarrow> db \<Rightarrow> db" where
  "put_timers rs d = d\<lparr>timers := rs\<rparr>"

definition put_executions :: "TimerExecution list \<Rightarrow> db \<Rightarrow> db" where
  "put_executions rs d = d\<lparr>executions := rs\<rparr>"

definition put_outbox :: "OutboxEvent list \<Rightarrow> db \<Rightarrow> db" where
  "put_outbox rs d = d\<lparr>outbox := rs\<rparr>"

definition bump_timers :: "db \<Rightarrow> db" where
  "bump_timers d = d\<lparr>timer_seq := timer_seq d + 1\<rparr>"

definition bump_executions :: "db \<Rightarrow> db" where
  "bump_executions d = d\<lparr>execution_seq := execution_seq d + 1\<rparr>"

definition bump_outbox :: "db \<Rightarrow> db" where
  "bump_outbox d = d\<lparr>outbox_seq := outbox_seq d + 1\<rparr>"

definition touch_timer :: "time \<Rightarrow> TimerDefinition \<Rightarrow> TimerDefinition" where
  "touch_timer t r = r\<lparr>td_UpdatedAt := t\<rparr>"

definition touch_execution :: "time \<Rightarrow> TimerExecution \<Rightarrow> TimerExecution" where
  "touch_execution t r = r\<lparr>te_UpdatedAt := t\<rparr>"

definition touch_outbox :: "time \<Rightarrow> OutboxEvent \<Rightarrow> OutboxEvent" where
  "touch_outbox t r = r\<lparr>oe_UpdatedAt := t\<rparr>"

definition create_timer_row :: "int \<Rightarrow> time \<Rightarrow> TimerDefinition \<Rightarrow> TimerDefinition" where
  "create_timer_row i t r = r\<lparr>td_ID := i, td_CreatedAt := t, td_UpdatedAt := t\<rparr>"

definition create_execution_row :: "int \<Rightarrow> time \<Rightarrow> TimerExecution \<Rightarrow> TimerExecution" where
  "create_execution_row i t r = r\<lparr>te_ID := i, te_CreatedAt := t, te_UpdatedAt := t\<rparr>"

definition create_outbox_row :: "int \<Rightarrow> time \<Rightarrow> OutboxEvent \<Rightarrow> OutboxEvent" where
  "create_outbox_row i t r = r\<lparr>oe_ID := i, oe_CreatedAt := t, oe_UpdatedAt := t\<rparr>"

lemmas table_defs =
  put_timers_def put_executions_def put_outbox_def bump_timers_def bump_executions_def
  bump_outbox_def touch_timer_def touch_execution_def touch_outbox_def create_timer_row_def
  create_execution_row_def create_outbox_row_def

interpretation tm: sql_table timers put_timers td_ID timer_seq bump_timers touch_timer
  create_timer_row timer_fits
  by unfold_locales (auto simp: table_defs)

interpretation ex: sql_table executions put_executions te_ID execution_seq bump_executions
  touch_execution create_execution_row execution_fits
  by unfold_locales (auto simp: table_defs)

interpretation ob: sql_table outbox put_outbox oe_ID outbox_seq bump_outbox touch_outbox
  create_outbox_row outbox_fits
  by unfold_locales (auto simp: table_defs)

abbreviation update_timers where
  "update_timers \<equiv> update_stmt timers put_timers touch_timer timer_fits"

abbreviation update_executions where
  "update_executions \<equiv> update_stmt executions put_executions touch_execution execution_fits"

abbreviation update_outbox where
  "update_outbox \<equiv> update_stmt outbox put_outbox touch_outbox outbox_fits"

abbreviation lock_timers where
  "lock_timers \<equiv> select_stmt timers (\<lambda>ses r. ses_timer_locked ses (td_ID r))"

abbreviation lock_executions where
  "lock_executions \<equiv> select_stmt executions (\<lambda>ses r. ses_execution_locked ses (te_ID r))"

abbreviation lock_outbox where
  "lock_outbox \<equiv> select_stmt outbox (\<lambda>ses r. ses_outbox_locked ses (oe_ID r))"

abbreviation insert_timer where
  "insert_timer \<equiv> insert_stmt timers put_timers timer_seq bump_timers create_timer_row
     timer_fits (\<lambda>_ _. False)"

text \<open>\<^verbatim>\<open>uk_execution_schedule\<close> and \<^verbatim>\<open>uk_outbox_event_id\<close>.\<close>

definition same_schedule :: "TimerExecution \<Rightarrow> TimerExecution \<Rightarrow> bool" where
  "same_schedule e e' \<longleftrightarrow> te_TimerID e = te_TimerID e' \<and> te_ScheduledAt e = te_ScheduledAt e'"

definition same_event :: "OutboxEvent \<Rightarrow> OutboxEvent \<Rightarrow> bool" where
  "same_event e e' \<longleftrightarrow> oe_EventID e = oe_EventID e'"

abbreviation insert_execution_ignore where
  "insert_execution_ignore \<equiv> insert_ignore_stmt executions put_executions execution_seq
     bump_executions create_execution_row execution_fits same_schedule"

abbreviation insert_outbox where
  "insert_outbox \<equiv> insert_stmt outbox put_outbox outbox_seq bump_outbox create_outbox_row
     outbox_fits same_event"

section \<open>Reading\<close>

text \<open>A read runs outside a transaction.\<close>

definition query :: "'a tx \<Rightarrow> 'a db_op" where
  "query m = (\<lambda>ses d. case m ses (0, d) of (r, _) \<Rightarrow> (r, d))"

text \<open>\<^verbatim>\<open>First\<close>: the row with the least key, \<^const>\<open>None\<close> for
  \<^verbatim>\<open>gorm.ErrRecordNotFound\<close>.\<close>

definition first_row :: "'r list \<Rightarrow> 'r option" where
  "first_row rs = (case rs of [] \<Rightarrow> None | r # _ \<Rightarrow> Some r)"

definition read_stmt :: "(db \<Rightarrow> 'a) \<Rightarrow> 'a tx" where
  "read_stmt f = statement (\<lambda>ses t d. (Inr (f d), d))"

lemma query_state [simp]: "snd (query m ses d) = d"
  by (simp add: query_def split: prod.splits)

lemma query_read:
  "query (read_stmt f) ses d = ((case ses_fault ses 0 of Some e \<Rightarrow> Inl e | None \<Rightarrow> Inr (f d)), d)"
  by (simp add: query_def read_stmt_def statement_def split: option.splits)

lemma query_read_Inr: "query (read_stmt f) ses d = (Inr a, d') \<Longrightarrow> a = f d \<and> d' = d"
  by (auto simp: query_read split: option.splits)

lemma first_row_filter:
  "first_row (filter P rs) = Some r \<Longrightarrow> r \<in> set rs \<and> P r"
  by (auto simp: first_row_def split: list.splits dest: filter_eq_ConsD)

lemma first_row_None: "first_row rs = None \<longleftrightarrow> rs = []"
  by (auto simp: first_row_def split: list.splits)

end
