(* ===== verification/Db_Invariant.thy ===== *)
theory Db_Invariant
  imports Sql_Statements
begin

text \<open>
  What every repository operation keeps true of the database: keys in order and below their
  counters, the unique keys of the schema, each row's status and its other columns in agreement,
  no dangling reference, and every event's business key telling where it came from.  One lemma per
  kind of statement says when it preserves the invariant; the repositories only instantiate them.
\<close>

section \<open>Rows\<close>

text \<open>A Timer has a next trigger time exactly while it is ACTIVE.\<close>

definition timer_row_ok :: "TimerDefinition \<Rightarrow> bool" where
  "timer_row_ok t \<longleftrightarrow>
     td_Status t \<in> {TimerStatusActive, TimerStatusInactive, TimerStatusDeleted} \<and>
     (td_Status t = TimerStatusActive \<longleftrightarrow> td_NextFireAt t \<noteq> None)"

text \<open>A lease (owner, deadline, token) exists exactly while the Execution is RUNNING.\<close>

definition execution_row_ok :: "TimerExecution \<Rightarrow> bool" where
  "execution_row_ok e \<longleftrightarrow>
     0 \<le> te_Attempt e \<and>
     te_Status e \<noteq> ExecutionStatusCancelled \<and>
     (if te_Status e = ExecutionStatusRunning
      then te_LeaseUntil e \<noteq> None \<and> te_RunToken e \<noteq> [] \<and> te_FinishedAt e = None
      else te_LeaseUntil e = None \<and> te_RunToken e = [] \<and> te_LeaseOwner e = []) \<and>
     (te_Status e = ExecutionStatusPending \<longleftrightarrow> te_Attempt e = 0) \<and>
     (te_Status e = ExecutionStatusRetryWait \<longrightarrow> te_NextAttemptAt e \<noteq> None) \<and>
     (terminal_status (te_Status e) \<longrightarrow> te_FinishedAt e \<noteq> None)"

text \<open>A claim on an event has an owner and a deadline; a published event is not claimed.\<close>

definition outbox_row_ok :: "OutboxEvent \<Rightarrow> bool" where
  "outbox_row_ok o' \<longleftrightarrow>
     0 \<le> oe_Attempts o' \<and>
     (oe_ClaimOwner o' = [] \<longleftrightarrow> oe_ClaimUntil o' = None) \<and>
     (oe_PublishedAt o' \<noteq> None \<longrightarrow> oe_ClaimUntil o' = None \<and> 1 \<le> oe_Attempts o')"

text \<open>The business key of an event of execution \<open>e\<close>.\<close>

definition event_of :: "TimerExecution \<Rightarrow> OutboxEvent \<Rightarrow> bool" where
  "event_of e o' \<longleftrightarrow>
     te_ID e = oe_AggregateID o' \<and>
     (oe_EventID o' = ready_event_id (te_ID e) \<or>
      (\<exists>a. oe_EventID o' = retry_event_id (te_ID e) a) \<or>
      (\<exists>t. oe_EventID o' = recovery_event_id (te_ID e) t))"

lemma event_of_same_id: "event_of e o' \<Longrightarrow> te_ID e' = te_ID e \<Longrightarrow> event_of e' o'"
  unfolding event_of_def by auto

section \<open>Tables\<close>

definition schedule_key :: "TimerExecution \<Rightarrow> int \<times> time" where
  "schedule_key e = (te_TimerID e, te_ScheduledAt e)"

definition timers_ok :: "db \<Rightarrow> bool" where
  "timers_ok d \<longleftrightarrow>
     table_ok td_ID (timer_seq d) (timers d) \<and> (\<forall>t \<in> set (timers d). timer_row_ok t)"

definition executions_ok :: "db \<Rightarrow> bool" where
  "executions_ok d \<longleftrightarrow>
     table_ok te_ID (execution_seq d) (executions d) \<and>
     distinct (map schedule_key (executions d)) \<and>
     (\<forall>e \<in> set (executions d). execution_row_ok e)"

definition outbox_ok :: "db \<Rightarrow> bool" where
  "outbox_ok d \<longleftrightarrow>
     table_ok oe_ID (outbox_seq d) (outbox d) \<and>
     distinct (map oe_EventID (outbox d)) \<and>
     (\<forall>o' \<in> set (outbox d). outbox_row_ok o')"

definition refs_ok :: "db \<Rightarrow> bool" where
  "refs_ok d \<longleftrightarrow>
     (\<forall>e \<in> set (executions d). \<exists>t \<in> set (timers d). td_ID t = te_TimerID e) \<and>
     (\<forall>o' \<in> set (outbox d). oe_AggregateType o' = OutboxAggregateTimerExecution \<and>
        (\<exists>e \<in> set (executions d). event_of e o'))"

definition db_ok :: "db \<Rightarrow> bool" where
  "db_ok d \<longleftrightarrow> timers_ok d \<and> executions_ok d \<and> outbox_ok d \<and> refs_ok d"

lemmas db_ok_defs = db_ok_def timers_ok_def executions_ok_def outbox_ok_def refs_ok_def

lemma db_ok_empty: "db_ok empty_db"
  by (simp add: db_ok_defs empty_db_def)

lemma db_okD:
  assumes "db_ok d"
  shows "table_ok td_ID (timer_seq d) (timers d)" "table_ok te_ID (execution_seq d) (executions d)"
    "table_ok oe_ID (outbox_seq d) (outbox d)"
    and "t \<in> set (timers d) \<Longrightarrow> timer_row_ok t" "e \<in> set (executions d) \<Longrightarrow> execution_row_ok e"
    "o' \<in> set (outbox d) \<Longrightarrow> outbox_row_ok o'"
  using assms by (auto simp: db_ok_defs)

lemma db_ok_distinct:
  assumes "db_ok d"
  shows "distinct (map td_ID (timers d))" "distinct (map te_ID (executions d))"
    "distinct (map oe_ID (outbox d))" "distinct (map oe_EventID (outbox d))"
    "distinct (map schedule_key (executions d))"
  using assms by (auto simp: db_ok_defs table_ok_distinct)

lemma timer_by_id:
  "db_ok d \<Longrightarrow> t \<in> set (timers d) \<Longrightarrow> t' \<in> set (timers d) \<Longrightarrow> td_ID t = td_ID t' \<Longrightarrow> t = t'"
  using db_ok_distinct(1) distinct_map_eq by metis

lemma execution_by_id:
  "db_ok d \<Longrightarrow> e \<in> set (executions d) \<Longrightarrow> e' \<in> set (executions d) \<Longrightarrow> te_ID e = te_ID e' \<Longrightarrow> e = e'"
  using db_ok_distinct(2) distinct_map_eq by metis

lemma execution_by_schedule:
  "db_ok d \<Longrightarrow> e \<in> set (executions d) \<Longrightarrow> e' \<in> set (executions d) \<Longrightarrow>
     schedule_key e = schedule_key e' \<Longrightarrow> e = e'"
  using db_ok_distinct(5) distinct_map_eq by metis

lemma event_by_id:
  "db_ok d \<Longrightarrow> e \<in> set (outbox d) \<Longrightarrow> e' \<in> set (outbox d) \<Longrightarrow> oe_EventID e = oe_EventID e' \<Longrightarrow> e = e'"
  using db_ok_distinct(4) distinct_map_eq by metis

lemma event_execution:
  assumes "db_ok d" "o' \<in> set (outbox d)"
  obtains e where "e \<in> set (executions d)" "event_of e o'"
  using assms by (auto simp: db_ok_defs)

section \<open>Statements that preserve the invariant\<close>

lemma refs_ok_cong:
  assumes "refs_ok d"
    and "\<And>t. t \<in> set (timers d) \<Longrightarrow> \<exists>t' \<in> set (timers d'). td_ID t' = td_ID t"
    and "\<And>e'. e' \<in> set (executions d') \<Longrightarrow> \<exists>e \<in> set (executions d). te_TimerID e = te_TimerID e'"
    and "\<And>e o'. e \<in> set (executions d) \<Longrightarrow> event_of e o' \<Longrightarrow> o' \<in> set (outbox d) \<Longrightarrow>
        \<exists>e' \<in> set (executions d'). event_of e' o'"
    and "outbox d' = outbox d"
  shows "refs_ok d'"
  unfolding refs_ok_def
proof (intro conjI ballI)
  fix e' assume "e' \<in> set (executions d')"
  with assms(3) obtain e where e: "e \<in> set (executions d)" "te_TimerID e = te_TimerID e'" by blast
  with assms(1) obtain t where t: "t \<in> set (timers d)" "td_ID t = te_TimerID e"
    unfolding refs_ok_def by blast
  with assms(2) [OF t(1)] e(2) show "\<exists>t \<in> set (timers d'). td_ID t = te_TimerID e'" by auto
next
  fix o' assume "o' \<in> set (outbox d')"
  then have o': "o' \<in> set (outbox d)" using assms(5) by simp
  with assms(1) show "oe_AggregateType o' = OutboxAggregateTimerExecution"
    unfolding refs_ok_def by blast
  from assms(1) o' obtain e where "e \<in> set (executions d)" "event_of e o'"
    unfolding refs_ok_def by blast
  with o' assms(4) show "\<exists>e \<in> set (executions d'). event_of e o'" by blast
qed

lemma update_rows_image:
  "r \<in> set rs \<Longrightarrow> (if P r then g r else r) \<in> set (update_rows P g rs)"
  by (auto simp: in_update_rows)

lemma db_ok_update_timers:
  assumes "db_ok d" and key: "\<And>r. td_ID (g r) = td_ID r"
    and "\<And>r. r \<in> set (timers d) \<Longrightarrow> P r \<Longrightarrow> timer_row_ok r \<Longrightarrow> timer_row_ok (g r)"
  shows "db_ok (put_timers (update_rows P g (timers d)) d)"
proof -
  let ?d = "put_timers (update_rows P g (timers d)) d"
  have "table_ok td_ID (timer_seq d) (update_rows P g (timers d))"
    using db_okD(1) [OF assms(1)] key by (rule table_ok_update)
  moreover have "\<forall>r \<in> set (update_rows P g (timers d)). timer_row_ok r"
    using db_okD(4) [OF assms(1)] assms(3) by (intro ball_update_rows) blast+
  moreover have "refs_ok ?d"
  proof (rule refs_ok_cong)
    show "refs_ok d" using assms(1) by (simp add: db_ok_def)
    fix t assume "t \<in> set (timers d)"
    from update_rows_image [OF this, of P g] key
    show "\<exists>t' \<in> set (timers ?d). td_ID t' = td_ID t"
      unfolding put_timers_def by (auto split: if_splits)
  qed (auto simp: put_timers_def)
  ultimately show ?thesis
    using assms(1) by (simp add: db_ok_def timers_ok_def executions_ok_def outbox_ok_def put_timers_def)
qed

lemma db_ok_update_executions:
  assumes "db_ok d" "\<And>r. te_ID (g r) = te_ID r" "\<And>r. te_TimerID (g r) = te_TimerID r"
    "\<And>r. te_ScheduledAt (g r) = te_ScheduledAt r"
    and row: "\<And>r. r \<in> set (executions d) \<Longrightarrow> P r \<Longrightarrow> execution_row_ok r \<Longrightarrow> execution_row_ok (g r)"
  shows "db_ok (put_executions (update_rows P g (executions d)) d)"
proof -
  let ?d = "put_executions (update_rows P g (executions d)) d"
  have "table_ok te_ID (execution_seq d) (update_rows P g (executions d))"
    using db_okD(2) [OF assms(1)] assms(2) by (rule table_ok_update)
  moreover have "map schedule_key (update_rows P g (executions d)) = map schedule_key (executions d)"
    using assms(3,4) by (intro map_update_rows_same) (simp add: schedule_key_def)
  moreover have "\<forall>r \<in> set (update_rows P g (executions d)). execution_row_ok r"
    using db_okD(5) [OF assms(1)] row by (intro ball_update_rows) blast+
  moreover have "refs_ok ?d"
  proof (rule refs_ok_cong)
    show "refs_ok d" using assms(1) by (simp add: db_ok_def)
    fix e' assume "e' \<in> set (executions ?d)"
    with assms(3) show "\<exists>e \<in> set (executions d). te_TimerID e = te_TimerID e'"
      by (auto simp: put_executions_def in_update_rows)
  next
    fix e o' assume e: "e \<in> set (executions d)" "event_of e o'"
    let ?e = "if P e then g e else e"
    have "event_of ?e o'"
      using e(2) event_of_same_id [OF e(2) assms(2)] by simp
    with update_rows_image [OF e(1), of P g] show "\<exists>e' \<in> set (executions ?d). event_of e' o'"
      unfolding ex.rows_put by blast
  qed (auto simp: put_executions_def)
  ultimately show ?thesis
    using assms(1) db_ok_distinct(5) [OF assms(1)]
    by (simp add: db_ok_def timers_ok_def executions_ok_def outbox_ok_def put_executions_def)
qed

lemma db_ok_update_outbox:
  assumes "db_ok d" "\<And>r. oe_ID (g r) = oe_ID r" "\<And>r. oe_EventID (g r) = oe_EventID r"
    "\<And>r. oe_AggregateID (g r) = oe_AggregateID r" "\<And>r. oe_AggregateType (g r) = oe_AggregateType r"
    and "\<And>r. r \<in> set (outbox d) \<Longrightarrow> P r \<Longrightarrow> outbox_row_ok r \<Longrightarrow> outbox_row_ok (g r)"
  shows "db_ok (put_outbox (update_rows P g (outbox d)) d)"
proof -
  let ?rs = "update_rows P g (outbox d)"
  have "table_ok oe_ID (outbox_seq d) ?rs"
    using db_okD(3) [OF assms(1)] assms(2) by (rule table_ok_update)
  moreover have "map oe_EventID ?rs = map oe_EventID (outbox d)"
    using assms(3) by (rule map_update_rows_same)
  moreover have "\<forall>r \<in> set ?rs. outbox_row_ok r"
    using db_okD(6) [OF assms(1)] assms(6) by (intro ball_update_rows) blast+
  moreover have "event_of e (g r) \<longleftrightarrow> event_of e r" for e r
    using assms(3,4) by (simp add: event_of_def)
  then have "\<forall>r \<in> set ?rs. oe_AggregateType r = OutboxAggregateTimerExecution \<and>
      (\<exists>e \<in> set (executions d). event_of e r)"
    using assms(1,5) by (intro ball_update_rows) (simp_all add: db_ok_def refs_ok_def)
  ultimately show ?thesis
    using assms(1) db_ok_distinct(4) [OF assms(1)]
    by (simp add: db_ok_def timers_ok_def executions_ok_def outbox_ok_def refs_ok_def put_outbox_def)
qed

lemma db_ok_insert_timer:
  assumes "db_ok d" "timer_row_ok (create_timer_row (timer_seq d) t r)"
  shows "db_ok (bump_timers (put_timers (timers d @ [create_timer_row (timer_seq d) t r]) d))"
  using assms tm.ok_insert [of d t r] unfolding db_ok_defs
  by (auto simp: put_timers_def bump_timers_def)

lemma db_ok_insert_execution:
  assumes "db_ok d" "execution_row_ok r'" "r' = create_execution_row (execution_seq d) t r"
    "\<forall>x \<in> set (executions d). \<not> same_schedule r' x"
    "\<exists>tm \<in> set (timers d). td_ID tm = te_TimerID r'"
  shows "db_ok (bump_executions (put_executions (executions d @ [r']) d))"
proof -
  have "schedule_key r' \<notin> schedule_key ` set (executions d)"
    using assms(4) by (auto simp: schedule_key_def same_schedule_def)
  with assms ex.ok_insert [of d t r] show ?thesis
    unfolding db_ok_defs by (auto simp: put_executions_def bump_executions_def)
qed

lemma db_ok_insert_outbox:
  assumes "db_ok d" "outbox_row_ok r'" "r' = create_outbox_row (outbox_seq d) t r"
    "\<forall>x \<in> set (outbox d). \<not> same_event r' x"
    "oe_AggregateType r' = OutboxAggregateTimerExecution"
    "\<exists>e \<in> set (executions d). event_of e r'"
  shows "db_ok (bump_outbox (put_outbox (outbox d @ [r']) d))"
proof -
  have "oe_EventID r' \<notin> oe_EventID ` set (outbox d)"
    using assms(4) by (auto simp: same_event_def)
  with assms ob.ok_insert [of d t r] show ?thesis
    unfolding db_ok_defs by (auto simp: put_outbox_def bump_outbox_def)
qed

lemma db_ok_delete_outbox:
  assumes "db_ok d"
  shows "db_ok (put_outbox (delete_rows n P (outbox d)) d)"
  using assms set_delete_rows [of n P "outbox d"] unfolding db_ok_defs
  by (auto simp: put_outbox_def table_ok_delete distinct_delete_rows)

lemma db_ok_delete_executions:
  assumes "db_ok d"
    and unref: "\<And>e o'. e \<in> set (executions d) \<Longrightarrow> P e \<Longrightarrow> o' \<in> set (outbox d) \<Longrightarrow> oe_AggregateID o' \<noteq> te_ID e"
  shows "db_ok (put_executions (delete_rows n P (executions d)) d)"
proof -
  let ?E = "delete_rows n P (executions d)"
  have "\<exists>e \<in> set ?E. event_of e o'" if o': "o' \<in> set (outbox d)" for o'
  proof -
    obtain e where e: "e \<in> set (executions d)" "event_of e o'"
      using event_execution [OF assms(1) o'] .
    then have "te_ID e = oe_AggregateID o'" by (simp add: event_of_def)
    with unref [OF e(1) _ o'] have "\<not> P e" by auto
    with e show ?thesis using delete_rows_keeps by metis
  qed
  with assms(1) set_delete_rows [of n P "executions d"] show ?thesis
    unfolding db_ok_defs put_executions_def
    by (auto simp: table_ok_delete distinct_delete_rows)
qed

end
