(* ===== verification/World.thy ===== *)
theory World
  imports Db_Invariant
begin

text \<open>
  The state a service runs against: the database, shared with other processes.  Between two
  repository calls of one service the others may have committed anything that keeps the database
  consistent (\<open>w_interfere\<close>); call number \<open>n\<close> runs with the session \<open>w_sessions n\<close>.
\<close>

section \<open>Services in a state\<close>

text \<open>Rules that follow an invariant \<open>I\<close> through the calls of a service; a client
  instantiates \<open>I\<close> before it applies them.\<close>

named_theorems keeps "rules that follow an invariant through the steps of a service"

lemma keeps_call [keeps]:
  assumes "I (snd m)" "\<And>e s. m = (Inl e, s) \<Longrightarrow> I s \<Longrightarrow> I (snd (f e s))"
    and "\<And>a s. m = (Inr a, s) \<Longrightarrow> I s \<Longrightarrow> I (snd (g a s))"
  shows "I (snd (case m of (r, s) \<Rightarrow> (case r of Inl e \<Rightarrow> f e s | Inr a \<Rightarrow> g a s)))"
  using assms by (cases m; cases "fst m") auto

lemma keeps_pair:
  assumes "I (snd m)" "\<And>r s. m = (r, s) \<Longrightarrow> I s \<Longrightarrow> I (snd (f r s))"
  shows "I (snd (case m of (r, s) \<Rightarrow> f r s))"
  using assms by (cases m) auto

lemma keeps_tuple:
  assumes "\<And>x y. p = (x, y) \<Longrightarrow> I (snd (f x y))"
  shows "I (snd (case p of (x, y) \<Rightarrow> f x y))"
  using assms by (cases p) auto

lemma keeps_result [keeps]:
  assumes "\<And>e. r = Inl e \<Longrightarrow> I (snd (f e))" "\<And>a. r = Inr a \<Longrightarrow> I (snd (g a))"
  shows "I (snd (case r of Inl e \<Rightarrow> f e | Inr a \<Rightarrow> g a))"
  using assms by (cases r) auto

lemma keeps_option [keeps]:
  assumes "r = None \<Longrightarrow> I (snd f)" "\<And>a. r = Some a \<Longrightarrow> I (snd (g a))"
  shows "I (snd (case r of None \<Rightarrow> f | Some a \<Rightarrow> g a))"
  using assms by (cases r) auto

lemma keeps_if [keeps]:
  assumes "b \<Longrightarrow> I (snd f)" "\<not> b \<Longrightarrow> I (snd g)"
  shows "I (snd (if b then f else g))"
  using assms by simp

lemma keeps_done [keeps]: "I s \<Longrightarrow> I (snd (a, s))"
  by simp

section \<open>The shared database\<close>

record world =
  w_sessions :: "nat \<Rightarrow> session"
  w_interfere :: "nat \<Rightarrow> db \<Rightarrow> db"
  w_calls :: nat
  w_db :: db

definition call :: "'a db_op \<Rightarrow> world \<Rightarrow> 'a result \<times> world" where
  "call m w =
     (case m (w_sessions w (w_calls w)) (w_interfere w (w_calls w) (w_db w)) of
        (r, d) \<Rightarrow> (r, w\<lparr>w_calls := w_calls w + 1, w_db := d\<rparr>))"

definition world_ok :: "world \<Rightarrow> bool" where
  "world_ok w \<longleftrightarrow> (\<forall>n d. db_ok d \<longrightarrow> db_ok (w_interfere w n d)) \<and> db_ok (w_db w)"

text \<open>A world in which this service is alone and nothing fails.\<close>

definition lone_world :: "time \<Rightarrow> db \<Rightarrow> world" where
  "lone_world t d = \<lparr>w_sessions = (\<lambda>_. quiet_session t), w_interfere = (\<lambda>_ d. d),
     w_calls = 0, w_db = d\<rparr>"

lemma world_ok_lone [simp]: "world_ok (lone_world t d) \<longleftrightarrow> db_ok d"
  by (simp add: world_ok_def lone_world_def)

text \<open>A call runs its operation in some consistent database.\<close>

lemma callE:
  assumes "call m w = (r, w')" "world_ok w"
  obtains ses d where "db_ok d" "m ses d = (r, w_db w')" "w_interfere w' = w_interfere w"
proof -
  let ?ses = "w_sessions w (w_calls w)" and ?d = "w_interfere w (w_calls w) (w_db w)"
  have "db_ok ?d" using assms(2) by (simp add: world_ok_def)
  moreover obtain d' where d': "m ?ses ?d = (r, d')" "w' = w\<lparr>w_calls := w_calls w + 1, w_db := d'\<rparr>"
    using assms(1) by (auto simp: call_def split: prod.splits)
  ultimately show ?thesis using that [of ?d ?ses] by simp
qed

text \<open>A call of an operation that preserves the database invariant preserves that of the world.\<close>

lemma call_ok:
  assumes "call m w = (r, w')" "world_ok w"
    and "\<And>ses d r d'. db_ok d \<Longrightarrow> m ses d = (r, d') \<Longrightarrow> db_ok d'"
  shows "world_ok w'"
  using assms(1,2)
proof (rule callE)
  fix ses d assume "db_ok d" "m ses d = (r, w_db w')" "w_interfere w' = w_interfere w"
  with assms(3) [of d ses r "w_db w'"] assms(2) show ?thesis by (simp add: world_ok_def)
qed

lemma snd_call_preserves:
  assumes "world_ok w" "\<And>ses d. db_ok d \<Longrightarrow> db_ok (snd (m ses d))"
  shows "world_ok (snd (call m w))"
proof -
  obtain r w' where c: "call m w = (r, w')" by force
  from call_ok [OF c assms(1)] assms(2) have "world_ok w'" by (metis snd_conv)
  with c show ?thesis by simp
qed

lemma call_query_ok: "call (query m) w = (r, w') \<Longrightarrow> world_ok w \<Longrightarrow> world_ok w'"
  by (erule call_ok) (auto simp: query_def split: prod.splits)

end
