(* ===== verification/Timer_Repo.thy ===== *)
theory Timer_Repo
  imports World "HOL-Library.Sublist"
begin

text \<open>
  \<^verbatim>\<open>internal/repository/timer_definition_repo.go\<close>: creation, lookup, logical deletion, the
  conditional state change, and the paged list with its per-status counts.  Each operation is a
  \<open>db_op\<close>: it takes the session and the database and returns a result and the new database.
  The list is two queries outside any transaction, so others may commit between them; it is defined
  on the shared \<^typ>\<open>world\<close>.
\<close>

section \<open>Create, lookup, deletion, state change\<close>

text \<open>A field with a \<^verbatim>\<open>default:\<close> tag and its zero value is left to the column default.\<close>

definition timer_defaults :: "TimerDefinition \<Rightarrow> TimerDefinition" where
  "timer_defaults t = t\<lparr>
     td_CallbackMethod := (if td_CallbackMethod t = [] then ''POST'' else td_CallbackMethod t),
     td_Status := (if td_Status t = TimerStatusOther [] then TimerStatusInactive else td_Status t),
     td_MisfirePolicy := (if td_MisfirePolicy t = MisfirePolicyOther [] then MisfirePolicyFireOnce
       else td_MisfirePolicy t),
     td_MaxCatchUp := (if td_MaxCatchUp t = 0 then 10 else td_MaxCatchUp t),
     td_Version := (if td_Version t = 0 then 1 else td_Version t)\<rparr>"

definition timerRepo_Create :: "TimerDefinition \<Rightarrow> TimerDefinition db_op" where
  "timerRepo_Create t =
     op_wrap ''create timer definition'' (transaction (insert_timer (timer_defaults t)))"

definition visible_timer :: "int \<Rightarrow> TimerDefinition \<Rightarrow> bool" where
  "visible_timer i t \<longleftrightarrow> td_ID t = i \<and> td_Status t \<noteq> TimerStatusDeleted"

definition timerRepo_GetByID :: "int \<Rightarrow> TimerDefinition option db_op" where
  "timerRepo_GetByID i =
     op_wrap ''get timer definition''
       (query (read_stmt (\<lambda>d. first_row (filter (visible_timer i) (timers d)))))"

definition delete_timer_row :: "TimerDefinition \<Rightarrow> TimerDefinition" where
  "delete_timer_row t =
     t\<lparr>td_Status := TimerStatusDeleted, td_NextFireAt := None, td_Version := td_Version t + 1\<rparr>"

definition timerRepo_Delete :: "int \<Rightarrow> unit db_op" where
  "timerRepo_Delete i = (\<lambda>ses d.
     case op_wrap ''delete timer definition''
            (transaction (update_timers (visible_timer i) delete_timer_row)) ses d of
       (Inl e, d') \<Rightarrow> (Inl e, d')
     | (Inr n, d') \<Rightarrow>
         (if n = 0 then Inl (''timer definition does not exist or is deleted, id='' @ show_int i)
          else Inr (), d'))"

definition timer_in_state :: "int \<Rightarrow> TimerStatus \<Rightarrow> TimerDefinition \<Rightarrow> bool" where
  "timer_in_state i st t \<longleftrightarrow> td_ID t = i \<and> td_Status t = st"

definition set_schedule_state :: "TimerStatus \<Rightarrow> time option \<Rightarrow> TimerDefinition \<Rightarrow> TimerDefinition" where
  "set_schedule_state to next t =
     t\<lparr>td_Status := to, td_NextFireAt := next, td_Version := td_Version t + 1\<rparr>"

definition timerRepo_UpdateScheduleState ::
  "int \<Rightarrow> TimerStatus \<Rightarrow> TimerStatus \<Rightarrow> time option \<Rightarrow> unit db_op" where
  "timerRepo_UpdateScheduleState i from to next = (\<lambda>ses d.
     case op_wrap ''update timer schedule state''
            (transaction (update_timers (timer_in_state i from) (set_schedule_state to next))) ses d of
       (Inl e, d') \<Rightarrow> (Inl e, d')
     | (Inr n, d') \<Rightarrow>
         (if n = 0 then Inl (''timer state changed or timer does not exist, id='' @ show_int i @
            '', expected='' @ timer_status_text from)
          else Inr (), d'))"

section \<open>The list\<close>

text \<open>SQL's \<^verbatim>\<open>LIKE\<close> with \<^verbatim>\<open>%\<close>, \<^verbatim>\<open>_\<close> and the escape \<^verbatim>\<open>\\<close>.\<close>

function like :: "string \<Rightarrow> string \<Rightarrow> bool" where
  "like [] t = (t = [])"
| "like (p # ps) t =
     (if p = CHR ''%'' then
        like ps t \<or> (case t of [] \<Rightarrow> False | c # cs \<Rightarrow> like (p # ps) cs)
      else (case t of
              [] \<Rightarrow> False
            | c # cs \<Rightarrow>
                if p = CHR 0x5C then
                  (case ps of [] \<Rightarrow> c = p \<and> cs = [] | q # qs \<Rightarrow> c = q \<and> like qs cs)
                else (p = CHR ''_'' \<or> p = c) \<and> like ps cs))"
  by pat_completeness auto
termination
  by (relation "measure (\<lambda>(p, t). length p + length t)") auto

record TimerDefinitionListRequest =
  lr_Page :: int
  lr_PageSize :: int
  lr_App :: string
  lr_Status :: TimerStatus
  lr_Keyword :: string

definition keyword_pattern :: "string \<Rightarrow> string" where
  "keyword_pattern kw = ''%'' @ kw @ ''%''"

definition timer_list_filter :: "TimerDefinitionListRequest \<Rightarrow> TimerDefinition \<Rightarrow> bool" where
  "timer_list_filter req t \<longleftrightarrow>
     td_Status t \<noteq> TimerStatusDeleted \<and>
     (lr_App req \<noteq> [] \<longrightarrow> td_App t = lr_App req) \<and>
     (lr_Status req \<noteq> TimerStatusOther [] \<longrightarrow> td_Status t = lr_Status req) \<and>
     (lr_Keyword req \<noteq> [] \<longrightarrow>
        like (keyword_pattern (lr_Keyword req)) (td_Name t) \<or>
        like (keyword_pattern (lr_Keyword req)) (td_CallbackURL t))"

text \<open>\<^verbatim>\<open>OFFSET\<close> and \<^verbatim>\<open>LIMIT\<close>; gorm writes no offset unless it is positive.\<close>

definition sql_page :: "int \<Rightarrow> int \<Rightarrow> 'r list \<Rightarrow> 'r list" where
  "sql_page offset limit rs = list_take limit (if 0 < offset then drop (nat offset) rs else rs)"

definition page_offset :: "int \<Rightarrow> int \<Rightarrow> int" where
  "page_offset page page_size = wrap64 (wrap64 (page - 1) * page_size)"

text \<open>Newest first; rows of the same instant stay in key order.\<close>

definition newest_first :: "TimerDefinition list \<Rightarrow> TimerDefinition list" where
  "newest_first ts = sort_key (\<lambda>t. - td_CreatedAt t) ts"

definition list_count :: "TimerDefinitionListRequest \<Rightarrow> int db_op" where
  "list_count req =
     op_wrap ''count timer definitions''
       (query (read_stmt (\<lambda>d. int (length (filter (timer_list_filter req) (timers d))))))"

definition list_find :: "TimerDefinitionListRequest \<Rightarrow> TimerDefinition list db_op" where
  "list_find req =
     op_wrap ''list timer definitions''
       (query (read_stmt (\<lambda>d. sql_page (page_offset (lr_Page req) (lr_PageSize req)) (lr_PageSize req)
          (newest_first (filter (timer_list_filter req) (timers d))))))"

definition timerRepo_List ::
  "TimerDefinitionListRequest \<Rightarrow> world \<Rightarrow> (TimerDefinition list \<times> int) result \<times> world" where
  "timerRepo_List req w =
     (case call (list_count req) w of
        (Inl e, w') \<Rightarrow> (Inl e, w')
      | (Inr total_rows, w') \<Rightarrow>
          (case call (list_find req) w' of
             (Inl e, w'') \<Rightarrow> (Inl e, w'')
           | (Inr items, w'') \<Rightarrow> (Inr (items, total_rows), w'')))"

text \<open>\<^verbatim>\<open>GROUP BY status\<close> into a Go map: a status with no row has no entry, and reading
  it gives 0.\<close>

definition group_counts :: "('r \<Rightarrow> 'k) \<Rightarrow> 'r list \<Rightarrow> 'k \<Rightarrow> int option" where
  "group_counts f rs = (\<lambda>k. let n = length (filter (\<lambda>r. f r = k) rs)
     in if n = 0 then None else Some (int n))"

definition count_of :: "('k \<Rightarrow> int option) \<Rightarrow> 'k \<Rightarrow> int" where
  "count_of m k = (case m k of None \<Rightarrow> 0 | Some n \<Rightarrow> n)"

definition timerRepo_CountListByStatus ::
  "TimerDefinitionListRequest \<Rightarrow> (TimerStatus \<Rightarrow> int option) db_op" where
  "timerRepo_CountListByStatus req =
     op_wrap ''count timer list statuses''
       (query (read_stmt (\<lambda>d. group_counts td_Status (filter (timer_list_filter req) (timers d)))))"

definition timerRepo_CountByStatus :: "(TimerStatus \<Rightarrow> int option) db_op" where
  "timerRepo_CountByStatus =
     op_wrap ''count timer statuses'' (query (read_stmt (\<lambda>d. group_counts td_Status (timers d))))"

section \<open>Facts about the operations\<close>

lemma count_of_group [simp]:
  "count_of (group_counts f rs) k = int (length (filter (\<lambda>r. f r = k) rs))"
  by (simp add: count_of_def group_counts_def Let_def)

text \<open>A keyword without wildcards matches exactly the texts that contain it.\<close>

definition plain_char :: "char \<Rightarrow> bool" where
  "plain_char c \<longleftrightarrow> c \<noteq> CHR ''%'' \<and> c \<noteq> CHR ''_'' \<and> c \<noteq> CHR 0x5C"

lemma like_percent: "like (CHR ''%'' # ps) t \<longleftrightarrow> (\<exists>xs ys. t = xs @ ys \<and> like ps ys)"
proof (induction t)
  case (Cons c cs)
  have "like (CHR ''%'' # ps) (c # cs) \<longleftrightarrow> like ps (c # cs) \<or> like (CHR ''%'' # ps) cs"
    by simp
  also have "\<dots> \<longleftrightarrow> (\<exists>xs ys. c # cs = xs @ ys \<and> like ps ys)"
    unfolding Cons.IH by (metis Cons_eq_append_conv append_Cons)
  finally show ?case .
qed simp

lemma like_plain:
  "\<forall>c \<in> set kw. plain_char c \<Longrightarrow> like (kw @ ps) t \<longleftrightarrow> (\<exists>ys. t = kw @ ys \<and> like ps ys)"
proof (induction kw arbitrary: t)
  case (Cons k kw)
  then show ?case by (cases t) (auto simp: plain_char_def)
qed simp

lemma like_keyword:
  assumes "\<forall>c \<in> set kw. plain_char c"
  shows "like (keyword_pattern kw) t \<longleftrightarrow> sublist kw t"
proof -
  have "like (CHR ''%'' # []) t" for t
    by (simp add: like_percent del: like.simps(2))
  with assms show ?thesis
    by (auto simp: keyword_pattern_def like_percent like_plain sublist_def simp del: like.simps)
qed

lemma timerRepo_Create_ok:
  assumes "db_ok d" "timer_row_ok (timer_defaults t)" "timerRepo_Create t ses d = (r, d')"
  shows "db_ok d'"
proof -
  have "ensures ses db_ok (insert_timer (timer_defaults t)) (\<lambda>_. db_ok)"
  proof (rule tm.ensures_insert)
    fix u d assume "db_ok d"
    moreover have "timer_row_ok (create_timer_row (timer_seq d) u (timer_defaults t))"
      using assms(2) unfolding timer_row_ok_def create_timer_row_def by auto
    ultimately show "db_ok (bump_timers (put_timers
        (timers d @ [create_timer_row (timer_seq d) u (timer_defaults t)]) d))"
      by (rule db_ok_insert_timer)
  qed
  from snd_transaction_preserves [OF this assms(1)] assms(3) show ?thesis
    by (metis op_wrap_state snd_conv timerRepo_Create_def)
qed

lemma ensures_update_timers_ok:
  assumes "\<And>r. td_ID (f r) = td_ID r" "\<And>r. P r \<Longrightarrow> timer_row_ok r \<Longrightarrow> timer_row_ok (f r)"
  shows "ensures ses db_ok (update_timers P f) (\<lambda>_. db_ok)"
proof (rule tm.ensures_update)
  fix u d assume "db_ok d"
  then show "db_ok (put_timers (update_rows P (\<lambda>r. touch_timer u (f r)) (timers d)) d)"
    by (rule db_ok_update_timers) (use assms in \<open>auto simp: touch_timer_def timer_row_ok_def\<close>)
qed

lemma timerRepo_Delete_ok:
  assumes "db_ok d" "timerRepo_Delete i ses d = (r, d')"
  shows "db_ok d'"
proof -
  have "ensures ses db_ok (update_timers (visible_timer i) delete_timer_row) (\<lambda>_. db_ok)"
    by (rule ensures_update_timers_ok) (auto simp: delete_timer_row_def timer_row_ok_def)
  from snd_transaction_preserves [OF this assms(1)] assms(2) show ?thesis
    by (auto simp: timerRepo_Delete_def op_wrap_def split: prod.splits sum.splits)
qed

lemma timerRepo_UpdateScheduleState_ok:
  assumes "db_ok d" "timerRepo_UpdateScheduleState i from to next ses d = (r, d')"
    and "to = TimerStatusActive \<and> next \<noteq> None \<or>
         to \<in> {TimerStatusInactive, TimerStatusDeleted} \<and> next = None"
  shows "db_ok d'"
proof -
  have "ensures ses db_ok (update_timers (timer_in_state i from) (set_schedule_state to next)) (\<lambda>_. db_ok)"
    by (rule ensures_update_timers_ok)
       (use assms(3) in \<open>auto simp: set_schedule_state_def timer_row_ok_def\<close>)
  from snd_transaction_preserves [OF this assms(1)] assms(2) show ?thesis
    by (auto simp: timerRepo_UpdateScheduleState_def op_wrap_def split: prod.splits sum.splits)
qed

text \<open>The effect of a conditional update by key: it reports success exactly when a row
  satisfied its condition, and then changed that row and no other.\<close>

lemma update_timers_effect:
  assumes "transaction (update_timers P f) ses d = (Inr n, d')" "db_ok d"
    and "\<And>r. P r \<Longrightarrow> td_ID r = i" "\<And>u r. touch_timer u (f r) \<noteq> r"
  obtains u where "d' = put_timers (update_rows P (\<lambda>r. touch_timer u (f r)) (timers d)) d"
    and "n = 0 \<longleftrightarrow> (\<forall>r \<in> set (timers d). \<not> P r)"
  using tm.update_effect [OF assms(1)] assms(4) that by (metis changed_rows_zero)

end
