(* ===== verification/Cron_Parser.thy ===== *)
theory Cron_Parser
  imports Go_Prelude
begin

text \<open>
  \<^verbatim>\<open>internal/pkg/cron/parser.go\<close>: the wrapper of \<^verbatim>\<open>robfig/cron\<close>.  The library is a
  parameter: \<open>cl_Parse\<close> is \<^verbatim>\<open>Parser.Parse\<close>, \<open>cl_Next\<close> is
  \<^verbatim>\<open>Schedule.Next\<close>, documented to return "the next activation time, later than the given
  time", or the zero time when there is none within five years; \<open>cron_lib_ok\<close> states that
  documentation.
\<close>

record 'c cron_lib =
  cl_Parse :: "string \<Rightarrow> 'c result"
  cl_Next :: "'c \<Rightarrow> time \<Rightarrow> time"

definition cron_lib_ok :: "'c cron_lib \<Rightarrow> bool" where
  "cron_lib_ok lib \<longleftrightarrow>
     (\<forall>expr c t. cl_Parse lib expr = Inr c \<longrightarrow>
        cl_Next lib c t = zero_time \<or> t < cl_Next lib c t)"

definition CronParser_Parse :: "'c cron_lib \<Rightarrow> string \<Rightarrow> 'c result" where
  "CronParser_Parse lib expr =
     (case cl_Parse lib expr of
        Inl e \<Rightarrow> Inl (wrap_err (''parse cron expression ['' @ expr @ '']'') e)
      | Inr schedule \<Rightarrow> Inr schedule)"

definition NextTriggerTime :: "'c cron_lib \<Rightarrow> string \<Rightarrow> time \<Rightarrow> time result" where
  "NextTriggerTime lib expr from =
     (case CronParser_Parse lib expr of
        Inl e \<Rightarrow> Inl e
      | Inr schedule \<Rightarrow>
          (let next = cl_Next lib schedule from in
           if IsZero next
           then Inl (''cron expression has no next trigger time within the supported range ['' @ expr @ '']'')
           else Inr next))"

definition ValidateCronExpr :: "'c cron_lib \<Rightarrow> string \<Rightarrow> unit result" where
  "ValidateCronExpr lib expr =
     (case CronParser_Parse lib expr of Inl e \<Rightarrow> Inl e | Inr _ \<Rightarrow> Inr ())"

lemma NextTriggerTime_later:
  "cron_lib_ok lib \<Longrightarrow> NextTriggerTime lib expr t = Inr next \<Longrightarrow> t < next"
  unfolding cron_lib_ok_def NextTriggerTime_def CronParser_Parse_def IsZero_def
  by (fastforce simp: Let_def split: sum.splits if_splits)

lemma NextTriggerTime_not_zero:
  "NextTriggerTime lib expr t = Inr next \<Longrightarrow> \<not> IsZero next"
  by (auto simp: NextTriggerTime_def Let_def split: sum.splits if_splits)

lemma NextTriggerTime_valid:
  "NextTriggerTime lib expr t = Inr next \<Longrightarrow> ValidateCronExpr lib expr = Inr ()"
  by (auto simp: NextTriggerTime_def ValidateCronExpr_def split: sum.splits)

text \<open>A library with one schedule, every \<open>p\<close> nanoseconds, for every expression that is
  not empty.\<close>

definition periodic_cron :: "int \<Rightarrow> unit cron_lib" where
  "periodic_cron p = \<lparr>cl_Parse = (\<lambda>s. if s = [] then Inl ''empty spec string'' else Inr ()),
     cl_Next = (\<lambda>_ t. (t div p + 1) * p)\<rparr>"

lemma periodic_cron_ok:
  assumes "0 < p"
  shows "cron_lib_ok (periodic_cron p)"
proof -
  have "t < (t div p + 1) * p" for t
  proof -
    have "t = t div p * p + t mod p" by simp
    also have "\<dots> < t div p * p + p" using pos_mod_bound [OF assms, of t] by linarith
    finally show ?thesis by (simp add: distrib_right)
  qed
  then show ?thesis by (simp add: cron_lib_ok_def periodic_cron_def)
qed

end
