(* ===== verification/Callback.thy ===== *)
theory Callback
  imports Domain_Model
begin

text \<open>
  \<^verbatim>\<open>internal/pkg/callback/client.go\<close>: the checks on a callback's URL and on the addresses
  its host resolves to, the request built from a snapshot, and the reading of the response.
  The network is a parameter: URL and address text parsing, name resolution and the construction of a
  request (\<open>net_lib\<close>), and what a server answers on a connection (\<open>network\<close>).  A connection that
  \<^verbatim>\<open>net/http\<close> reuses was dialled for an earlier request to the same host and port.  The classification of addresses is that of
  Go's \<^verbatim>\<open>net.IP\<close>, over its 4 or 16 bytes.
\<close>

section \<open>Addresses\<close>

type_synonym ip = "8 word list"

definition v4_in_v6_prefix :: ip where
  "v4_in_v6_prefix = replicate 10 0 @ [0xff, 0xff]"

text \<open>\<^verbatim>\<open>IP.To4\<close>\<close>

definition To4 :: "ip \<Rightarrow> ip option" where
  "To4 a =
     (if length a = 4 then Some a
      else if length a = 16 \<and> take 12 a = v4_in_v6_prefix then Some (drop 12 a)
      else None)"

text \<open>\<^verbatim>\<open>IP.Equal\<close> takes an IPv4 address and its IPv6 form for the same.\<close>

definition ip_equal :: "ip \<Rightarrow> ip \<Rightarrow> bool" where
  "ip_equal a b =
     (if length a = length b then a = b
      else if length a = 4 \<and> length b = 16 then take 12 b = v4_in_v6_prefix \<and> a = drop 12 b
      else if length a = 16 \<and> length b = 4 then take 12 a = v4_in_v6_prefix \<and> drop 12 a = b
      else False)"

unbundle bit_operations_syntax

definition IsLoopback :: "ip \<Rightarrow> bool" where
  "IsLoopback a =
     (case To4 a of Some b \<Rightarrow> b ! 0 = 127 | None \<Rightarrow> ip_equal a (replicate 15 0 @ [1]))"

definition IsPrivate :: "ip \<Rightarrow> bool" where
  "IsPrivate a =
     (case To4 a of
        Some b \<Rightarrow> b ! 0 = 10 \<or> (b ! 0 = 172 \<and> b ! 1 AND 0xf0 = 16) \<or> (b ! 0 = 192 \<and> b ! 1 = 168)
      | None \<Rightarrow> length a = 16 \<and> a ! 0 AND 0xfe = 0xfc)"

definition IsLinkLocalUnicast :: "ip \<Rightarrow> bool" where
  "IsLinkLocalUnicast a =
     (case To4 a of
        Some b \<Rightarrow> b ! 0 = 169 \<and> b ! 1 = 254
      | None \<Rightarrow> length a = 16 \<and> a ! 0 = 0xfe \<and> a ! 1 AND 0xc0 = 0x80)"

definition IsLinkLocalMulticast :: "ip \<Rightarrow> bool" where
  "IsLinkLocalMulticast a =
     (case To4 a of
        Some b \<Rightarrow> b ! 0 = 224 \<and> b ! 1 = 0 \<and> b ! 2 = 0
      | None \<Rightarrow> length a = 16 \<and> a ! 0 = 0xff \<and> a ! 1 AND 0x0f = 0x02)"

definition IsUnspecified :: "ip \<Rightarrow> bool" where
  "IsUnspecified a =
     (ip_equal a (v4_in_v6_prefix @ [0, 0, 0, 0]) \<or> ip_equal a (replicate 16 0))"

definition IsMulticast :: "ip \<Rightarrow> bool" where
  "IsMulticast a =
     (case To4 a of
        Some b \<Rightarrow> b ! 0 AND 0xf0 = 0xe0
      | None \<Rightarrow> length a = 16 \<and> a ! 0 = 0xff)"

definition isPrivateAddress :: "ip \<Rightarrow> bool" where
  "isPrivateAddress a =
     (IsLoopback a \<or> IsPrivate a \<or> IsLinkLocalUnicast a \<or> IsLinkLocalMulticast a \<or>
      IsUnspecified a \<or> IsMulticast a)"

section \<open>The URL and the dialled address\<close>

record url_parts =
  up_Scheme :: string
  up_Hostname :: string
  up_User :: bool

record http_request =
  rq_Method :: string
  rq_URL :: string
  rq_Body :: "string option"
  rq_Header :: string_map

text \<open>\<open>nl_Address\<close> is the host and port \<^verbatim>\<open>net/http\<close> dials for a URL, \<open>nl_Redirected\<close> the
  request it makes of an earlier one for the URL of a redirect.\<close>

record net_lib =
  nl_ParseURL :: "string \<Rightarrow> url_parts result"
  nl_ParseIP :: "string \<Rightarrow> ip option"
  nl_SplitHostPort :: "string \<Rightarrow> (string \<times> string) result"
  nl_LookupIP :: "string \<Rightarrow> ip list result"
  nl_IPString :: "ip \<Rightarrow> string"
  nl_NewRequest :: "string \<Rightarrow> string \<Rightarrow> go_error option"
  nl_Address :: "string \<Rightarrow> string"
  nl_Redirected :: "http_request \<Rightarrow> string \<Rightarrow> http_request"

definition EqualFold :: "string \<Rightarrow> string \<Rightarrow> bool" where
  "EqualFold a b \<longleftrightarrow> ToLower a = ToLower b"

definition ValidateURL :: "net_lib \<Rightarrow> string \<Rightarrow> bool \<Rightarrow> unit result" where
  "ValidateURL net rawURL allowPrivate =
     (case nl_ParseURL net rawURL of
        Inl e \<Rightarrow> Inl (wrap_err ''invalid callback URL'' e)
      | Inr parsed \<Rightarrow>
          if up_Scheme parsed \<noteq> ''http'' \<and> up_Scheme parsed \<noteq> ''https'' then
            Inl ''callback URL scheme must be http or https''
          else if up_Hostname parsed = [] then Inl ''callback URL host is required''
          else if up_User parsed then Inl ''callback URL must not include user credentials''
          else if \<not> allowPrivate \<and>
              (case nl_ParseIP net (up_Hostname parsed) of
                 None \<Rightarrow> False | Some address \<Rightarrow> isPrivateAddress address) then
            Inl ''callback URL must not target a private or loopback address''
          else if \<not> allowPrivate \<and> EqualFold (up_Hostname parsed) ''localhost'' then
            Inl ''callback URL must not target localhost''
          else Inr ())"

text \<open>The \<^verbatim>\<open>DialContext\<close> function of the transport: the address it connects to.\<close>

fun check_addresses :: "net_lib \<Rightarrow> bool \<Rightarrow> ip list \<Rightarrow> unit result" where
  "check_addresses net allowPrivate [] = Inr ()"
| "check_addresses net allowPrivate (a # as) =
     (if \<not> allowPrivate \<and> isPrivateAddress a
      then Inl (''callback hostname resolves to a disallowed private address: '' @ nl_IPString net a)
      else check_addresses net allowPrivate as)"

definition DialContext :: "net_lib \<Rightarrow> bool \<Rightarrow> string \<Rightarrow> (ip \<times> string) result" where
  "DialContext net allowPrivate address =
     (case nl_SplitHostPort net address of
        Inl e \<Rightarrow> Inl (wrap_err ''parse callback address'' e)
      | Inr (host, port) \<Rightarrow>
          (case nl_LookupIP net host of
             Inl e \<Rightarrow> Inl (wrap_err ''resolve callback hostname'' e)
           | Inr addresses \<Rightarrow>
               (case check_addresses net allowPrivate addresses of
                  Inl e \<Rightarrow> Inl e
                | Inr _ \<Rightarrow>
                    (case addresses of
                       [] \<Rightarrow> Inl ''callback hostname has no usable addresses''
                     | a # _ \<Rightarrow> Inr (a, port)))))"

text \<open>\<open>via\<close> is the number of requests already made.\<close>

definition CheckRedirect :: "net_lib \<Rightarrow> bool \<Rightarrow> nat \<Rightarrow> string \<Rightarrow> unit result" where
  "CheckRedirect net allowPrivate via url =
     (if 5 \<le> via then Inl ''callback redirect limit exceeded''
      else ValidateURL net url allowPrivate)"

section \<open>The request\<close>

definition isReservedHeader :: "string \<Rightarrow> bool" where
  "isReservedHeader name \<longleftrightarrow>
     ToLower (TrimSpace name) \<in>
       {''host'', ''content-length'', ''connection'', ''transfer-encoding'',
        ''idempotency-key'', ''x-chronoflow-execution-id''}"

text \<open>\<^verbatim>\<open>textproto.CanonicalMIMEHeaderKey\<close>: letters after a dash or at the start in
  upper case, the others in lower case; a name with a byte outside the token set is kept.\<close>

definition token_char :: "char \<Rightarrow> bool" where
  "token_char c \<longleftrightarrow>
     (let n = (of_char c :: nat) in
      (48 \<le> n \<and> n \<le> 57) \<or> (65 \<le> n \<and> n \<le> 90) \<or> (97 \<le> n \<and> n \<le> 122) \<or>
      n \<in> {33, 35, 36, 37, 38, 39, 42, 43, 45, 46, 94, 95, 96, 124, 126})"

definition upper_char :: "char \<Rightarrow> char" where
  "upper_char c =
     (let n = (of_char c :: nat) in if 97 \<le> n \<and> n \<le> 122 then char_of (n - 32) else c)"

fun canonical_chars :: "bool \<Rightarrow> string \<Rightarrow> string" where
  "canonical_chars up [] = []"
| "canonical_chars up (c # cs) =
     (if up then upper_char c else lower_char c) # canonical_chars (c = CHR ''-'') cs"

definition canonical_header :: "string \<Rightarrow> string" where
  "canonical_header k = (if list_all token_char k then canonical_chars True k else k)"

definition header_set :: "string \<Rightarrow> string \<Rightarrow> string_map \<Rightarrow> string_map" where
  "header_set k v h = map_put (canonical_header k) v h"

text \<open>The loop over the snapshot's headers, in the order the map is ranged over.\<close>

fun set_headers :: "(string \<times> string) list \<Rightarrow> string_map \<Rightarrow> string_map" where
  "set_headers [] h = h"
| "set_headers ((k, v) # kvs) h =
     set_headers kvs (if isReservedHeader k then h else header_set k v h)"

definition build_headers :: "(string \<times> string) list \<Rightarrow> int \<Rightarrow> string_map" where
  "build_headers ordered_headers executionID =
     (let h = header_set ''User-Agent'' ''ChronoFlow/1.0''
                (header_set ''Content-Type'' ''application/json'' []);
          h = set_headers ordered_headers h;
          stableID = show_int executionID;
          h = header_set ''Idempotency-Key'' (''chronoflow-execution-'' @ stableID) h
      in header_set ''X-ChronoFlow-Execution-ID'' stableID h)"

section \<open>The exchange\<close>

text \<open>The response: its status code, the bytes of its body, and the error met after them, if
  the body does not end there.\<close>

record http_response =
  rs_StatusCode :: int
  rs_Body :: string
  rs_BodyError :: "go_error option"

text \<open>The parts of \<^verbatim>\<open>http.Client\<close> that the source sets.\<close>

record http_client =
  hc_Timeout :: duration
  hc_DialContext :: "string \<Rightarrow> (ip \<times> string) result"
  hc_CheckRedirect :: "nat \<Rightarrow> string \<Rightarrow> unit result"

record Client =
  cl_httpClient :: http_client
  cl_maxResponseBody :: int
  cl_allowPrivate :: bool

definition NewClient :: "net_lib \<Rightarrow> duration \<Rightarrow> int \<Rightarrow> bool \<Rightarrow> Client" where
  "NewClient net timeout maxResponseBody allowPrivate = \<lparr>
     cl_httpClient = \<lparr>hc_Timeout = timeout, hc_DialContext = DialContext net allowPrivate,
       hc_CheckRedirect = CheckRedirect net allowPrivate\<rparr>,
     cl_maxResponseBody = maxResponseBody, cl_allowPrivate = allowPrivate\<rparr>"

text \<open>\<^verbatim>\<open>http.Client.Do\<close>: what a server answers, and the exchange with its redirects, with the
  URLs requested and the addresses connected to.  A connection that the transport keeps alive was dialled the same
  way, so every request is shown with the connection dialled for it.  A client whose redirect check never refuses
  may never return.\<close>

datatype reply = Answer http_response | RedirectTo string | Broken go_error

type_synonym network = "ip \<times> string \<Rightarrow> http_request \<Rightarrow> reply"

partial_function (option) client_Do ::
  "net_lib \<Rightarrow> network \<Rightarrow> http_client \<Rightarrow> nat \<Rightarrow> http_request \<Rightarrow>
     (http_response result \<times> (string \<times> ip) list) option" where
  "client_Do net network c via request =
     (case hc_DialContext c (nl_Address net (rq_URL request)) of
        Inl e \<Rightarrow> Some (Inl e, [])
      | Inr dest \<Rightarrow>
          (case network dest request of
             Answer response \<Rightarrow> Some (Inr response, [(rq_URL request, fst dest)])
           | Broken e \<Rightarrow> Some (Inl e, [(rq_URL request, fst dest)])
           | RedirectTo url \<Rightarrow>
               (case hc_CheckRedirect c (Suc via) url of
                  Inl e \<Rightarrow> Some (Inl e, [(rq_URL request, fst dest)])
                | Inr _ \<Rightarrow>
                    Option.bind (client_Do net network c (Suc via) ((nl_Redirected net request url)\<lparr>rq_URL := url\<rparr>))
                      (\<lambda>(r, hops). Some (r, (rq_URL request, fst dest) # hops)))))"

definition client_exchange :: "net_lib \<Rightarrow> network \<Rightarrow> http_client \<Rightarrow> http_request \<Rightarrow> http_response result" where
  "client_exchange net network c request =
     (case client_Do net network c 0 request of Some (r, _) \<Rightarrow> r | None \<Rightarrow> Inl ''context deadline exceeded'')"

text \<open>\<^verbatim>\<open>io.ReadAll(io.LimitReader(body, n))\<close>\<close>

definition read_limited :: "int \<Rightarrow> http_response \<Rightarrow> string result" where
  "read_limited n response =
     (if int (length (rs_Body response)) < n
      then (case rs_BodyError response of Some e \<Rightarrow> Inl e | None \<Rightarrow> Inr (rs_Body response))
      else Inr (take (nat n) (rs_Body response)))"

text \<open>What \<^verbatim>\<open>Execute\<close> makes of the response.\<close>

definition read_response :: "Client \<Rightarrow> http_response \<Rightarrow> int \<times> string \<times> go_error option" where
  "read_response c response =
     (case read_limited (cl_maxResponseBody c + 1) response of
        Inl e \<Rightarrow> (rs_StatusCode response, [], Some (wrap_err ''read callback response'' e))
      | Inr bodyBytes \<Rightarrow>
          if cl_maxResponseBody c < int (length bodyBytes) then
            (rs_StatusCode response, take (nat (cl_maxResponseBody c)) bodyBytes,
             Some (''callback response exceeds maximum size of '' @ show_int (cl_maxResponseBody c) @
                   '' bytes''))
          else if rs_StatusCode response < 200 \<or> 300 \<le> rs_StatusCode response then
            (rs_StatusCode response, bodyBytes,
             Some (''HTTP callback returned a non-2xx status code: '' @
                   show_int (rs_StatusCode response)))
          else (rs_StatusCode response, bodyBytes, None))"

definition callback_request :: "CallbackSnapshot \<Rightarrow> (string \<times> string) list \<Rightarrow> int \<Rightarrow> http_request" where
  "callback_request snapshot ordered_headers executionID =
     \<lparr>rq_Method = cs_Method snapshot, rq_URL = cs_URL snapshot,
      rq_Body = (if cs_Body snapshot \<noteq> [] then Some (cs_Body snapshot) else None),
      rq_Header = build_headers ordered_headers executionID\<rparr>"

definition Execute ::
  "net_lib \<Rightarrow> Client \<Rightarrow> network \<Rightarrow> CallbackSnapshot \<Rightarrow>
     (string \<times> string) list \<Rightarrow> int \<Rightarrow> int \<times> string \<times> go_error option" where
  "Execute net c network snapshot ordered_headers executionID =
     (case ValidateURL net (cs_URL snapshot) (cl_allowPrivate c) of
        Inl e \<Rightarrow> (0, [], Some e)
      | Inr _ \<Rightarrow>
          (case nl_NewRequest net (cs_Method snapshot) (cs_URL snapshot) of
             Some e \<Rightarrow> (0, [], Some (wrap_err ''create callback request'' e))
           | None \<Rightarrow>
               (case client_exchange net network (cl_httpClient c)
                       (callback_request snapshot ordered_headers executionID) of
                  Inl e \<Rightarrow> (0, [], Some (wrap_err ''execute HTTP callback'' e))
                | Inr response \<Rightarrow> read_response c response)))"

section \<open>Facts\<close>

text \<open>The redirect check stops the client after five requests, so it always returns.\<close>

definition hops_ok :: "net_lib \<Rightarrow> bool \<Rightarrow> string \<Rightarrow> (string \<times> ip) list \<Rightarrow> bool" where
  "hops_ok net allowPrivate first_url hops \<longleftrightarrow>
     (\<forall>(url, a) \<in> set hops. (\<exists>port. DialContext net allowPrivate (nl_Address net url) = Inr (a, port)) \<and>
        (url = first_url \<or> ValidateURL net url allowPrivate = Inr ()))"

lemma client_Do_bounded:
  assumes c: "c = cl_httpClient (NewClient net timeout n allowPrivate)" and "via \<le> 4"
  shows "\<exists>r hops. client_Do net network c via request = Some (r, hops) \<and> length hops \<le> 5 - via \<and>
    hops_ok net allowPrivate (rq_URL request) hops"
  using assms(2)
proof (induction "4 - via" arbitrary: via request)
  case 0
  then have [simp]: "via = 4" by simp
  show ?case
    by (subst client_Do.simps)
       (auto simp: c NewClient_def CheckRedirect_def hops_ok_def split: sum.splits reply.splits)
next
  case (Suc k)
  show ?case
  proof (cases "\<exists>dest url u. DialContext net allowPrivate (nl_Address net (rq_URL request)) = Inr dest \<and>
      network dest request = RedirectTo url \<and> CheckRedirect net allowPrivate (Suc via) url = Inr u")
    case True
    then obtain a port url where d: "DialContext net allowPrivate (nl_Address net (rq_URL request)) = Inr (a, port)"
      "network (a, port) request = RedirectTo url" "CheckRedirect net allowPrivate (Suc via) url = Inr ()" by auto
    then have url: "ValidateURL net url allowPrivate = Inr ()" by (simp add: CheckRedirect_def split: if_splits)
    let ?request = "(nl_Redirected net request url)\<lparr>rq_URL := url\<rparr>"
    from Suc.hyps have "k = 4 - Suc via" "Suc via \<le> 4" by simp_all
    from Suc.hyps(1) [OF this, of ?request] obtain r hops where
      h: "client_Do net network c (Suc via) ?request = Some (r, hops)" "length hops \<le> 5 - Suc via"
      "hops_ok net allowPrivate url hops" by auto
    have "client_Do net network c via request = Some (r, (rq_URL request, a) # hops)"
      by (subst client_Do.simps) (use d h(1) in \<open>simp add: c NewClient_def\<close>)
    moreover have "length ((rq_URL request, a) # hops) \<le> 5 - via" using h(2) \<open>Suc via \<le> 4\<close> by simp
    moreover have "hops_ok net allowPrivate (rq_URL request) ((rq_URL request, a) # hops)"
      using h(3) d(1) url by (auto simp: hops_ok_def)
    ultimately show ?thesis by blast
  next
    case False
    then show ?thesis
      using Suc.prems by (subst client_Do.simps)
        (auto simp: c NewClient_def hops_ok_def split: sum.split reply.split)
  qed
qed

lemma To4_mapped [simp]: "length b = 4 \<Longrightarrow> To4 (v4_in_v6_prefix @ b) = Some b"
  by (simp add: To4_def v4_in_v6_prefix_def)

lemma To4_short [simp]: "length b = 4 \<Longrightarrow> To4 b = Some b"
  by (simp add: To4_def)

lemma check_addresses_ok:
  "check_addresses net allow as = Inr u \<longleftrightarrow> (\<forall>a \<in> set as. allow \<or> \<not> isPrivateAddress a)"
  by (induction as) auto

lemma ValidateURL_ok:
  "ValidateURL net url allow = Inr u \<longleftrightarrow>
     (\<exists>p. nl_ParseURL net url = Inr p \<and> up_Scheme p \<in> {''http'', ''https''} \<and>
        up_Hostname p \<noteq> [] \<and> \<not> up_User p \<and>
        (allow \<or> (\<forall>a. nl_ParseIP net (up_Hostname p) = Some a \<longrightarrow> \<not> isPrivateAddress a) \<and>
                  \<not> EqualFold (up_Hostname p) ''localhost''))"
  unfolding ValidateURL_def
  by (cases "nl_ParseURL net url") (auto split: option.splits)

lemma DialContext_ok:
  assumes "DialContext net False address = Inr (a, port)"
  shows "\<not> isPrivateAddress a"
  using assms check_addresses_ok [of net False]
  by (auto simp: DialContext_def split: sum.splits prod.splits list.splits if_splits)

lemma read_limited_le:
  "read_limited n response = Inr b \<Longrightarrow> 0 \<le> n \<Longrightarrow> int (length b) \<le> n"
  by (auto simp: read_limited_def split: if_splits option.splits)

lemma read_response_bound:
  assumes "read_response c response = (code, body, err)" "0 \<le> cl_maxResponseBody c"
  shows "int (length body) \<le> cl_maxResponseBody c"
  using assms read_limited_le [of "cl_maxResponseBody c + 1" response]
  by (auto simp: read_response_def split: sum.splits if_splits)

lemma read_response_success:
  assumes "read_response c response = (code, body, None)"
  shows "200 \<le> code" "code < 300" "body = rs_Body response" "code = rs_StatusCode response"
    "rs_BodyError response = None"
  using assms
  by (auto simp: read_response_def read_limited_def split: sum.splits if_splits option.splits)

subsection \<open>The reserved headers\<close>

lemma lower_upper [simp]: "lower_char (upper_char c) = lower_char c"
  by (auto simp: lower_char_def upper_char_def Let_def)

lemma lower_lower [simp]: "lower_char (lower_char c) = lower_char c"
  by (auto simp: lower_char_def Let_def)

lemma ToLower_canonical_chars: "ToLower (canonical_chars up s) = ToLower s"
  by (induction up s rule: canonical_chars.induct) (simp_all add: ToLower_def)

lemma ToLower_canonical: "ToLower (canonical_header k) = ToLower k"
  by (simp add: canonical_header_def ToLower_canonical_chars)

lemma canonical_stable [simp]:
  "canonical_header ''Idempotency-Key'' = ''Idempotency-Key''"
  "canonical_header ''X-ChronoFlow-Execution-ID'' = ''X-Chronoflow-Execution-Id''"
  "canonical_header ''Content-Type'' = ''Content-Type''"
  "canonical_header ''User-Agent'' = ''User-Agent''"
  by code_simp+

lemma ordered_header_set: "ordered_keys h \<Longrightarrow> ordered_keys (header_set k v h)"
  by (simp add: header_set_def ordered_map_put)

lemma ordered_set_headers: "ordered_keys h \<Longrightarrow> ordered_keys (set_headers kvs h)"
  by (induction kvs h rule: set_headers.induct) (auto simp: ordered_header_set)

lemma set_headers_source:
  assumes "(k, v) \<in> set (set_headers kvs h)"
  shows "(k, v) \<in> set h \<or> (\<exists>k'. (k', v) \<in> set kvs \<and> \<not> isReservedHeader k' \<and> k = canonical_header k')"
  using assms
proof (induction kvs h rule: set_headers.induct)
  case (2 k' v' kvs h)
  then show ?case
    using set_map_put_sub [of "canonical_header k'" v' h] by (auto simp: header_set_def split: if_splits)
qed simp

end
