(* ===== verification/Timer_Service.thy ===== *)
theory Timer_Service
  imports Timer_Repo World Cron_Parser Callback
begin

text \<open>
  \<^verbatim>\<open>internal/service/timer_service.go\<close>: creation, lookup, deletion, paged listing, activation
  and deactivation of Timers.  The service reaches the database through the interface
  \<^verbatim>\<open>TimerDefinitionRepository\<close>, here a record of operations on an abstract state; the locale
  \<open>timer_repository\<close> states what the service relies on, its lemmas are proved once inside, and
  the interpretation \<open>world_timers\<close> discharges the contract for the SQL repository of
  \<^theory_text>\<open>Timer_Repo\<close> running in a shared database.
\<close>

section \<open>The repository interface\<close>

record 's TimerDefinitionRepository =
  tr_Create :: "TimerDefinition \<Rightarrow> 's \<Rightarrow> TimerDefinition result \<times> 's"
  tr_GetByID :: "int \<Rightarrow> 's \<Rightarrow> TimerDefinition option result \<times> 's"
  tr_Delete :: "int \<Rightarrow> 's \<Rightarrow> unit result \<times> 's"
  tr_List :: "TimerDefinitionListRequest \<Rightarrow> 's \<Rightarrow> (TimerDefinition list \<times> int) result \<times> 's"
  tr_CountListByStatus ::
    "TimerDefinitionListRequest \<Rightarrow> 's \<Rightarrow> (TimerStatus \<Rightarrow> int option) result \<times> 's"
  tr_UpdateScheduleState ::
    "int \<Rightarrow> TimerStatus \<Rightarrow> TimerStatus \<Rightarrow> time option \<Rightarrow> 's \<Rightarrow> unit result \<times> 's"
  tr_CountByStatus :: "'s \<Rightarrow> (TimerStatus \<Rightarrow> int option) result \<times> 's"

section \<open>Operations\<close>

text \<open>The service's collaborators other than the repository: the parser, the configured default
  and the callback policy.\<close>

record 'c timer_env =
  tv_cron :: "'c cron_lib"
  tv_net :: net_lib
  tv_DefaultMaxCatchUp :: int
  tv_AllowPrivateCallbacks :: bool

text \<open>The part of \<^verbatim>\<open>Create\<close> before the insert: validation, defaults, the new row.\<close>

definition known_policy :: "MisfirePolicy \<Rightarrow> bool" where
  "known_policy p \<longleftrightarrow> p \<in> {MisfirePolicySkip, MisfirePolicyFireOnce, MisfirePolicyCatchUp}"

definition new_definition ::
  "CreateTimerDefinitionRequest \<Rightarrow> MisfirePolicy \<Rightarrow> int \<Rightarrow> string \<Rightarrow> TimerDefinition" where
  "new_definition req misfirePolicy maxCatchUp headersJSON =
     \<lparr>td_ID = 0, td_App = cr_App req, td_Name = cr_Name req, td_CronExpr = cr_CronExpr req,
      td_CallbackURL = cr_CallbackURL req, td_CallbackMethod = cr_CallbackMethod req,
      td_CallbackBody = cr_CallbackBody req, td_CallbackHeaders = headersJSON,
      td_Status = TimerStatusInactive, td_NextFireAt = None, td_MisfirePolicy = misfirePolicy,
      td_MaxCatchUp = maxCatchUp, td_Version = 1, td_CreatedAt = zero_time,
      td_UpdatedAt = zero_time\<rparr>"

definition prepare_definition ::
  "'c timer_env \<Rightarrow> time \<Rightarrow> CreateTimerDefinitionRequest \<Rightarrow> TimerDefinition result" where
  "prepare_definition env now req =
     (case ValidateCronExpr (tv_cron env) (cr_CronExpr req) of
        Inl e \<Rightarrow> Inl (wrap_err ''invalid cron expression'' e)
      | Inr _ \<Rightarrow>
     (case NextTriggerTime (tv_cron env) (cr_CronExpr req) now of
        Inl e \<Rightarrow> Inl (wrap_err ''cron expression cannot produce a next trigger time'' e)
      | Inr _ \<Rightarrow>
     (case ValidateURL (tv_net env) (cr_CallbackURL req) (tv_AllowPrivateCallbacks env) of
        Inl e \<Rightarrow> Inl e
      | Inr _ \<Rightarrow>
          (let misfirePolicy =
                 (if cr_MisfirePolicy req = MisfirePolicyOther [] then MisfirePolicyFireOnce
                  else cr_MisfirePolicy req)
           in if \<not> known_policy misfirePolicy then
                Inl (''invalid misfire policy: '' @ misfire_policy_text misfirePolicy)
              else
                (let maxCatchUp =
                       (if cr_MaxCatchUp req < 1 then tv_DefaultMaxCatchUp env else cr_MaxCatchUp req);
                     headersJSON =
                       (case cr_CallbackHeaders req of
                          None \<Rightarrow> ''{}''
                        | Some h \<Rightarrow> marshal_string_map h)
                 in Inr (new_definition req misfirePolicy maxCatchUp headersJSON))))))"

definition TimerService_Create ::
  "'s TimerDefinitionRepository \<Rightarrow> 'c timer_env \<Rightarrow> time \<Rightarrow> CreateTimerDefinitionRequest \<Rightarrow> 's \<Rightarrow>
     TimerDefinition result \<times> 's" where
  "TimerService_Create repo env now req s =
     (case prepare_definition env now req of
        Inl e \<Rightarrow> (Inl e, s)
      | Inr def \<Rightarrow>
          (case tr_Create repo def s of
             (Inl e, s') \<Rightarrow> (Inl (wrap_err ''create timer'' e), s')
           | (Inr def', s') \<Rightarrow> (Inr def', s')))"

definition missing_timer :: "int \<Rightarrow> go_error" where
  "missing_timer i = ''timer does not exist, id='' @ show_int i"

definition TimerService_GetByID ::
  "'s TimerDefinitionRepository \<Rightarrow> int \<Rightarrow> 's \<Rightarrow> TimerDefinition result \<times> 's" where
  "TimerService_GetByID repo i s =
     (case tr_GetByID repo i s of
        (Inl e, s') \<Rightarrow> (Inl (wrap_err ''get timer'' e), s')
      | (Inr None, s') \<Rightarrow> (Inl (missing_timer i), s')
      | (Inr (Some def), s') \<Rightarrow> (Inr def, s'))"

definition TimerService_Delete ::
  "'s TimerDefinitionRepository \<Rightarrow> int \<Rightarrow> 's \<Rightarrow> unit result \<times> 's" where
  "TimerService_Delete repo i s =
     (case tr_Delete repo i s of (r, s') \<Rightarrow> (map_err (wrap_err ''delete timer'') r, s'))"

record TimerDefinitionListStats =
  ls_Total :: int
  ls_Active :: int
  ls_Inactive :: int

record TimerDefinitionListResponse =
  lp_Total :: int
  lp_Page :: int
  lp_PageSize :: int
  lp_Items :: "TimerDefinition list"
  lp_Stats :: TimerDefinitionListStats

definition list_defaults :: "TimerDefinitionListRequest \<Rightarrow> TimerDefinitionListRequest" where
  "list_defaults req = req\<lparr>
     lr_Page := (if lr_Page req \<le> 0 then 1 else lr_Page req),
     lr_PageSize := (if lr_PageSize req \<le> 0 then 10 else lr_PageSize req)\<rparr>"

definition TimerService_List ::
  "'s TimerDefinitionRepository \<Rightarrow> TimerDefinitionListRequest \<Rightarrow> 's \<Rightarrow>
     TimerDefinitionListResponse result \<times> 's" where
  "TimerService_List repo req0 s =
     (let req = list_defaults req0 in
      case tr_List repo req s of
        (Inl e, s') \<Rightarrow> (Inl (wrap_err ''list timers'' e), s')
      | (Inr (items, total_rows), s') \<Rightarrow>
          (case tr_CountListByStatus repo req s' of
             (Inl e, s'') \<Rightarrow> (Inl (wrap_err ''count timer statuses'' e), s'')
           | (Inr statusCounts, s'') \<Rightarrow>
               (let active = count_of statusCounts TimerStatusActive;
                    inactive = count_of statusCounts TimerStatusInactive
                in (Inr \<lparr>lp_Total = total_rows, lp_Page = lr_Page req, lp_PageSize = lr_PageSize req,
                         lp_Items = items,
                         lp_Stats = \<lparr>ls_Total = active + inactive, ls_Active = active,
                                     ls_Inactive = inactive\<rparr>\<rparr>, s''))))"

definition TimerService_Activate ::
  "'s TimerDefinitionRepository \<Rightarrow> 'c timer_env \<Rightarrow> time \<Rightarrow> int \<Rightarrow> 's \<Rightarrow> unit result \<times> 's" where
  "TimerService_Activate repo env now i s =
     (case tr_GetByID repo i s of
        (Inl e, s') \<Rightarrow> (Inl (wrap_err ''get timer'' e), s')
      | (Inr None, s') \<Rightarrow> (Inl (missing_timer i), s')
      | (Inr (Some def), s') \<Rightarrow>
     (case ValidateTimerTransition (td_Status def) TimerStatusActive of
        Inl e \<Rightarrow> (Inl (wrap_err ''activate timer'' e), s')
      | Inr _ \<Rightarrow>
     (case NextTriggerTime (tv_cron env) (td_CronExpr def) now of
        Inl e \<Rightarrow> (Inl (wrap_err ''calculate next trigger time'' e), s')
      | Inr next \<Rightarrow>
     (case tr_UpdateScheduleState repo (td_ID def) TimerStatusInactive TimerStatusActive (Some next) s' of
        (r, s'') \<Rightarrow> (map_err (wrap_err ''activate timer state'') r, s'')))))"

definition TimerService_Deactivate ::
  "'s TimerDefinitionRepository \<Rightarrow> int \<Rightarrow> 's \<Rightarrow> unit result \<times> 's" where
  "TimerService_Deactivate repo i s =
     (case tr_GetByID repo i s of
        (Inl e, s') \<Rightarrow> (Inl (wrap_err ''get timer'' e), s')
      | (Inr None, s') \<Rightarrow> (Inl (missing_timer i), s')
      | (Inr (Some def), s') \<Rightarrow>
     (case ValidateTimerTransition (td_Status def) TimerStatusInactive of
        Inl e \<Rightarrow> (Inl (wrap_err ''deactivate timer'' e), s')
      | Inr _ \<Rightarrow> tr_UpdateScheduleState repo i TimerStatusActive TimerStatusInactive None s'))"

section \<open>The contract of the repository\<close>

locale timer_repository =
  fixes repo :: "'s TimerDefinitionRepository"
    and inv :: "'s \<Rightarrow> bool"
  assumes create_inv: "inv s \<Longrightarrow> td_Status t = TimerStatusInactive \<Longrightarrow> td_NextFireAt t = None \<Longrightarrow>
      inv (snd (tr_Create repo t s))"
    and create_row: "tr_Create repo t s = (Inr t', s') \<Longrightarrow>
      td_Status t = TimerStatusInactive \<Longrightarrow> td_Status t' = TimerStatusInactive"
    and get_inv: "inv s \<Longrightarrow> inv (snd (tr_GetByID repo i s))"
    and get_row: "tr_GetByID repo i s = (Inr (Some t), s') \<Longrightarrow>
      td_ID t = i \<and> td_Status t \<noteq> TimerStatusDeleted"
    and delete_inv: "inv s \<Longrightarrow> inv (snd (tr_Delete repo i s))"
    and list_inv: "inv s \<Longrightarrow> inv (snd (tr_List repo req s))"
    and list_page: "tr_List repo req s = (Inr (items, total_rows), s') \<Longrightarrow> 0 \<le> lr_PageSize req \<Longrightarrow>
      int (length items) \<le> lr_PageSize req"
    and list_visible: "tr_List repo req s = (Inr (items, total_rows), s') \<Longrightarrow> t \<in> set items \<Longrightarrow>
      timer_list_filter req t"
    and counts_inv: "inv s \<Longrightarrow> inv (snd (tr_CountListByStatus repo req s))"
    and update_inv: "inv s \<Longrightarrow>
      to = TimerStatusActive \<and> next \<noteq> None \<or> to = TimerStatusInactive \<and> next = None \<Longrightarrow>
      inv (snd (tr_UpdateScheduleState repo i from to next s))"
    and status_counts_inv: "inv s \<Longrightarrow> inv (snd (tr_CountByStatus repo s))"
begin

lemma prepare_definition_row:
  "prepare_definition env now req = Inr t \<Longrightarrow>
     td_Status t = TimerStatusInactive \<and> td_NextFireAt t = None"
  by (auto simp: prepare_definition_def Let_def new_definition_def split: sum.splits if_splits)

lemmas steps = keeps [where I = inv] keeps_pair [where I = inv]

lemma Create_inv: "inv s \<Longrightarrow> inv (snd (TimerService_Create repo env now req s))"
  unfolding TimerService_Create_def
  by (rule steps create_inv | simp add: prepare_definition_row)+

lemma GetByID_inv: "inv s \<Longrightarrow> inv (snd (TimerService_GetByID repo i s))"
  unfolding TimerService_GetByID_def by (rule steps get_inv | simp)+

lemma Delete_inv: "inv s \<Longrightarrow> inv (snd (TimerService_Delete repo i s))"
  unfolding TimerService_Delete_def by (rule steps delete_inv | simp)+

lemma List_inv: "inv s \<Longrightarrow> inv (snd (TimerService_List repo req s))"
  unfolding TimerService_List_def Let_def
  by (rule keeps [where I = inv] list_inv counts_inv keeps_tuple [where I = inv] | assumption)+

lemma Activate_inv: "inv s \<Longrightarrow> inv (snd (TimerService_Activate repo env now i s))"
  unfolding TimerService_Activate_def by (rule steps get_inv update_inv | simp)+

lemma Deactivate_inv: "inv s \<Longrightarrow> inv (snd (TimerService_Deactivate repo i s))"
  unfolding TimerService_Deactivate_def by (rule steps get_inv update_inv | simp)+

text \<open>A page holds no more rows than asked for, and only visible ones; the statistics add up.\<close>

lemma List_page:
  assumes "TimerService_List repo req s = (Inr p, s')"
  shows "1 \<le> lp_Page p" "int (length (lp_Items p)) \<le> lp_PageSize p"
    "\<forall>t \<in> set (lp_Items p). td_Status t \<noteq> TimerStatusDeleted"
    "ls_Total (lp_Stats p) = ls_Active (lp_Stats p) + ls_Inactive (lp_Stats p)"
proof -
  obtain items total_rows s1 where
    l: "tr_List repo (list_defaults req) s = (Inr (items, total_rows), s1)"
    and p: "lp_Items p = items" "lp_PageSize p = lr_PageSize (list_defaults req)"
      "lp_Page p = lr_Page (list_defaults req)"
      "ls_Total (lp_Stats p) = ls_Active (lp_Stats p) + ls_Inactive (lp_Stats p)"
    using assms by (auto simp: TimerService_List_def Let_def split: prod.splits sum.splits)
  have "0 \<le> lr_PageSize (list_defaults req)" "1 \<le> lr_Page (list_defaults req)"
    by (simp_all add: list_defaults_def)
  with list_page [OF l] list_visible [OF l] p
  show "1 \<le> lp_Page p" "int (length (lp_Items p)) \<le> lp_PageSize p"
    "\<forall>t \<in> set (lp_Items p). td_Status t \<noteq> TimerStatusDeleted"
    "ls_Total (lp_Stats p) = ls_Active (lp_Stats p) + ls_Inactive (lp_Stats p)"
    by (auto simp: timer_list_filter_def)
qed

end

section \<open>The SQL repository meets the contract\<close>

definition world_timer_repo :: "world TimerDefinitionRepository" where
  "world_timer_repo = \<lparr>
     tr_Create = (\<lambda>t. call (timerRepo_Create t)),
     tr_GetByID = (\<lambda>i. call (timerRepo_GetByID i)),
     tr_Delete = (\<lambda>i. call (timerRepo_Delete i)),
     tr_List = timerRepo_List,
     tr_CountListByStatus = (\<lambda>req. call (timerRepo_CountListByStatus req)),
     tr_UpdateScheduleState = (\<lambda>i from to next. call (timerRepo_UpdateScheduleState i from to next)),
     tr_CountByStatus = call timerRepo_CountByStatus\<rparr>"

lemma snd_call_ok:
  "world_ok w \<Longrightarrow> (\<And>ses d r d'. db_ok d \<Longrightarrow> m ses d = (r, d') \<Longrightarrow> db_ok d') \<Longrightarrow> world_ok (snd (call m w))"
  by (rule snd_call_preserves) (assumption, metis prod.collapse)

lemma timerRepo_GetByID_state: "timerRepo_GetByID i ses d = (r, d') \<Longrightarrow> d' = d"
  by (auto simp: timerRepo_GetByID_def op_wrap_def query_def split: prod.splits)

lemma list_queries_state: "snd (list_count req ses d) = d" "snd (list_find req ses d) = d"
  by (simp_all add: list_count_def list_find_def op_wrap_state)

lemma timerRepo_List_ok: "world_ok w \<Longrightarrow> world_ok (snd (timerRepo_List req w))"
  unfolding timerRepo_List_def
  by (rule keeps [where I = world_ok] snd_call_preserves | assumption | simp add: list_queries_state)+

lemma timerRepo_CountListByStatus_state: "timerRepo_CountListByStatus req ses d = (r, d') \<Longrightarrow> d' = d"
  by (auto simp: timerRepo_CountListByStatus_def op_wrap_def query_def split: prod.splits)

lemma timerRepo_CountByStatus_state: "timerRepo_CountByStatus ses d = (r, d') \<Longrightarrow> d' = d"
  by (metis timerRepo_CountByStatus_def op_wrap_state query_state snd_conv)

lemma timerRepo_GetByID_row:
  assumes "timerRepo_GetByID i ses d = (Inr (Some t), d')"
  shows "t \<in> set (timers d) \<and> visible_timer i t"
proof -
  have "query (read_stmt (\<lambda>d. first_row (filter (visible_timer i) (timers d)))) ses d = (Inr (Some t), d')"
    using assms by (simp add: timerRepo_GetByID_def op_wrap_Inr)
  then show ?thesis using query_read_Inr first_row_filter by metis
qed

lemma list_count_Inr:
  "list_count req ses d = (Inr n, d') \<Longrightarrow> n = int (length (filter (timer_list_filter req) (timers d)))"
  by (auto simp: list_count_def op_wrap_Inr dest!: query_read_Inr)

lemma list_find_Inr:
  "list_find req ses d = (Inr items, d') \<Longrightarrow>
     items = sql_page (page_offset (lr_Page req) (lr_PageSize req)) (lr_PageSize req)
       (newest_first (filter (timer_list_filter req) (timers d)))"
  by (auto simp: list_find_def op_wrap_Inr dest!: query_read_Inr)

lemma timerRepo_List_find:
  assumes "timerRepo_List req w = (Inr (items, n), w')"
  obtains ses d d' where "list_find req ses d = (Inr items, d')"
  using assms
  by (auto simp: timerRepo_List_def call_def split: prod.splits sum.splits)

lemma length_sql_page: "length (sql_page o' n rs) \<le> length rs"
  by (auto simp: sql_page_def list_take_def)

lemma set_sql_page: "set (sql_page o' n rs) \<subseteq> set rs"
  unfolding sql_page_def by (auto dest!: set_list_take dest: in_set_dropD)

lemma timerRepo_Create_row:
  assumes "timerRepo_Create t ses d = (Inr t', d')"
  obtains u where "t' = create_timer_row (timer_seq d) u (timer_defaults t)"
proof -
  have "ensures ses (\<lambda>x. x = d) (insert_timer (timer_defaults t))
      (\<lambda>r _. \<exists>u. r = create_timer_row (timer_seq d) u (timer_defaults t))"
    by (rule tm.ensures_insert) auto
  from transaction_ok [OF this refl] assms that show ?thesis
    by (auto simp: timerRepo_Create_def op_wrap_Inr)
qed

interpretation world_timers: timer_repository world_timer_repo world_ok
proof
  fix s i req t t' s' items total_rows to "from" "next"
  show "world_ok s \<Longrightarrow> td_Status t = TimerStatusInactive \<Longrightarrow> td_NextFireAt t = None \<Longrightarrow>
      world_ok (snd (tr_Create world_timer_repo t s))"
    unfolding world_timer_repo_def
    by (simp, erule snd_call_ok, erule timerRepo_Create_ok [rotated 2])
       (auto simp: timer_row_ok_def timer_defaults_def)
  show "tr_Create world_timer_repo t s = (Inr t', s') \<Longrightarrow>
      td_Status t = TimerStatusInactive \<Longrightarrow> td_Status t' = TimerStatusInactive"
    by (auto simp: world_timer_repo_def call_def timer_defaults_def create_timer_row_def
        split: prod.splits elim!: timerRepo_Create_row)
  show "world_ok s \<Longrightarrow> world_ok (snd (tr_GetByID world_timer_repo i s))"
    unfolding world_timer_repo_def
    by (simp, erule snd_call_ok) (auto dest: timerRepo_GetByID_state)
  show "tr_GetByID world_timer_repo i s = (Inr (Some t), s') \<Longrightarrow>
      td_ID t = i \<and> td_Status t \<noteq> TimerStatusDeleted"
    by (auto simp: world_timer_repo_def call_def visible_timer_def
        split: prod.splits dest!: timerRepo_GetByID_row)
  show "world_ok s \<Longrightarrow> world_ok (snd (tr_Delete world_timer_repo i s))"
    unfolding world_timer_repo_def
    by (simp, erule snd_call_ok) (rule timerRepo_Delete_ok)
  show "world_ok s \<Longrightarrow> world_ok (snd (tr_List world_timer_repo req s))"
    unfolding world_timer_repo_def
    by (simp add: timerRepo_List_ok)
  show "world_ok s \<Longrightarrow> world_ok (snd (tr_CountListByStatus world_timer_repo req s))"
    unfolding world_timer_repo_def
    by (simp, erule snd_call_ok) (auto dest: timerRepo_CountListByStatus_state)
  show "world_ok s \<Longrightarrow>
      to = TimerStatusActive \<and> next \<noteq> None \<or> to = TimerStatusInactive \<and> next = None \<Longrightarrow>
      world_ok (snd (tr_UpdateScheduleState world_timer_repo i from to next s))"
    unfolding world_timer_repo_def
    by (simp, erule snd_call_ok, erule timerRepo_UpdateScheduleState_ok) auto
  show "world_ok s \<Longrightarrow> world_ok (snd (tr_CountByStatus world_timer_repo s))"
    unfolding world_timer_repo_def
    by (simp, erule snd_call_ok) (auto dest: timerRepo_CountByStatus_state)
next
  fix req s items total_rows s'
  assume "tr_List world_timer_repo req s = (Inr (items, total_rows), s')"
  then obtain ses d d' where "list_find req ses d = (Inr items, d')"
    by (auto simp: world_timer_repo_def elim: timerRepo_List_find)
  note l = list_find_Inr [OF this]
  show "0 \<le> lr_PageSize req \<Longrightarrow> int (length items) \<le> lr_PageSize req"
    by (simp add: l sql_page_def list_take_def)
  fix t assume "t \<in> set items"
  with l set_sql_page show "timer_list_filter req t"
    by (fastforce simp: newest_first_def)
qed

text \<open>Alone with its database, a list returns the requested page of the matching rows and
  their number.\<close>

lemma timerRepo_List_alone:
  assumes "\<And>n d. w_interfere w n d = d" "timerRepo_List req w = (Inr (items, n), w')"
  shows "n = int (length (filter (timer_list_filter req) (timers (w_db w))))"
    and "items = sql_page (page_offset (lr_Page req) (lr_PageSize req)) (lr_PageSize req)
       (newest_first (filter (timer_list_filter req) (timers (w_db w))))"
proof -
  let ?ses = "w_sessions w (w_calls w)" and ?ses' = "w_sessions w (Suc (w_calls w))"
  obtain r d1 where c: "list_count req ?ses (w_db w) = (r, d1)" by force
  with list_queries_state(1) [of req ?ses "w_db w"] have d1: "d1 = w_db w" by simp
  obtain r' d2 where f: "list_find req ?ses' (w_db w) = (r', d2)" by force
  from assms(2) have "r = Inr n" "r' = Inr items"
    using c f by (auto simp: timerRepo_List_def call_def assms(1) d1 split: sum.splits prod.splits)
  with c f show "n = int (length (filter (timer_list_filter req) (timers (w_db w))))"
    "items = sql_page (page_offset (lr_Page req) (lr_PageSize req)) (lr_PageSize req)
       (newest_first (filter (timer_list_filter req) (timers (w_db w))))"
    by (auto dest: list_count_Inr list_find_Inr)
qed

end
