(* ===== verification/Scheduler_Repo.thy ===== *)
theory Scheduler_Repo
  imports Db_Invariant
begin

text \<open>
  \<^verbatim>\<open>internal/repository/scheduler_repo.go\<close>: one transaction that locks a batch of due Timers,
  lets a resolver apply cron and misfire policy to each, inserts the Executions with their READY
  events, and advances \<^verbatim>\<open>next_fire_at\<close>.  The relation \<open>schedule_rel\<close> says what the batch has
  done after any prefix of its work; it is the loop invariant of both loops and, at the end, the
  specification of the whole transaction.
\<close>

section \<open>The transaction\<close>

type_synonym resolver = "TimerDefinition \<Rightarrow> time \<Rightarrow> (time list \<times> time) result"

record ScheduleBatchResult =
  sb_Timers :: int
  sb_Executions :: int
  sb_Duplicates :: int

definition no_batch :: ScheduleBatchResult where
  "no_batch = \<lparr>sb_Timers = 0, sb_Executions = 0, sb_Duplicates = 0\<rparr>"

definition buildRequestSnapshot :: "TimerDefinition \<Rightarrow> json result" where
  "buildRequestSnapshot definition' =
     (case (if td_CallbackHeaders definition' \<noteq> []
            then unmarshal_string_map (td_CallbackHeaders definition') else Inr []) of
        Inl e \<Rightarrow> Inl e
      | Inr headers \<Rightarrow>
          Inr (marshal_snapshot
            \<lparr>cs_URL = td_CallbackURL definition', cs_Method = td_CallbackMethod definition',
             cs_Body = td_CallbackBody definition', cs_Headers = headers\<rparr>))"

definition pending_execution :: "int \<Rightarrow> time \<Rightarrow> json \<Rightarrow> time \<Rightarrow> TimerExecution" where
  "pending_execution timerID now snapshot scheduledAt =
     \<lparr>te_ID = 0, te_TimerID = timerID, te_ScheduledAt = scheduledAt,
      te_Status = ExecutionStatusPending, te_Attempt = 0, te_MaxAttempts = 3,
      te_NextAttemptAt = None, te_LeaseOwner = [], te_LeaseUntil = None, te_RunToken = [],
      te_LastEnqueuedAt = Some now, te_RequestSnapshot = snapshot, te_StartedAt = None,
      te_FinishedAt = None, te_ResponseCode = 0, te_ResponseBody = [], te_ErrorMessage = [],
      te_DurationMS = 0, te_CreatedAt = zero_time, te_UpdatedAt = zero_time\<rparr>"

text \<open>The members of the payload in the order \<^verbatim>\<open>json.Marshal\<close> writes a map.\<close>

definition ready_payload :: "int \<Rightarrow> time \<Rightarrow> json" where
  "ready_payload executionID now =
     JObj [(''created_at'', JTime now), (''event_id'', JStr (ready_event_id executionID)),
           (''event_type'', JStr OutboxEventExecutionReady), (''execution_id'', JNum executionID)]"

definition new_event :: "string \<Rightarrow> int \<Rightarrow> string \<Rightarrow> json \<Rightarrow> time \<Rightarrow> OutboxEvent" where
  "new_event eventID aggregateID eventType payload availableAt =
     \<lparr>oe_ID = 0, oe_EventID = eventID, oe_AggregateType = OutboxAggregateTimerExecution,
      oe_AggregateID = aggregateID, oe_EventType = eventType, oe_Payload = payload,
      oe_AvailableAt = availableAt, oe_PublishedAt = None, oe_PublishedMessageID = [],
      oe_Attempts = 0, oe_NextAttemptAt = None, oe_ClaimOwner = [], oe_ClaimUntil = None,
      oe_LastError = [], oe_CreatedAt = zero_time, oe_UpdatedAt = zero_time\<rparr>"

definition ready_event :: "int \<Rightarrow> time \<Rightarrow> OutboxEvent" where
  "ready_event executionID now =
     new_event (ready_event_id executionID) executionID OutboxEventExecutionReady
       (ready_payload executionID now) now"

definition create_occurrence ::
  "TimerDefinition \<Rightarrow> time \<Rightarrow> json \<Rightarrow> time \<Rightarrow> ScheduleBatchResult \<Rightarrow> ScheduleBatchResult tx" where
  "create_occurrence definition' now requestSnapshot scheduledAt res =
     tx_bind
       (tx_wrap ''create execution''
          (insert_execution_ignore (pending_execution (td_ID definition') now requestSnapshot scheduledAt)))
       (\<lambda>created. case created of
          None \<Rightarrow> tx_return (res\<lparr>sb_Duplicates := sb_Duplicates res + 1\<rparr>)
        | Some execution \<Rightarrow>
            tx_bind
              (tx_wrap ''create outbox event'' (insert_outbox (ready_event (te_ID execution) now)))
              (\<lambda>_. tx_return (res\<lparr>sb_Executions := sb_Executions res + 1\<rparr>)))"

definition due_timer :: "time \<Rightarrow> TimerDefinition \<Rightarrow> bool" where
  "due_timer now t \<longleftrightarrow>
     td_Status t = TimerStatusActive \<and>
     (case td_NextFireAt t of None \<Rightarrow> False | Some f \<Rightarrow> f \<le> now)"

text \<open>\<^verbatim>\<open>ORDER BY next_fire_at ASC, id ASC\<close>: the rows come in key order and the sort is
  stable.\<close>

definition by_next_fire :: "TimerDefinition list \<Rightarrow> TimerDefinition list" where
  "by_next_fire ts = sort_key (\<lambda>t. case td_NextFireAt t of None \<Rightarrow> zero_time | Some f \<Rightarrow> f) ts"

definition same_version :: "TimerDefinition \<Rightarrow> TimerDefinition \<Rightarrow> bool" where
  "same_version definition' t \<longleftrightarrow> td_ID t = td_ID definition' \<and> td_Version t = td_Version definition'"

definition advance_timer :: "time \<Rightarrow> TimerDefinition \<Rightarrow> TimerDefinition" where
  "advance_timer nextFireAt t = t\<lparr>td_NextFireAt := Some nextFireAt, td_Version := td_Version t + 1\<rparr>"

definition schedule_timer ::
  "resolver \<Rightarrow> time \<Rightarrow> TimerDefinition \<Rightarrow> ScheduleBatchResult \<Rightarrow> ScheduleBatchResult tx" where
  "schedule_timer resolve now definition' res =
     (case resolve definition' now of
        Inl e \<Rightarrow>
          tx_throw (wrap_err (''resolve occurrences for timer '' @ show_int (td_ID definition')) e)
      | Inr (occurrences, nextFireAt) \<Rightarrow>
     (if IsZero nextFireAt then
        tx_throw (''timer '' @ show_int (td_ID definition') @ '' has an empty next_fire_at'')
      else
     (case buildRequestSnapshot definition' of
        Inl e \<Rightarrow>
          tx_throw (wrap_err (''build request snapshot for timer '' @ show_int (td_ID definition')) e)
      | Inr requestSnapshot \<Rightarrow>
          tx_bind (tx_each (create_occurrence definition' now requestSnapshot) occurrences res)
            (\<lambda>res. tx_bind
               (tx_wrap ''advance next_fire_at''
                  (update_timers (same_version definition') (advance_timer nextFireAt)))
               (\<lambda>affected.
                  if affected \<noteq> 1 then
                    tx_throw (''next_fire_at version conflict, timer_id='' @ show_int (td_ID definition'))
                  else tx_return (res\<lparr>sb_Timers := sb_Timers res + 1\<rparr>))))))"

definition ScheduleDueBatch :: "time \<Rightarrow> int \<Rightarrow> resolver \<Rightarrow> ScheduleBatchResult db_op" where
  "ScheduleDueBatch now batchSize resolve =
     transaction
       (tx_bind (tx_wrap ''claim due timers'' (lock_timers by_next_fire batchSize (due_timer now)))
          (\<lambda>ts. tx_each (schedule_timer resolve now) ts no_batch))"

section \<open>What the batch has done\<close>

text \<open>The keys an INSERT that ignores duplicates adds to a table with the keys \<open>old\<close>.\<close>

fun new_keys :: "'k list \<Rightarrow> 'k list \<Rightarrow> 'k list" where
  "new_keys old [] = []"
| "new_keys old (k # ks) =
     (if k \<in> set old then new_keys old ks else k # new_keys (k # old) ks)"

lemma new_keys_snoc:
  "new_keys old (ks @ [k]) =
     new_keys old ks @ (if k \<in> set old \<union> set (new_keys old ks) then [] else [k])"
  by (induction old ks rule: new_keys.induct) auto

lemma set_new_keys: "set (new_keys old ks) = set ks - set old"
  by (induction old ks rule: new_keys.induct) auto

lemma distinct_new_keys: "distinct (new_keys old ks)"
  by (induction old ks rule: new_keys.induct) (auto simp: set_new_keys)

lemma length_new_keys: "length (new_keys old ks) \<le> length ks"
  by (induction old ks rule: new_keys.induct) auto

definition fresh_execution :: "db \<Rightarrow> time \<Rightarrow> TimerExecution \<Rightarrow> bool" where
  "fresh_execution d0 now e \<longleftrightarrow>
     (\<exists>i u t snapshot. t \<in> set (timers d0) \<and> buildRequestSnapshot t = Inr snapshot \<and>
        e = create_execution_row i u (pending_execution (td_ID t) now snapshot (te_ScheduledAt e)))"

definition ready_for :: "time \<Rightarrow> TimerExecution \<Rightarrow> OutboxEvent \<Rightarrow> bool" where
  "ready_for now e o' \<longleftrightarrow> (\<exists>i u. o' = create_outbox_row i u (ready_event (te_ID e) now))"

definition batch_news ::
  "db \<Rightarrow> time \<Rightarrow> (int \<times> time) list \<Rightarrow> ScheduleBatchResult \<Rightarrow> db \<Rightarrow> TimerExecution list \<Rightarrow>
     OutboxEvent list \<Rightarrow> bool" where
  "batch_news d0 now ks res d news evs \<longleftrightarrow>
     executions d = executions d0 @ news \<and> outbox d = outbox d0 @ evs \<and>
     list_all2 (ready_for now) news evs \<and>
     map schedule_key news = new_keys (map schedule_key (executions d0)) ks \<and>
     (\<forall>e \<in> set news. fresh_execution d0 now e) \<and>
     sb_Executions res = int (length news) \<and>
     sb_Executions res + sb_Duplicates res = int (length ks)"

text \<open>\<open>nexts\<close> lists the Timers already advanced, with their new trigger times.\<close>

definition advanced :: "(int \<times> time) list \<Rightarrow> TimerDefinition \<Rightarrow> TimerDefinition \<Rightarrow> bool" where
  "advanced nexts t t' \<longleftrightarrow>
     (case map_of nexts (td_ID t) of
        None \<Rightarrow> t' = t
      | Some n \<Rightarrow> (\<exists>u. t' = touch_timer u (advance_timer n t)))"

definition schedule_rel ::
  "db \<Rightarrow> time \<Rightarrow> (int \<times> time) list \<Rightarrow> (int \<times> time) list \<Rightarrow> ScheduleBatchResult \<Rightarrow> db \<Rightarrow> bool" where
  "schedule_rel d0 now nexts ks res d \<longleftrightarrow>
     db_ok d \<and> (\<exists>news evs. batch_news d0 now ks res d news evs) \<and>
     sb_Timers res = int (length nexts) \<and> list_all2 (advanced nexts) (timers d0) (timers d)"

lemma advanced_id: "advanced nexts t t' \<Longrightarrow> td_ID t' = td_ID t"
  by (auto simp: advanced_def touch_timer_def advance_timer_def split: option.splits)

lemma list_all2_partner:
  assumes "list_all2 R xs ys" "x \<in> set xs"
  obtains y where "y \<in> set ys" "R x y"
  using assms by (induction rule: list_all2_induct) auto

lemma schedule_rel_timers:
  assumes "schedule_rel d0 now nexts ks res d" "t \<in> set (timers d0)"
  shows "\<exists>t' \<in> set (timers d). td_ID t' = td_ID t"
proof -
  have "list_all2 (advanced nexts) (timers d0) (timers d)"
    using assms(1) by (simp add: schedule_rel_def)
  from this assms(2) obtain t' where "t' \<in> set (timers d)" "advanced nexts t t'"
    by (rule list_all2_partner)
  then show ?thesis using advanced_id by blast
qed

lemma schedule_rel_start: "db_ok d \<Longrightarrow> schedule_rel d now [] [] no_batch d"
  by (simp add: schedule_rel_def batch_news_def no_batch_def advanced_def list_all2_refl)

subsection \<open>One occurrence\<close>

lemma pending_row_ok: "execution_row_ok (create_execution_row i u (pending_execution t now s at))"
  by (simp add: execution_row_ok_def create_execution_row_def pending_execution_def)

lemma batch_news_duplicate:
  assumes "batch_news d0 now ks res d news evs" "x \<in> set (executions d)" "schedule_key x = k"
  shows "batch_news d0 now (ks @ [k]) (res\<lparr>sb_Duplicates := sb_Duplicates res + 1\<rparr>) d news evs"
proof -
  have n: "map schedule_key news = new_keys (map schedule_key (executions d0)) ks"
    and x: "executions d = executions d0 @ news" using assms(1) by (simp_all add: batch_news_def)
  from x assms(2,3) have "k \<in> set (map schedule_key (executions d0)) \<union> set (map schedule_key news)"
    by auto
  then have "new_keys (map schedule_key (executions d0)) (ks @ [k]) =
      new_keys (map schedule_key (executions d0)) ks"
    unfolding new_keys_snoc n by simp
  with assms(1) show ?thesis unfolding batch_news_def by simp
qed

lemma batch_news_insert:
  assumes "batch_news d0 now ks res d news evs" "fresh_execution d0 now e" "ready_for now e o'"
    and "\<forall>x \<in> set (executions d). schedule_key x \<noteq> schedule_key e"
    and "executions d' = executions d @ [e]" "outbox d' = outbox d @ [o']"
  shows "batch_news d0 now (ks @ [schedule_key e]) (res\<lparr>sb_Executions := sb_Executions res + 1\<rparr>) d'
    (news @ [e]) (evs @ [o'])"
proof -
  have n: "map schedule_key news = new_keys (map schedule_key (executions d0)) ks"
    and x: "executions d = executions d0 @ news" using assms(1) by (simp_all add: batch_news_def)
  from x assms(4) have "schedule_key e \<notin> set (map schedule_key (executions d0)) \<union> set (map schedule_key news)"
    by auto
  then have "new_keys (map schedule_key (executions d0)) (ks @ [schedule_key e]) =
      map schedule_key (news @ [e])"
    unfolding new_keys_snoc n by (simp add: n)
  with assms show ?thesis unfolding batch_news_def by (auto intro: list_all2_appendI)
qed

lemma ready_event_fresh:
  assumes "db_ok d" "o' \<in> set (outbox d)"
  shows "oe_EventID o' \<noteq> ready_event_id (execution_seq d)"
proof
  assume id: "oe_EventID o' = ready_event_id (execution_seq d)"
  obtain e where e: "e \<in> set (executions d)" "event_of e o'" using assms by (rule event_execution)
  with id have "te_ID e = execution_seq d" by (auto simp: event_of_def)
  with table_ok_bounds [OF db_okD(2) [OF assms(1)] e(1)] show False by simp
qed

lemma ready_row:
  assumes "o' = create_outbox_row i u (ready_event (te_ID e) now)"
  shows "outbox_row_ok o'" "oe_AggregateType o' = OutboxAggregateTimerExecution" "event_of e o'"
    "ready_for now e o'"
  using assms
  by (auto simp: outbox_row_ok_def event_of_def ready_for_def create_outbox_row_def ready_event_def
      new_event_def)

text \<open>The state between the two inserts of an occurrence.\<close>

definition inserted ::
  "db \<Rightarrow> time \<Rightarrow> (int \<times> time) list \<Rightarrow> (int \<times> time) list \<Rightarrow> ScheduleBatchResult \<Rightarrow> TimerExecution \<Rightarrow> db \<Rightarrow> bool" where
  "inserted d0 now nexts ks res e d \<longleftrightarrow>
     (\<exists>d1. schedule_rel d0 now nexts ks res d1 \<and> te_ID e = execution_seq d1 \<and>
        fresh_execution d0 now e \<and> (\<forall>x \<in> set (executions d1). schedule_key x \<noteq> schedule_key e) \<and>
        d = bump_executions (put_executions (executions d1 @ [e]) d1) \<and> db_ok d)"

lemma insert_execution_step:
  assumes t: "t \<in> set (timers d0)" "buildRequestSnapshot t = Inr snapshot"
    and rel: "schedule_rel d0 now nexts ks res d"
    and e: "e = create_execution_row (execution_seq d) u (pending_execution (td_ID t) now snapshot at)"
    and new: "\<forall>x \<in> set (executions d). \<not> same_schedule e x"
  shows "inserted d0 now nexts ks res e (bump_executions (put_executions (executions d @ [e]) d))"
proof -
  let ?d = "bump_executions (put_executions (executions d @ [e]) d)"
  have id: "te_ID e = execution_seq d" "te_TimerID e = td_ID t" "te_ScheduledAt e = at"
    by (simp_all add: e create_execution_row_def pending_execution_def)
  have "db_ok d" using rel by (simp add: schedule_rel_def)
  then have "db_ok ?d"
    using e new schedule_rel_timers [OF rel t(1)] id
    by (intro db_ok_insert_execution [OF _ _ e]) (auto simp: pending_row_ok)
  moreover have "e = create_execution_row (execution_seq d) u
      (pending_execution (td_ID t) now snapshot (te_ScheduledAt e))"
    by (subst id(3)) (rule e)
  then have "fresh_execution d0 now e"
    using t unfolding fresh_execution_def by blast
  moreover have "\<forall>x \<in> set (executions d). schedule_key x \<noteq> schedule_key e"
    using new by (auto simp: schedule_key_def same_schedule_def)
  ultimately show ?thesis unfolding inserted_def using rel id(1) by blast
qed

lemma insert_event_step:
  assumes "inserted d0 now nexts ks res e d"
    and o': "o' = create_outbox_row (outbox_seq d) u (ready_event (te_ID e) now)"
    and new: "\<forall>x \<in> set (outbox d). \<not> same_event o' x"
  shows "schedule_rel d0 now nexts (ks @ [schedule_key e]) (res\<lparr>sb_Executions := sb_Executions res + 1\<rparr>)
    (bump_outbox (put_outbox (outbox d @ [o']) d))"
proof -
  let ?d = "bump_outbox (put_outbox (outbox d @ [o']) d)"
  obtain d1 news evs where rel: "schedule_rel d0 now nexts ks res d1"
    and news: "batch_news d0 now ks res d1 news evs" and fresh: "fresh_execution d0 now e"
    and key: "\<forall>x \<in> set (executions d1). schedule_key x \<noteq> schedule_key e"
    and d: "d = bump_executions (put_executions (executions d1 @ [e]) d1)" and ok: "db_ok d"
    using assms(1) unfolding inserted_def schedule_rel_def by blast
  have e: "e \<in> set (executions d)" by (simp add: d table_defs)
  have "db_ok ?d"
    using ready_row [OF o'] e new by (intro db_ok_insert_outbox [OF ok _ o']) auto
  moreover have "batch_news d0 now (ks @ [schedule_key e])
      (res\<lparr>sb_Executions := sb_Executions res + 1\<rparr>) ?d (news @ [e]) (evs @ [o'])"
    using news fresh ready_row(4) [OF o'] key
    by (rule batch_news_insert) (simp_all add: d table_defs)
  ultimately show ?thesis
    using rel unfolding schedule_rel_def by (auto simp: d table_defs)
qed

lemma create_occurrence_ensures:
  assumes "t \<in> set (timers d0)" "buildRequestSnapshot t = Inr snapshot"
  shows "ensures ses (schedule_rel d0 now nexts ks res) (create_occurrence t now snapshot at res)
    (schedule_rel d0 now nexts (ks @ [(td_ID t, at)]))"
proof -
  let ?p = "pending_execution (td_ID t) now snapshot at"
  let ?mid = "\<lambda>c d. case c of
      None \<Rightarrow> schedule_rel d0 now nexts (ks @ [(td_ID t, at)]) (res\<lparr>sb_Duplicates := sb_Duplicates res + 1\<rparr>) d
    | Some e \<Rightarrow> schedule_key e = (td_ID t, at) \<and> inserted d0 now nexts ks res e d"
  have key: "schedule_key (create_execution_row i u ?p) = (td_ID t, at)" for i u
    by (simp add: schedule_key_def create_execution_row_def pending_execution_def)
  have ins: "ensures ses (schedule_rel d0 now nexts ks res) (insert_execution_ignore ?p) ?mid"
  proof (rule ex.ensures_insert_ignore)
    fix u d assume rel: "schedule_rel d0 now nexts ks res d"
    {
      assume "\<forall>x \<in> set (executions d). \<not> same_schedule (create_execution_row (execution_seq d) u ?p) x"
      from insert_execution_step [OF assms rel refl this] key
      show "?mid (Some (create_execution_row (execution_seq d) u ?p)) (bump_executions (put_executions
          (executions d @ [create_execution_row (execution_seq d) u ?p]) d))" by simp
    }
    fix x assume "x \<in> set (executions d)" "same_schedule (create_execution_row (execution_seq d) u ?p) x"
    with key [of "execution_seq d" u] have "x \<in> set (executions d)" "schedule_key x = (td_ID t, at)"
      by (auto simp: schedule_key_def same_schedule_def)
    with rel batch_news_duplicate show "?mid None d" unfolding schedule_rel_def by fastforce
  qed
  have ev: "ensures ses (?mid (Some e)) (insert_outbox (ready_event (te_ID e) now))
      (\<lambda>_. schedule_rel d0 now nexts (ks @ [(td_ID t, at)]) (res\<lparr>sb_Executions := sb_Executions res + 1\<rparr>))" for e
    by (rule ob.ensures_insert) (use insert_event_step in fastforce)
  show ?thesis
    unfolding create_occurrence_def
  proof (rule ensures_bind [OF ensures_wrap [OF ins]])
    fix c
    show "ensures ses (?mid c) (case c of None \<Rightarrow> tx_return (res\<lparr>sb_Duplicates := sb_Duplicates res + 1\<rparr>)
        | Some execution \<Rightarrow> tx_bind (tx_wrap ''create outbox event''
            (insert_outbox (ready_event (te_ID execution) now)))
            (\<lambda>_. tx_return (res\<lparr>sb_Executions := sb_Executions res + 1\<rparr>)))
        (schedule_rel d0 now nexts (ks @ [(td_ID t, at)]))"
    proof (cases c)
      case (Some e)
      show ?thesis
        unfolding Some option.case
        by (rule ensures_bind [OF ensures_wrap [OF ev [unfolded option.case]]]) (rule ensures_return)
    qed (simp add: ensures_return)
  qed
qed

subsection \<open>One Timer\<close>

definition resolved :: "resolver \<Rightarrow> time \<Rightarrow> TimerDefinition \<Rightarrow> time list \<times> time" where
  "resolved resolve now t = (case resolve t now of Inl _ \<Rightarrow> ([], zero_time) | Inr r \<Rightarrow> r)"

definition timer_keys :: "resolver \<Rightarrow> time \<Rightarrow> TimerDefinition \<Rightarrow> (int \<times> time) list" where
  "timer_keys resolve now t = map (\<lambda>at. (td_ID t, at)) (fst (resolved resolve now t))"

definition timer_next :: "resolver \<Rightarrow> time \<Rightarrow> TimerDefinition \<Rightarrow> int \<times> time" where
  "timer_next resolve now t = (td_ID t, snd (resolved resolve now t))"

lemma list_all2_update_rows:
  assumes "list_all2 R xs ys" "\<And>x y. x \<in> set xs \<Longrightarrow> y \<in> set ys \<Longrightarrow> R x y \<Longrightarrow> S x (if P y then g y else y)"
  shows "list_all2 S xs (update_rows P g ys)"
  using assms by (induction rule: list_all2_induct) auto

lemma advanced_snoc_other: "td_ID t \<noteq> i \<Longrightarrow> advanced (nexts @ [(i, n)]) t t' \<longleftrightarrow> advanced nexts t t'"
  by (simp add: advanced_def map_add_def split: option.splits)

lemma advanced_pending: "td_ID t \<notin> fst ` set nexts \<Longrightarrow> advanced nexts t t' \<longleftrightarrow> t' = t"
  using map_of_eq_None_iff [of nexts "td_ID t"] by (auto simp: advanced_def split: option.splits)

lemma advanced_snoc_self:
  "td_ID t = i \<Longrightarrow> i \<notin> fst ` set nexts \<Longrightarrow>
     advanced (nexts @ [(i, n)]) t (touch_timer u (advance_timer n t))"
  using map_of_eq_None_iff [of nexts i] by (auto simp: advanced_def map_add_def)

lemma advance_step:
  assumes ok: "db_ok d0" and rel: "schedule_rel d0 now nexts ks res d"
    and t: "t \<in> set (timers d0)" "due_timer now t" "td_ID t \<notin> fst ` set nexts"
  shows "schedule_rel d0 now (nexts @ [(td_ID t, n)]) ks (res\<lparr>sb_Timers := sb_Timers res + 1\<rparr>)
    (put_timers (update_rows (same_version t) (\<lambda>r. touch_timer u (advance_timer n r)) (timers d)) d)"
proof -
  let ?g = "\<lambda>r. touch_timer u (advance_timer n r)"
  let ?d = "put_timers (update_rows (same_version t) ?g (timers d)) d"
  have adv: "list_all2 (advanced nexts) (timers d0) (timers d)" and okd: "db_ok d"
    using rel by (simp_all add: schedule_rel_def)
  have same: "r = t" if r: "r \<in> set (timers d)" "same_version t r" for r
  proof -
    from adv t(1) obtain t' where t': "t' \<in> set (timers d)" "advanced nexts t t'"
      by (rule list_all2_partner)
    with t(3) have "t' = t" by (simp add: advanced_pending)
    with t' r timer_by_id [OF okd] show ?thesis by (simp add: same_version_def)
  qed
  have "db_ok ?d"
  proof (rule db_ok_update_timers [OF okd])
    show "td_ID (?g r) = td_ID r" for r by (simp add: touch_timer_def advance_timer_def)
    fix r assume "r \<in> set (timers d)" "same_version t r"
    with same t(2) show "timer_row_ok (?g r)"
      by (auto simp: timer_row_ok_def due_timer_def touch_timer_def advance_timer_def)
  qed
  moreover have "list_all2 (advanced (nexts @ [(td_ID t, n)])) (timers d0)
      (update_rows (same_version t) ?g (timers d))"
    using adv
  proof (rule list_all2_update_rows)
    fix x y assume x: "x \<in> set (timers d0)" and y: "y \<in> set (timers d)" and xy: "advanced nexts x y"
    show "advanced (nexts @ [(td_ID t, n)]) x (if same_version t y then ?g y else y)"
    proof (cases "td_ID x = td_ID t")
      case True
      with x t(1) timer_by_id [OF ok] have "x = t" by blast
      with xy t(3) have "y = t" by (simp add: advanced_pending)
      with \<open>x = t\<close> t(3) show ?thesis by (simp add: same_version_def advanced_snoc_self)
    next
      case False
      with xy advanced_id [OF xy] show ?thesis by (simp add: same_version_def advanced_snoc_other)
    qed
  qed
  moreover obtain news evs where "batch_news d0 now ks res d news evs"
    using rel unfolding schedule_rel_def by blast
  then have "batch_news d0 now ks (res\<lparr>sb_Timers := sb_Timers res + 1\<rparr>) ?d news evs"
    by (simp add: batch_news_def put_timers_def)
  then have "\<exists>news evs. batch_news d0 now ks (res\<lparr>sb_Timers := sb_Timers res + 1\<rparr>) ?d news evs"
    by blast
  moreover have "sb_Timers res = int (length nexts)" using rel by (simp add: schedule_rel_def)
  ultimately show ?thesis
    unfolding schedule_rel_def tm.rows_put by simp
qed

lemma occurrences_ensures:
  assumes "t \<in> set (timers d0)" "buildRequestSnapshot t = Inr snapshot"
  shows "ensures ses (schedule_rel d0 now nexts ks res)
    (tx_each (create_occurrence t now snapshot) occs res)
    (schedule_rel d0 now nexts (ks @ map (\<lambda>at. (td_ID t, at)) occs))"
proof -
  let ?R = "\<lambda>xs b. schedule_rel d0 now nexts (ks @ map (\<lambda>at. (td_ID t, at)) xs) b"
  have "ensures ses (?R [] res) (tx_each (create_occurrence t now snapshot) occs res) (\<lambda>b d. ?R occs b d)"
  proof (rule ensures_each)
    fix xs x ys b
    show "ensures ses (?R xs b) (create_occurrence t now snapshot x b) (\<lambda>b' d. ?R (xs @ [x]) b' d)"
      using create_occurrence_ensures [OF assms, where ks = "ks @ map (\<lambda>at. (td_ID t, at)) xs"]
      by simp
  qed
  then show ?thesis by simp
qed

definition timer_done :: "resolver \<Rightarrow> time \<Rightarrow> TimerDefinition \<Rightarrow> bool" where
  "timer_done resolve now t \<longleftrightarrow>
     (\<exists>occs n. resolve t now = Inr (occs, n) \<and> \<not> IsZero n) \<and> (\<exists>s. buildRequestSnapshot t = Inr s)"

lemma schedule_timer_ensures:
  assumes ok: "db_ok d0" and t: "t \<in> set (timers d0)" "due_timer now t" "td_ID t \<notin> fst ` set nexts"
  shows "ensures ses (schedule_rel d0 now nexts ks res) (schedule_timer resolve now t res)
    (\<lambda>res' d. timer_done resolve now t \<and>
       schedule_rel d0 now (nexts @ [timer_next resolve now t]) (ks @ timer_keys resolve now t) res' d)"
    (is "ensures ses ?P ?m ?Q")
proof (cases "resolve t now")
  case (Inl e)
  then show ?thesis by (simp add: schedule_timer_def ensures_throw)
next
  case (Inr r)
  obtain occs n where r: "r = (occs, n)" by force
  show ?thesis
  proof (cases "IsZero n")
    case True
    with Inr r show ?thesis by (simp add: schedule_timer_def ensures_throw)
  next
    case False
    show ?thesis
    proof (cases "buildRequestSnapshot t")
      case (Inl e)
      with Inr r False show ?thesis by (simp add: schedule_timer_def ensures_throw)
    next
      case (Inr snapshot)
      with \<open>resolve t now = _\<close> r False
      have k: "timer_done resolve now t" "timer_next resolve now t = (td_ID t, n)"
        "timer_keys resolve now t = map (\<lambda>at. (td_ID t, at)) occs"
        by (simp_all add: timer_done_def timer_next_def timer_keys_def resolved_def)
      have occ: "ensures ses ?P (tx_each (create_occurrence t now snapshot) occs res)
          (schedule_rel d0 now nexts (ks @ timer_keys resolve now t))"
        unfolding k(3) by (rule occurrences_ensures [OF t(1) Inr])
      have adv: "ensures ses (schedule_rel d0 now nexts (ks @ timer_keys resolve now t) res')
          (tx_wrap ''advance next_fire_at'' (update_timers (same_version t) (advance_timer n)))
          (\<lambda>_. schedule_rel d0 now (nexts @ [timer_next resolve now t]) (ks @ timer_keys resolve now t)
            (res'\<lparr>sb_Timers := sb_Timers res' + 1\<rparr>))" for res'
        by (rule ensures_wrap, rule tm.ensures_update) (simp add: k(2) advance_step [OF ok _ t])
      show ?thesis
        unfolding schedule_timer_def \<open>resolve t now = _\<close> r Inr sum.case prod.case if_not_P [OF False]
      proof (rule ensures_bind [OF occ], rule ensures_bind [OF adv])
        fix res' affected
        show "ensures ses (schedule_rel d0 now (nexts @ [timer_next resolve now t])
            (ks @ timer_keys resolve now t) (res'\<lparr>sb_Timers := sb_Timers res' + 1\<rparr>))
          (if affected \<noteq> 1 then tx_throw (''next_fire_at version conflict, timer_id='' @ show_int (td_ID t))
           else tx_return (res'\<lparr>sb_Timers := sb_Timers res' + 1\<rparr>)) ?Q"
          by (simp add: ensures_throw ensures_return k(1))
      qed
    qed
  qed
qed

subsection \<open>The whole batch\<close>

definition batch_keys :: "resolver \<Rightarrow> time \<Rightarrow> TimerDefinition list \<Rightarrow> (int \<times> time) list" where
  "batch_keys resolve now ts = concat (map (timer_keys resolve now) ts)"

definition batch_nexts :: "resolver \<Rightarrow> time \<Rightarrow> TimerDefinition list \<Rightarrow> (int \<times> time) list" where
  "batch_nexts resolve now ts = map (timer_next resolve now) ts"

text \<open>The Timers a batch takes: due, unlocked, in order, at most as many as the limit.\<close>

definition batch_timers :: "session \<Rightarrow> time \<Rightarrow> int \<Rightarrow> db \<Rightarrow> TimerDefinition list" where
  "batch_timers ses now batchSize d =
     list_take batchSize (by_next_fire
       (filter (\<lambda>t. due_timer now t \<and> \<not> ses_timer_locked ses (td_ID t)) (timers d)))"

lemma batch_timers_props:
  assumes "db_ok d"
  shows "distinct (map td_ID (batch_timers ses now batchSize d))"
    and "t \<in> set (batch_timers ses now batchSize d) \<Longrightarrow>
      t \<in> set (timers d) \<and> due_timer now t \<and> \<not> ses_timer_locked ses (td_ID t)"
proof -
  let ?F = "filter (\<lambda>t. due_timer now t \<and> \<not> ses_timer_locked ses (td_ID t)) (timers d)"
  have "distinct (map td_ID ?F)"
    using db_ok_distinct(1) [OF assms] by (rule distinct_map_filter)
  then have "distinct (map td_ID (by_next_fire ?F))"
    by (simp add: by_next_fire_def distinct_map)
  then show "distinct (map td_ID (batch_timers ses now batchSize d))"
    unfolding batch_timers_def by (rule distinct_list_take)
  show "t \<in> set (batch_timers ses now batchSize d) \<Longrightarrow>
      t \<in> set (timers d) \<and> due_timer now t \<and> \<not> ses_timer_locked ses (td_ID t)"
    unfolding batch_timers_def by (auto simp: by_next_fire_def dest!: set_list_take)
qed

lemma batch_ensures:
  assumes ok: "db_ok d0" and ts: "distinct (map td_ID ts)"
    "\<And>t. t \<in> set ts \<Longrightarrow> t \<in> set (timers d0) \<and> due_timer now t"
  shows "ensures ses (\<lambda>d. d = d0) (tx_each (schedule_timer resolve now) ts no_batch)
    (\<lambda>res d. (\<forall>t \<in> set ts. timer_done resolve now t) \<and>
       schedule_rel d0 now (batch_nexts resolve now ts) (batch_keys resolve now ts) res d)"
proof -
  let ?R = "\<lambda>xs b d. (\<forall>t \<in> set xs. timer_done resolve now t) \<and>
    schedule_rel d0 now (batch_nexts resolve now xs) (batch_keys resolve now xs) b d"
  have "ensures ses (?R [] no_batch) (tx_each (schedule_timer resolve now) ts no_batch) (\<lambda>b d. ?R ts b d)"
  proof (rule ensures_each)
    fix xs x ys b assume split: "ts = xs @ x # ys"
    with ts have x: "x \<in> set (timers d0)" "due_timer now x" by auto
    have "td_ID x \<notin> fst ` set (batch_nexts resolve now xs)"
      using ts(1) split by (auto simp: batch_nexts_def timer_next_def image_iff)
    note step = schedule_timer_ensures [OF ok x this, of ses "batch_keys resolve now xs" b resolve]
    have "ensures ses (?R xs b) (schedule_timer resolve now x b)
       (\<lambda>b' d. (\<forall>t \<in> set xs. timer_done resolve now t) \<and> timer_done resolve now x \<and>
          schedule_rel d0 now (batch_nexts resolve now xs @ [timer_next resolve now x])
            (batch_keys resolve now xs @ timer_keys resolve now x) b' d)"
      using step unfolding ensures_def by blast
    then show "ensures ses (?R xs b) (schedule_timer resolve now x b) (\<lambda>b' d. ?R (xs @ [x]) b' d)"
      by (rule ensures_post) (simp add: batch_nexts_def batch_keys_def)
  qed
  then show ?thesis
    by (rule ensures_pre) (simp add: batch_nexts_def batch_keys_def schedule_rel_start ok)
qed

lemma ScheduleDueBatch_ensures:
  assumes ok: "db_ok d0"
  shows "ensures ses (\<lambda>d. d = d0)
    (tx_bind (tx_wrap ''claim due timers'' (lock_timers by_next_fire batchSize (due_timer now)))
       (\<lambda>ts. tx_each (schedule_timer resolve now) ts no_batch))
    (\<lambda>res d. (\<forall>t \<in> set (batch_timers ses now batchSize d0). timer_done resolve now t) \<and>
       schedule_rel d0 now (batch_nexts resolve now (batch_timers ses now batchSize d0))
         (batch_keys resolve now (batch_timers ses now batchSize d0)) res d)"
proof (rule ensures_bind [OF ensures_wrap])
  let ?ts = "batch_timers ses now batchSize d0"
  show "ensures ses (\<lambda>d. d = d0) (lock_timers by_next_fire batchSize (due_timer now))
      (\<lambda>ts d. ts = ?ts \<and> d = d0)"
    by (rule tm.ensures_select) (simp add: batch_timers_def)
  fix ts
  show "ensures ses (\<lambda>d. ts = ?ts \<and> d = d0) (tx_each (schedule_timer resolve now) ts no_batch)
     (\<lambda>res d. (\<forall>t \<in> set ?ts. timer_done resolve now t) \<and>
       schedule_rel d0 now (batch_nexts resolve now ?ts) (batch_keys resolve now ?ts) res d)"
    using batch_timers_props [OF ok]
    by (intro ensures_known batch_ensures [OF ok]) auto
qed

text \<open>The specification of the transaction: what a successful batch leaves behind.\<close>

lemma ScheduleDueBatch_result:
  assumes "db_ok d0" "ScheduleDueBatch now batchSize resolve ses d0 = (Inr res, d)"
  shows "\<forall>t \<in> set (batch_timers ses now batchSize d0). timer_done resolve now t"
    and "schedule_rel d0 now (batch_nexts resolve now (batch_timers ses now batchSize d0))
      (batch_keys resolve now (batch_timers ses now batchSize d0)) res d"
  using transaction_ok [OF ScheduleDueBatch_ensures [OF assms(1), of ses batchSize now resolve] refl]
    assms(2) unfolding ScheduleDueBatch_def by blast+

lemma ScheduleDueBatch_error:
  "ScheduleDueBatch now batchSize resolve ses d0 = (Inl e, d) \<Longrightarrow> d = d0"
  unfolding ScheduleDueBatch_def by (rule transaction_error)

lemma ScheduleDueBatch_ok:
  assumes "db_ok d0" "ScheduleDueBatch now batchSize resolve ses d0 = (r, d)"
  shows "db_ok d"
proof (cases r)
  case (Inl e)
  with assms ScheduleDueBatch_error show ?thesis by blast
next
  case (Inr res)
  with assms ScheduleDueBatch_result(2) show ?thesis unfolding schedule_rel_def by blast
qed

section \<open>A batch that meets no fault succeeds\<close>

text \<open>The state in which a batch can go on: besides the loop invariant, the keys still to be
  given out stay within their bound \<open>m\<close>, so that the event keys fit their column.\<close>

definition batch_room ::
  "db \<Rightarrow> time \<Rightarrow> (int \<times> time) list \<Rightarrow> (int \<times> time) list \<Rightarrow> int \<Rightarrow> ScheduleBatchResult \<Rightarrow> db \<Rightarrow> bool" where
  "batch_room d0 now nexts ks m res d \<longleftrightarrow> schedule_rel d0 now nexts ks res d \<and> execution_seq d \<le> m"

lemma ready_id_fits: "in_int64 i \<Longrightarrow> varchar 64 (ready_event_id i)"
  using event_id_lengths(1) [of i 0] by (intro varcharI) (simp_all add: in_int64_def int64_min_def int64_max_def)

lemma create_occurrence_seq:
  "ensures ses (\<lambda>d. execution_seq d \<le> m) (create_occurrence t now snapshot at res)
     (\<lambda>_ d. execution_seq d \<le> m + 1)"
  unfolding create_occurrence_def
proof (rule ensures_bind [OF ensures_wrap])
  show "ensures ses (\<lambda>d. execution_seq d \<le> m)
      (insert_execution_ignore (pending_execution (td_ID t) now snapshot at)) (\<lambda>_ d. execution_seq d \<le> m + 1)"
    by (rule ex.ensures_insert_ignore) (auto simp: put_executions_def bump_executions_def)
  fix c
  show "ensures ses (\<lambda>d. execution_seq d \<le> m + 1)
      (case c of None \<Rightarrow> tx_return (res\<lparr>sb_Duplicates := sb_Duplicates res + 1\<rparr>)
       | Some execution \<Rightarrow> tx_bind (tx_wrap ''create outbox event''
           (insert_outbox (ready_event (te_ID execution) now)))
           (\<lambda>_. tx_return (res\<lparr>sb_Executions := sb_Executions res + 1\<rparr>)))
      (\<lambda>_ d. execution_seq d \<le> m + 1)"
  proof (cases c)
    case (Some e)
    have "ensures ses (\<lambda>d. execution_seq d \<le> m + 1) (insert_outbox (ready_event (te_ID e) now))
        (\<lambda>_ d. execution_seq d \<le> m + 1)"
      by (rule ob.ensures_insert) (simp add: put_outbox_def bump_outbox_def)
    from ensures_bind [OF ensures_wrap [OF this] ensures_return] Some show ?thesis by simp
  qed (simp add: ensures_return)
qed

lemma create_occurrence_succeeds:
  assumes "faultless ses" "m \<le> int64_max"
  shows "succeeds ses (\<lambda>d. db_ok d \<and> execution_seq d \<le> m) (create_occurrence t now snapshot at res) (\<lambda>_ _. True)"
  unfolding create_occurrence_def
proof (rule succeeds_bind [OF succeeds_wrap])
  let ?R = "\<lambda>c d. case c of None \<Rightarrow> True
    | Some e \<Rightarrow> in_int64 (te_ID e) \<and> (\<forall>o' \<in> set (outbox d). oe_EventID o' \<noteq> ready_event_id (te_ID e))"
  show "succeeds ses (\<lambda>d. db_ok d \<and> execution_seq d \<le> m)
      (insert_execution_ignore (pending_execution (td_ID t) now snapshot at)) ?R"
  proof (rule ex.succeeds_insert_ignore [OF assms(1)])
    fix u d assume d: "db_ok d \<and> execution_seq d \<le> m"
    show "execution_fits (create_execution_row (execution_seq d) u (pending_execution (td_ID t) now snapshot at))"
      by (simp add: execution_fits_def create_execution_row_def pending_execution_def varcharI text_column_def)
    from d db_okD(2) have "1 \<le> execution_seq d" by (auto simp: table_ok_def)
    with d assms(2) have "in_int64 (execution_seq d)" by (simp add: in_int64_def int64_min_def)
    with d ready_event_fresh show "case Some (create_execution_row (execution_seq d) u
        (pending_execution (td_ID t) now snapshot at)) of None \<Rightarrow> True
      | Some e \<Rightarrow> in_int64 (te_ID e) \<and> (\<forall>o' \<in> set (outbox (bump_executions (put_executions (executions d @
          [create_execution_row (execution_seq d) u (pending_execution (td_ID t) now snapshot at)]) d))).
          oe_EventID o' \<noteq> ready_event_id (te_ID e))"
      by (simp add: create_execution_row_def put_executions_def bump_executions_def)
  qed simp
  fix c
  show "succeeds ses (?R c)
      (case c of None \<Rightarrow> tx_return (res\<lparr>sb_Duplicates := sb_Duplicates res + 1\<rparr>)
       | Some execution \<Rightarrow> tx_bind (tx_wrap ''create outbox event''
           (insert_outbox (ready_event (te_ID execution) now)))
           (\<lambda>_. tx_return (res\<lparr>sb_Executions := sb_Executions res + 1\<rparr>))) (\<lambda>_ _. True)"
  proof (cases c)
    case (Some e)
    have "succeeds ses (?R c) (insert_outbox (ready_event (te_ID e) now)) (\<lambda>_ _. True)"
      by (rule ob.succeeds_insert [OF assms(1)])
         (auto simp: Some outbox_fits_def create_outbox_row_def ready_event_def new_event_def ready_id_fits
            same_event_def varcharI text_column_def OutboxAggregateTimerExecution_def OutboxEventExecutionReady_def)
    then have "succeeds ses (?R c) (tx_wrap ''create outbox event''
        (insert_outbox (ready_event (te_ID e) now))) (\<lambda>_ _. True)" by (rule succeeds_wrap)
    from succeeds_bind [OF this, of "\<lambda>_. tx_return (res\<lparr>sb_Executions := sb_Executions res + 1\<rparr>)" "\<lambda>_ _. True"]
    show ?thesis by (simp add: Some succeeds_return)
  qed (simp add: succeeds_return)
qed

lemma occurrence_room:
  assumes "faultless ses" "t \<in> set (timers d0)" "buildRequestSnapshot t = Inr snapshot" "m < int64_max"
  shows "succeeds ses (batch_room d0 now nexts ks m res) (create_occurrence t now snapshot at res)
    (batch_room d0 now nexts (ks @ [(td_ID t, at)]) (m + 1))"
proof -
  let ?P = "batch_room d0 now nexts ks m res" and ?m = "create_occurrence t now snapshot at res"
  have 0: "succeeds ses ?P ?m (\<lambda>_ _. True)"
    by (rule succeeds_pre [OF create_occurrence_succeeds [OF assms(1)]])
       (use assms(4) in \<open>auto simp: batch_room_def schedule_rel_def\<close>)
  have 1: "ensures ses ?P ?m (schedule_rel d0 now nexts (ks @ [(td_ID t, at)]))"
    by (rule ensures_pre [OF create_occurrence_ensures [OF assms(2,3)]]) (simp add: batch_room_def)
  have 2: "ensures ses ?P ?m (\<lambda>_ d. execution_seq d \<le> m + 1)"
    by (rule ensures_pre [OF create_occurrence_seq]) (simp add: batch_room_def)
  from succeeds_ensures [OF 0 ensures_conj [OF 1 2]] show ?thesis by (simp add: batch_room_def [abs_def])
qed

lemma occurrences_room:
  assumes "faultless ses" "t \<in> set (timers d0)" "buildRequestSnapshot t = Inr snapshot"
    and "m + int (length occs) \<le> int64_max"
  shows "succeeds ses (batch_room d0 now nexts ks m res)
    (tx_each (create_occurrence t now snapshot) occs res)
    (batch_room d0 now nexts (ks @ map (\<lambda>at. (td_ID t, at)) occs) (m + int (length occs)))"
proof -
  let ?R = "\<lambda>xs. batch_room d0 now nexts (ks @ map (\<lambda>at. (td_ID t, at)) xs) (m + int (length xs))"
  have "succeeds ses (?R [] res) (tx_each (create_occurrence t now snapshot) occs res) (\<lambda>b d. ?R occs b d)"
  proof (rule succeeds_each)
    fix xs x ys b assume "occs = xs @ x # ys"
    with assms(4) have "m + int (length xs) < int64_max" by simp
    from occurrence_room [OF assms(1-3) this, of now nexts "ks @ map (\<lambda>at. (td_ID t, at)) xs" b x]
    show "succeeds ses (?R xs b) (create_occurrence t now snapshot x b) (\<lambda>b' d. ?R (xs @ [x]) b' d)"
      by (simp add: algebra_simps)
  qed
  then show ?thesis by simp
qed

lemma advance_room:
  assumes "faultless ses" and ok: "db_ok d0" and t: "t \<in> set (timers d0)" "due_timer now t"
    "td_ID t \<notin> fst ` set nexts" and fits: "timer_fits t"
  shows "succeeds ses (batch_room d0 now nexts ks m res)
    (update_timers (same_version t) (advance_timer n))
    (\<lambda>affected d. affected = 1 \<and>
       batch_room d0 now (nexts @ [(td_ID t, n)]) ks m (res\<lparr>sb_Timers := sb_Timers res + 1\<rparr>) d)"
proof (rule tm.succeeds_update [OF assms(1)])
  fix u d assume room: "batch_room d0 now nexts ks m res d"
  then have rel: "schedule_rel d0 now nexts ks res d" and okd: "db_ok d" and seq: "execution_seq d \<le> m"
    by (simp_all add: batch_room_def schedule_rel_def)
  have "list_all2 (advanced nexts) (timers d0) (timers d)" using rel by (simp add: schedule_rel_def)
  from this t(1) obtain t' where "t' \<in> set (timers d)" "advanced nexts t t'" by (rule list_all2_partner)
  with t(3) have td: "t \<in> set (timers d)" by (simp add: advanced_pending)
  have one: "r = t" if "r \<in> set (timers d)" "same_version t r" for r
    using timer_by_id [OF okd that(1) td] that(2) by (simp add: same_version_def)
  show "timer_fits (touch_timer u (advance_timer n r))" if "r \<in> set (timers d)" "same_version t r" for r
    using one [OF that] fits by (simp add: timer_fits_def touch_timer_def advance_timer_def)
  have "touch_timer u (advance_timer n t) \<noteq> t"
    by (auto simp: touch_timer_def advance_timer_def dest: arg_cong [where f = td_Version])
  with td one have "changed_rows (same_version t) (\<lambda>r. touch_timer u (advance_timer n r)) (timers d) = 1"
    by (subst changed_rows_unique [where key = td_ID and k = "td_ID t", OF db_ok_distinct(1) [OF okd]])
       (auto simp: same_version_def)
  with advance_step [OF ok rel t] seq
  show "changed_rows (same_version t) (\<lambda>r. touch_timer u (advance_timer n r)) (timers d) = 1 \<and>
      batch_room d0 now (nexts @ [(td_ID t, n)]) ks m (res\<lparr>sb_Timers := sb_Timers res + 1\<rparr>)
        (put_timers (update_rows (same_version t) (\<lambda>r. touch_timer u (advance_timer n r)) (timers d)) d)"
    by (simp add: batch_room_def put_timers_def)
qed

lemma schedule_timer_room:
  assumes "faultless ses" and ok: "db_ok d0" and t: "t \<in> set (timers d0)" "due_timer now t"
    "td_ID t \<notin> fst ` set nexts" "timer_fits t"
    and "timer_done resolve now t" "m + int (length (timer_keys resolve now t)) \<le> int64_max"
  shows "succeeds ses (batch_room d0 now nexts ks m res) (schedule_timer resolve now t res)
    (batch_room d0 now (nexts @ [timer_next resolve now t]) (ks @ timer_keys resolve now t)
       (m + int (length (timer_keys resolve now t))))"
proof -
  from assms(7) obtain occs n snapshot where r: "resolve t now = Inr (occs, n)" "\<not> IsZero n"
    "buildRequestSnapshot t = Inr snapshot" by (auto simp: timer_done_def)
  have k: "timer_keys resolve now t = map (\<lambda>at. (td_ID t, at)) occs"
    "timer_next resolve now t = (td_ID t, n)"
    by (simp_all add: timer_keys_def timer_next_def resolved_def r(1))
  let ?m = "m + int (length occs)"
  show ?thesis
    unfolding schedule_timer_def r(1) r(3) sum.case prod.case if_not_P [OF r(2)] k length_map
  proof (rule succeeds_bind [OF occurrences_room [OF assms(1) t(1) r(3)]])
    show "?m \<le> int64_max" using assms(8) by (simp add: k)
    fix res'
    show "succeeds ses (batch_room d0 now nexts (ks @ map (\<lambda>at. (td_ID t, at)) occs) ?m res')
      (tx_bind (tx_wrap ''advance next_fire_at'' (update_timers (same_version t) (advance_timer n)))
        (\<lambda>affected. if affected \<noteq> 1 then tx_throw (''next_fire_at version conflict, timer_id='' @ show_int (td_ID t))
          else tx_return (res'\<lparr>sb_Timers := sb_Timers res' + 1\<rparr>)))
      (batch_room d0 now (nexts @ [(td_ID t, n)]) (ks @ map (\<lambda>at. (td_ID t, at)) occs) ?m)"
      by (rule succeeds_bind [OF succeeds_wrap [OF advance_room [OF assms(1) ok t]]])
         (auto simp: succeeds_def tx_return_def)
  qed
qed

text \<open>With no fault, a batch succeeds when every Timer it takes can be resolved and fits its
  columns, and it uses at most one key per occurrence.\<close>

lemma ScheduleDueBatch_succeeds:
  assumes "faultless ses" "db_ok d0"
    and ts: "\<And>t. t \<in> set (batch_timers ses now n d0) \<Longrightarrow> timer_done resolve now t \<and> timer_fits t"
    and room: "execution_seq d0 + int (length (batch_keys resolve now (batch_timers ses now n d0))) \<le> int64_max"
  obtains res d where "ScheduleDueBatch now n resolve ses d0 = (Inr res, d)"
    and "execution_seq d \<le> execution_seq d0 + int (length (batch_keys resolve now (batch_timers ses now n d0)))"
proof -
  let ?ts = "batch_timers ses now n d0"
  let ?m = "execution_seq d0 + int (length (batch_keys resolve now ?ts))"
  let ?R = "\<lambda>xs. batch_room d0 now (batch_nexts resolve now xs) (batch_keys resolve now xs)
     (execution_seq d0 + int (length (batch_keys resolve now xs)))"
  have "succeeds ses (?R [] no_batch) (tx_each (schedule_timer resolve now) ?ts no_batch) (\<lambda>b d. ?R ?ts b d)"
  proof (rule succeeds_each)
    fix xs x ys b assume split: "?ts = xs @ x # ys"
    then have x: "x \<in> set ?ts" by simp
    have "td_ID x \<notin> fst ` set (batch_nexts resolve now xs)"
      using batch_timers_props(1) [OF assms(2), of ses now n] split
      by (auto simp: batch_nexts_def timer_next_def image_iff)
    moreover have "execution_seq d0 + int (length (batch_keys resolve now xs)) +
        int (length (timer_keys resolve now x)) \<le> int64_max"
      using room split by (simp add: batch_keys_def)
    ultimately have "succeeds ses (?R xs b) (schedule_timer resolve now x b)
        (batch_room d0 now (batch_nexts resolve now xs @ [timer_next resolve now x])
          (batch_keys resolve now xs @ timer_keys resolve now x)
          (execution_seq d0 + int (length (batch_keys resolve now xs)) + int (length (timer_keys resolve now x))))"
      using batch_timers_props(2) [OF assms(2) x] ts [OF x]
      by (intro schedule_timer_room [OF assms(1,2)]) auto
    then show "succeeds ses (?R xs b) (schedule_timer resolve now x b) (\<lambda>b' d. ?R (xs @ [x]) b' d)"
      by (simp add: batch_nexts_def batch_keys_def algebra_simps)
  qed
  then have loop: "succeeds ses (\<lambda>d. d = d0) (tx_each (schedule_timer resolve now) ?ts no_batch)
      (\<lambda>_ d. execution_seq d \<le> ?m)"
    by (rule succeeds_pre [OF succeeds_post]) 
       (simp_all add: batch_nexts_def batch_keys_def batch_room_def schedule_rel_start assms(2))
  have "succeeds ses (\<lambda>d. d = d0) (lock_timers by_next_fire n (due_timer now)) (\<lambda>ts d. ts = ?ts \<and> d = d0)"
    by (rule tm.succeeds_select [OF assms(1)]) (simp add: batch_timers_def)
  then have "succeeds ses (\<lambda>d. d = d0) (tx_bind (tx_wrap ''claim due timers'' (lock_timers by_next_fire n (due_timer now)))
      (\<lambda>ts. tx_each (schedule_timer resolve now) ts no_batch)) (\<lambda>_ d. execution_seq d \<le> ?m)"
    by (rule succeeds_bind [OF succeeds_wrap]) (use loop in \<open>auto simp: succeeds_def\<close>)
  from transaction_succeeds [OF assms(1) this refl] that show ?thesis
    unfolding ScheduleDueBatch_def by blast
qed

end
