(* ===== verification/Config.thy ===== *)
theory Config
  imports Go_Prelude
begin

text \<open>
  \<^verbatim>\<open>internal/config/config.go\<close>: the sections of the configuration and the functions that
  replace invalid values after loading.  An \<^verbatim>\<open>int\<close> or \<^verbatim>\<open>int64\<close> field is an
  \<^typ>\<open>int\<close>; the one product the normalisation computes wraps as the machine's does.
\<close>

section \<open>Sections\<close>

record ServerConfig =
  sv_Port :: int
  sv_Mode :: string

record RuntimeConfig =
  rt_ShutdownTimeoutSeconds :: int

record DatabaseConfig =
  dc_DSN :: string
  dc_MaxOpenConns :: int
  dc_MaxIdleConns :: int
  dc_ConnMaxLifetime :: int
  dc_LogLevel :: string

record MigrationConfig =
  mg_Path :: string

record RedisConfig =
  rd_Addr :: string
  rd_Password :: string
  rd_DB :: int

record SchedulerConfig =
  sc_PollIntervalMS :: int
  sc_BatchSize :: int
  sc_MisfireGraceSeconds :: int
  sc_DefaultMaxCatchUp :: int

record OutboxConfig =
  oc_PollIntervalMS :: int
  oc_BatchSize :: int
  oc_ClaimTTLSeconds :: int
  oc_MaxBackoffSeconds :: int
  oc_Stream :: string
  oc_ConsumerGroup :: string
  oc_StreamMaxLen :: int

record WorkerConfig =
  wc_PoolSize :: int
  wc_ReadCount :: int
  wc_ReadBlockMS :: int
  wc_LeaseTTLSeconds :: int
  wc_HeartbeatSeconds :: int
  wc_ReclaimIdleSeconds :: int
  wc_ReclaimIntervalSeconds :: int
  wc_HTTPTimeoutSeconds :: int
  wc_MaxResponseBytes :: int
  wc_RetryBaseSeconds :: int
  wc_RetryMaxSeconds :: int

record RecoveryConfig =
  rc_Enabled :: bool
  rc_ScanIntervalSeconds :: int
  rc_BatchSize :: int
  rc_PendingStaleSeconds :: int
  rc_CleanupIntervalMinutes :: int
  rc_OutboxRetentionDays :: int
  rc_ExecutionRetentionDays :: int
  rc_StreamRetentionHours :: int

record SecurityConfig =
  sy_APIKey :: string
  sy_AllowedOrigins :: "string list"
  sy_AllowPrivateCallbacks :: bool
  sy_MaxRequestBytes :: int

record MonitoringConfig =
  mo_PrometheusURL :: string
  mo_GrafanaURL :: string

record LogConfig =
  lg_Level :: string
  lg_Format :: string
  lg_Output :: string
  lg_FilePath :: string

record Config =
  cf_Server :: ServerConfig
  cf_Runtime :: RuntimeConfig
  cf_Database :: DatabaseConfig
  cf_Migrations :: MigrationConfig
  cf_Redis :: RedisConfig
  cf_Scheduler :: SchedulerConfig
  cf_Outbox :: OutboxConfig
  cf_Worker :: WorkerConfig
  cf_Recovery :: RecoveryConfig
  cf_Security :: SecurityConfig
  cf_Monitoring :: MonitoringConfig
  cf_Log :: LogConfig

section \<open>Normalisation\<close>

definition at_least :: "int \<Rightarrow> int \<Rightarrow> int \<Rightarrow> int" where
  "at_least lo def x = (if x < lo then def else x)"

definition non_empty :: "string \<Rightarrow> string \<Rightarrow> string" where
  "non_empty def s = (if s = [] then def else s)"

definition normalizeRuntimeConfig :: "RuntimeConfig \<Rightarrow> RuntimeConfig" where
  "normalizeRuntimeConfig cfg =
     cfg\<lparr>rt_ShutdownTimeoutSeconds := at_least 1 15 (rt_ShutdownTimeoutSeconds cfg)\<rparr>"

definition normalizeMigrationConfig :: "MigrationConfig \<Rightarrow> MigrationConfig" where
  "normalizeMigrationConfig cfg =
     cfg\<lparr>mg_Path := (if TrimSpace (mg_Path cfg) = [] then ''migrations'' else mg_Path cfg)\<rparr>"

definition normalizeSchedulerConfig :: "SchedulerConfig \<Rightarrow> SchedulerConfig" where
  "normalizeSchedulerConfig cfg = cfg\<lparr>
     sc_PollIntervalMS := at_least 10 500 (sc_PollIntervalMS cfg),
     sc_BatchSize := at_least 1 100 (sc_BatchSize cfg),
     sc_MisfireGraceSeconds := at_least 0 0 (sc_MisfireGraceSeconds cfg),
     sc_DefaultMaxCatchUp := at_least 1 10 (sc_DefaultMaxCatchUp cfg)\<rparr>"

definition normalizeOutboxConfig :: "OutboxConfig \<Rightarrow> OutboxConfig" where
  "normalizeOutboxConfig cfg = cfg\<lparr>
     oc_PollIntervalMS := at_least 10 200 (oc_PollIntervalMS cfg),
     oc_BatchSize := at_least 1 100 (oc_BatchSize cfg),
     oc_ClaimTTLSeconds := at_least 1 30 (oc_ClaimTTLSeconds cfg),
     oc_MaxBackoffSeconds := at_least 1 30 (oc_MaxBackoffSeconds cfg),
     oc_Stream := non_empty ''chronoflow:execution:ready'' (oc_Stream cfg),
     oc_ConsumerGroup := non_empty ''chronoflow-workers'' (oc_ConsumerGroup cfg),
     oc_StreamMaxLen := at_least 0 0 (oc_StreamMaxLen cfg)\<rparr>"

text \<open>The fields are normalised in order, later ones against the new values of earlier ones.\<close>

definition normalizeWorkerConfig :: "WorkerConfig \<Rightarrow> WorkerConfig" where
  "normalizeWorkerConfig cfg =
     (let lease = at_least 3 30 (wc_LeaseTTLSeconds cfg);
          heartbeat =
            (if wc_HeartbeatSeconds cfg < 1 \<or> lease \<le> wrap64 (wc_HeartbeatSeconds cfg * 2)
             then go_quot lease 3 else wc_HeartbeatSeconds cfg);
          base = at_least 1 2 (wc_RetryBaseSeconds cfg)
      in cfg\<lparr>
        wc_PoolSize := at_least 1 100 (wc_PoolSize cfg),
        wc_ReadCount := at_least 1 20 (wc_ReadCount cfg),
        wc_ReadBlockMS := at_least 100 2000 (wc_ReadBlockMS cfg),
        wc_LeaseTTLSeconds := lease,
        wc_HeartbeatSeconds := heartbeat,
        wc_ReclaimIdleSeconds := at_least lease lease (wc_ReclaimIdleSeconds cfg),
        wc_ReclaimIntervalSeconds := at_least 1 10 (wc_ReclaimIntervalSeconds cfg),
        wc_HTTPTimeoutSeconds := at_least 1 12 (wc_HTTPTimeoutSeconds cfg),
        wc_MaxResponseBytes := at_least 1 (1024 * 1024) (wc_MaxResponseBytes cfg),
        wc_RetryBaseSeconds := base,
        wc_RetryMaxSeconds := at_least base 60 (wc_RetryMaxSeconds cfg)\<rparr>)"

definition normalizeRecoveryConfig :: "RecoveryConfig \<Rightarrow> RecoveryConfig" where
  "normalizeRecoveryConfig cfg =
     (let outbox_days = at_least 1 7 (rc_OutboxRetentionDays cfg)
      in cfg\<lparr>
        rc_ScanIntervalSeconds := at_least 1 10 (rc_ScanIntervalSeconds cfg),
        rc_BatchSize := at_least 1 100 (rc_BatchSize cfg),
        rc_PendingStaleSeconds := at_least 1 30 (rc_PendingStaleSeconds cfg),
        rc_CleanupIntervalMinutes := at_least 1 60 (rc_CleanupIntervalMinutes cfg),
        rc_OutboxRetentionDays := outbox_days,
        rc_ExecutionRetentionDays := at_least outbox_days 30 (rc_ExecutionRetentionDays cfg),
        rc_StreamRetentionHours := at_least 1 24 (rc_StreamRetentionHours cfg)\<rparr>)"

definition normalizeSecurityConfig :: "SecurityConfig \<Rightarrow> SecurityConfig" where
  "normalizeSecurityConfig cfg = cfg\<lparr>
     sy_AllowedOrigins := (if sy_AllowedOrigins cfg = [] then [''http://localhost:3000'']
                           else sy_AllowedOrigins cfg),
     sy_MaxRequestBytes := at_least 1 (1024 * 1024) (sy_MaxRequestBytes cfg)\<rparr>"

definition normalizeMonitoringConfig :: "MonitoringConfig \<Rightarrow> MonitoringConfig" where
  "normalizeMonitoringConfig cfg = cfg\<lparr>
     mo_PrometheusURL := non_empty ''http://localhost:9090'' (mo_PrometheusURL cfg),
     mo_GrafanaURL := non_empty ''http://localhost:3001'' (mo_GrafanaURL cfg)\<rparr>"

text \<open>The value that decoding gives where neither the file nor the environment sets anything:
  \<^verbatim>\<open>setDefaults\<close>; a key without a default decodes to the zero value.\<close>

definition setDefaults :: Config where
  "setDefaults = \<lparr>
     cf_Server = \<lparr>sv_Port = 8080, sv_Mode = ''debug''\<rparr>,
     cf_Runtime = \<lparr>rt_ShutdownTimeoutSeconds = 15\<rparr>,
     cf_Database = \<lparr>dc_DSN = [], dc_MaxOpenConns = 100, dc_MaxIdleConns = 10, dc_ConnMaxLifetime = 60,
       dc_LogLevel = ''warn''\<rparr>,
     cf_Migrations = \<lparr>mg_Path = ''migrations''\<rparr>,
     cf_Redis = \<lparr>rd_Addr = ''127.0.0.1:6379'', rd_Password = [], rd_DB = 0\<rparr>,
     cf_Scheduler = \<lparr>sc_PollIntervalMS = 500, sc_BatchSize = 100, sc_MisfireGraceSeconds = 30,
       sc_DefaultMaxCatchUp = 10\<rparr>,
     cf_Outbox = \<lparr>oc_PollIntervalMS = 200, oc_BatchSize = 100, oc_ClaimTTLSeconds = 30,
       oc_MaxBackoffSeconds = 30, oc_Stream = ''chronoflow:execution:ready'',
       oc_ConsumerGroup = ''chronoflow-workers'', oc_StreamMaxLen = 0\<rparr>,
     cf_Worker = \<lparr>wc_PoolSize = 100, wc_ReadCount = 20, wc_ReadBlockMS = 2000,
       wc_LeaseTTLSeconds = 30, wc_HeartbeatSeconds = 10, wc_ReclaimIdleSeconds = 30,
       wc_ReclaimIntervalSeconds = 10, wc_HTTPTimeoutSeconds = 12, wc_MaxResponseBytes = 1024 * 1024,
       wc_RetryBaseSeconds = 2, wc_RetryMaxSeconds = 60\<rparr>,
     cf_Recovery = \<lparr>rc_Enabled = True, rc_ScanIntervalSeconds = 10, rc_BatchSize = 100,
       rc_PendingStaleSeconds = 30, rc_CleanupIntervalMinutes = 60, rc_OutboxRetentionDays = 7,
       rc_ExecutionRetentionDays = 30, rc_StreamRetentionHours = 24\<rparr>,
     cf_Security = \<lparr>sy_APIKey = [], sy_AllowedOrigins = [''http://localhost:3000''],
       sy_AllowPrivateCallbacks = False, sy_MaxRequestBytes = 1024 * 1024\<rparr>,
     cf_Monitoring = \<lparr>mo_PrometheusURL = ''http://localhost:9090'',
       mo_GrafanaURL = ''http://localhost:3001''\<rparr>,
     cf_Log = \<lparr>lg_Level = ''info'', lg_Format = ''json'', lg_Output = ''stdout'', lg_FilePath = []\<rparr>\<rparr>"

text \<open>\<^verbatim>\<open>Load\<close>: \<open>read\<close> is the error of \<^verbatim>\<open>ReadInConfig\<close>, if any;
  \<open>unmarshal\<close> lays what was read and the environment over the defaults and decodes the result.\<close>

datatype read_error = ConfigFileNotFoundError | ReadError go_error

definition normalize :: "Config \<Rightarrow> Config" where
  "normalize cfg = cfg\<lparr>
     cf_Scheduler := normalizeSchedulerConfig (cf_Scheduler cfg),
     cf_Outbox := normalizeOutboxConfig (cf_Outbox cfg),
     cf_Worker := normalizeWorkerConfig (cf_Worker cfg),
     cf_Recovery := normalizeRecoveryConfig (cf_Recovery cfg),
     cf_Security := normalizeSecurityConfig (cf_Security cfg),
     cf_Monitoring := normalizeMonitoringConfig (cf_Monitoring cfg),
     cf_Runtime := normalizeRuntimeConfig (cf_Runtime cfg),
     cf_Migrations := normalizeMigrationConfig (cf_Migrations cfg)\<rparr>"

definition Load :: "read_error option \<Rightarrow> (Config \<Rightarrow> Config result) \<Rightarrow> Config result" where
  "Load read unmarshal =
     (case read of
        Some (ReadError e) \<Rightarrow> Inl (wrap_err ''failed to read config'' e)
      | _ \<Rightarrow>
          (case unmarshal setDefaults of
             Inl e \<Rightarrow> Inl (wrap_err ''failed to unmarshal config'' e)
           | Inr cfg \<Rightarrow> Inr (normalize cfg)))"

section \<open>What the services may rely on\<close>

definition scheduler_config_ok :: "SchedulerConfig \<Rightarrow> bool" where
  "scheduler_config_ok cfg \<longleftrightarrow>
     10 \<le> sc_PollIntervalMS cfg \<and> 1 \<le> sc_BatchSize cfg \<and> 0 \<le> sc_MisfireGraceSeconds cfg \<and>
     1 \<le> sc_DefaultMaxCatchUp cfg"

definition outbox_config_ok :: "OutboxConfig \<Rightarrow> bool" where
  "outbox_config_ok cfg \<longleftrightarrow>
     10 \<le> oc_PollIntervalMS cfg \<and> 1 \<le> oc_BatchSize cfg \<and> 1 \<le> oc_ClaimTTLSeconds cfg \<and>
     1 \<le> oc_MaxBackoffSeconds cfg \<and> oc_Stream cfg \<noteq> [] \<and> oc_ConsumerGroup cfg \<noteq> [] \<and>
     0 \<le> oc_StreamMaxLen cfg"

text \<open>The lease outlives two heartbeats, and a message is reclaimed only after the lease of the
  attempt it started.\<close>

definition worker_config_ok :: "WorkerConfig \<Rightarrow> bool" where
  "worker_config_ok cfg \<longleftrightarrow>
     1 \<le> wc_PoolSize cfg \<and> 1 \<le> wc_ReadCount cfg \<and> 100 \<le> wc_ReadBlockMS cfg \<and>
     3 \<le> wc_LeaseTTLSeconds cfg \<and> 1 \<le> wc_HeartbeatSeconds cfg \<and>
     2 * wc_HeartbeatSeconds cfg < wc_LeaseTTLSeconds cfg \<and>
     wc_LeaseTTLSeconds cfg \<le> wc_ReclaimIdleSeconds cfg \<and> 1 \<le> wc_ReclaimIntervalSeconds cfg \<and>
     1 \<le> wc_HTTPTimeoutSeconds cfg \<and> 1 \<le> wc_MaxResponseBytes cfg \<and>
     1 \<le> wc_RetryBaseSeconds cfg \<and> 1 \<le> wc_RetryMaxSeconds cfg"

definition recovery_config_ok :: "RecoveryConfig \<Rightarrow> bool" where
  "recovery_config_ok cfg \<longleftrightarrow>
     1 \<le> rc_ScanIntervalSeconds cfg \<and> 1 \<le> rc_BatchSize cfg \<and> 1 \<le> rc_PendingStaleSeconds cfg \<and>
     1 \<le> rc_CleanupIntervalMinutes cfg \<and> 1 \<le> rc_OutboxRetentionDays cfg \<and>
     1 \<le> rc_ExecutionRetentionDays cfg \<and> 1 \<le> rc_StreamRetentionHours cfg"

lemma normalizeSchedulerConfig_ok: "scheduler_config_ok (normalizeSchedulerConfig cfg)"
  by (simp add: scheduler_config_ok_def normalizeSchedulerConfig_def at_least_def)

lemma normalizeOutboxConfig_ok: "outbox_config_ok (normalizeOutboxConfig cfg)"
  by (simp add: outbox_config_ok_def normalizeOutboxConfig_def at_least_def non_empty_def)

lemma normalizeRecoveryConfig_ok: "recovery_config_ok (normalizeRecoveryConfig cfg)"
  by (simp add: recovery_config_ok_def normalizeRecoveryConfig_def at_least_def Let_def)

text \<open>The product that compares the heartbeat with the lease is exact below \<open>2 ^ 62\<close>.\<close>

lemma normalizeWorkerConfig_ok:
  assumes "in_int64 (wc_HeartbeatSeconds cfg * 2)"
  shows "worker_config_ok (normalizeWorkerConfig cfg)"
  using assms go_quot_nonneg [of "at_least 3 30 (wc_LeaseTTLSeconds cfg)" 3]
  by (auto simp: worker_config_ok_def normalizeWorkerConfig_def at_least_def Let_def wrap64_id)

text \<open>Normalisation is idempotent.\<close>

lemma at_least_idem [simp]: "lo \<le> def \<Longrightarrow> at_least lo def (at_least lo def x) = at_least lo def x"
  by (simp add: at_least_def)

lemma normalizeSchedulerConfig_idem:
  "normalizeSchedulerConfig (normalizeSchedulerConfig cfg) = normalizeSchedulerConfig cfg"
  by (simp add: normalizeSchedulerConfig_def)

text \<open>The defaults need no correction.\<close>

lemma normalize_defaults: "normalize setDefaults = setDefaults"
proof -
  have "normalizeSchedulerConfig (cf_Scheduler setDefaults) = cf_Scheduler setDefaults"
    "normalizeOutboxConfig (cf_Outbox setDefaults) = cf_Outbox setDefaults"
    "normalizeWorkerConfig (cf_Worker setDefaults) = cf_Worker setDefaults"
    "normalizeRecoveryConfig (cf_Recovery setDefaults) = cf_Recovery setDefaults"
    "normalizeSecurityConfig (cf_Security setDefaults) = cf_Security setDefaults"
    "normalizeMonitoringConfig (cf_Monitoring setDefaults) = cf_Monitoring setDefaults"
    "normalizeRuntimeConfig (cf_Runtime setDefaults) = cf_Runtime setDefaults"
    "normalizeMigrationConfig (cf_Migrations setDefaults) = cf_Migrations setDefaults"
    by (simp_all add: setDefaults_def normalizeSchedulerConfig_def normalizeOutboxConfig_def
        normalizeWorkerConfig_def normalizeRecoveryConfig_def normalizeSecurityConfig_def
        normalizeMonitoringConfig_def normalizeRuntimeConfig_def normalizeMigrationConfig_def
        at_least_def non_empty_def Let_def wrap64_id in_int64_def int64_min_def int64_max_def
        TrimSpace_def is_space_def)
  then show ?thesis by (simp add: normalize_def)
qed

end
