(* ===== verification/Metrics_Reporter.thy ===== *)
theory Metrics_Reporter
  imports Go_Prelude
begin

text \<open>
  \<^verbatim>\<open>internal/pkg/metrics/reporter.go\<close>: the counters, gauges and histograms the services
  report to.  A labelled counter is a function of its label, a histogram the list of its
  observations.  Prometheus keeps counts as \<^verbatim>\<open>float64\<close>; here they are exact integers.
\<close>

record Reporter =
  rp_schedulerBatches :: "string \<Rightarrow> int"
  rp_schedulerExecutions :: int
  rp_schedulerDuplicates :: int
  rp_schedulerBatchDuration :: "duration list"
  rp_outboxPublish :: "string \<Rightarrow> int"
  rp_outboxUnpublished :: int
  rp_workerExecutions :: "string \<Rightarrow> int"
  rp_workerDuration :: "string \<Rightarrow> duration list"
  rp_workerRetries :: int
  rp_workerLeaseLost :: int
  rp_workerRedeliveries :: int
  rp_workerPending :: int
  rp_recoveryActions :: "string \<Rightarrow> int"
  rp_recoveryFailures :: int
  rp_executions :: "string \<Rightarrow> int"

definition NewReporter :: Reporter where
  "NewReporter = \<lparr>rp_schedulerBatches = (\<lambda>_. 0), rp_schedulerExecutions = 0,
     rp_schedulerDuplicates = 0, rp_schedulerBatchDuration = [], rp_outboxPublish = (\<lambda>_. 0),
     rp_outboxUnpublished = 0, rp_workerExecutions = (\<lambda>_. 0), rp_workerDuration = (\<lambda>_. []),
     rp_workerRetries = 0, rp_workerLeaseLost = 0, rp_workerRedeliveries = 0,
     rp_workerPending = 0, rp_recoveryActions = (\<lambda>_. 0), rp_recoveryFailures = 0,
     rp_executions = (\<lambda>_. 0)\<rparr>"

definition ResultSuccess :: string where "ResultSuccess = ''success''"
definition ResultFailed :: string where "ResultFailed = ''failed''"

definition add_label :: "string \<Rightarrow> int \<Rightarrow> (string \<Rightarrow> int) \<Rightarrow> string \<Rightarrow> int" where
  "add_label l n f = f(l := f l + n)"

definition result_label :: "bool \<Rightarrow> string" where
  "result_label success = (if success then ResultSuccess else ResultFailed)"

definition ReportSchedulerBatch :: "int \<Rightarrow> int \<Rightarrow> int \<Rightarrow> duration \<Rightarrow> bool \<Rightarrow> Reporter \<Rightarrow> Reporter" where
  "ReportSchedulerBatch ntimers nexecutions duplicates elapsed success r =
     r\<lparr>rp_schedulerBatches := add_label (result_label success) 1 (rp_schedulerBatches r),
       rp_schedulerExecutions := rp_schedulerExecutions r + nexecutions,
       rp_schedulerDuplicates := rp_schedulerDuplicates r + duplicates,
       rp_schedulerBatchDuration := rp_schedulerBatchDuration r @ [elapsed]\<rparr>"

definition ReportOutboxPublish :: "bool \<Rightarrow> Reporter \<Rightarrow> Reporter" where
  "ReportOutboxPublish success r =
     r\<lparr>rp_outboxPublish := add_label (result_label success) 1 (rp_outboxPublish r)\<rparr>"

definition SetOutboxUnpublished :: "int \<Rightarrow> Reporter \<Rightarrow> Reporter" where
  "SetOutboxUnpublished n r = r\<lparr>rp_outboxUnpublished := n\<rparr>"

definition ReportWorkerExecution :: "string \<Rightarrow> duration \<Rightarrow> Reporter \<Rightarrow> Reporter" where
  "ReportWorkerExecution result elapsed r =
     r\<lparr>rp_workerExecutions := add_label result 1 (rp_workerExecutions r),
       rp_workerDuration := (rp_workerDuration r)(result := rp_workerDuration r result @ [elapsed])\<rparr>"

definition ReportWorkerRetry :: "Reporter \<Rightarrow> Reporter" where
  "ReportWorkerRetry r = r\<lparr>rp_workerRetries := rp_workerRetries r + 1\<rparr>"

definition ReportWorkerLeaseLost :: "Reporter \<Rightarrow> Reporter" where
  "ReportWorkerLeaseLost r = r\<lparr>rp_workerLeaseLost := rp_workerLeaseLost r + 1\<rparr>"

definition ReportWorkerRedelivery :: "Reporter \<Rightarrow> Reporter" where
  "ReportWorkerRedelivery r = r\<lparr>rp_workerRedeliveries := rp_workerRedeliveries r + 1\<rparr>"

definition SetWorkerPending :: "int \<Rightarrow> Reporter \<Rightarrow> Reporter" where
  "SetWorkerPending n r = r\<lparr>rp_workerPending := n\<rparr>"

definition ReportRecoveryAction :: "string \<Rightarrow> int \<Rightarrow> Reporter \<Rightarrow> Reporter" where
  "ReportRecoveryAction action n r =
     r\<lparr>rp_recoveryActions := add_label action n (rp_recoveryActions r)\<rparr>"

definition ReportRecoveryFailure :: "Reporter \<Rightarrow> Reporter" where
  "ReportRecoveryFailure r = r\<lparr>rp_recoveryFailures := rp_recoveryFailures r + 1\<rparr>"

definition SetExecutionCount :: "string \<Rightarrow> int \<Rightarrow> Reporter \<Rightarrow> Reporter" where
  "SetExecutionCount status n r = r\<lparr>rp_executions := (rp_executions r)(status := n)\<rparr>"

lemmas reporter_defs =
  ReportSchedulerBatch_def ReportOutboxPublish_def SetOutboxUnpublished_def
  ReportWorkerExecution_def ReportWorkerRetry_def ReportWorkerLeaseLost_def
  ReportWorkerRedelivery_def SetWorkerPending_def ReportRecoveryAction_def
  ReportRecoveryFailure_def SetExecutionCount_def add_label_def result_label_def

lemma result_labels_differ [simp]: "ResultSuccess \<noteq> ResultFailed" "ResultFailed \<noteq> ResultSuccess"
  by (simp_all add: ResultSuccess_def ResultFailed_def)

end
