(* ===== verification/Scheduler.thy ===== *)
theory Scheduler
  imports Scheduler_Repo World Cron_Parser Config Metrics_Reporter
begin

text \<open>
  \<^verbatim>\<open>internal/service/scheduler.go\<close>: the misfire policies, one polling round, and the polling
  loop.  The loop that catches up terminates because its list of occurrences grows towards the limit;
  the polling loop runs over the list of the ticks it sees before it is cancelled.
\<close>

section \<open>Misfire policies\<close>

text \<open>The loop of \<^verbatim>\<open>CATCH_UP\<close>.\<close>

function catch_up ::
  "(time \<Rightarrow> time result) \<Rightarrow> time \<Rightarrow> int \<Rightarrow> time list \<Rightarrow> time \<Rightarrow> (time list \<times> time) result" where
  "catch_up nextAfter now limit occurrences cursor =
     (if cursor \<le> now \<and> int (length occurrences) < limit then
        (case nextAfter cursor of
           Inl e \<Rightarrow> Inl e
         | Inr next \<Rightarrow> catch_up nextAfter now limit (occurrences @ [cursor]) next)
      else Inr (occurrences, cursor))"
  by pat_completeness auto
termination
  by (relation "measure (\<lambda>(f, now, limit, occurrences, cursor). nat (limit - int (length occurrences)))")
     auto

declare catch_up.simps [simp del]

text \<open>\<^verbatim>\<open>make\<close> with a negative capacity panics: the transaction the resolver runs in is
  rolled back as by an error.\<close>

definition makeslice_panic :: go_error where
  "makeslice_panic = ''runtime error: makeslice: cap out of range''"

definition resolveTimer :: "'c cron_lib \<Rightarrow> SchedulerConfig \<Rightarrow> resolver" where
  "resolveTimer lib cfg definition' now =
     (case td_NextFireAt definition' of
        None \<Rightarrow> Inl ''ACTIVE timer has an empty next_fire_at''
      | Some current \<Rightarrow>
          (let nextAfter = NextTriggerTime lib (td_CronExpr definition');
               grace = seconds (sc_MisfireGraceSeconds cfg);
               overdue = grace < time_sub now current;
               policy = (if td_MisfirePolicy definition' = MisfirePolicyOther []
                         then MisfirePolicyFireOnce else td_MisfirePolicy definition')
           in if \<not> overdue \<and> policy \<noteq> MisfirePolicyCatchUp then
                (case nextAfter current of
                   Inl e \<Rightarrow> Inl e
                 | Inr next \<Rightarrow> Inr ([current], next))
              else
                (case policy of
                   MisfirePolicySkip \<Rightarrow>
                     (case nextAfter now of Inl e \<Rightarrow> Inl e | Inr next \<Rightarrow> Inr ([], next))
                 | MisfirePolicyFireOnce \<Rightarrow>
                     (case nextAfter now of Inl e \<Rightarrow> Inl e | Inr next \<Rightarrow> Inr ([current], next))
                 | MisfirePolicyCatchUp \<Rightarrow>
                     (let limit = (if td_MaxCatchUp definition' < 1 then sc_DefaultMaxCatchUp cfg
                                   else td_MaxCatchUp definition')
                      in if limit < 0 then Inl makeslice_panic
                         else catch_up nextAfter now limit [] current)
                 | MisfirePolicyOther s \<Rightarrow> Inl (''unknown misfire policy: '' @ s))))"

section \<open>Polling\<close>

record 's DueTimerRepository =
  dr_ScheduleDueBatch :: "time \<Rightarrow> int \<Rightarrow> resolver \<Rightarrow> 's \<Rightarrow> ScheduleBatchResult result \<times> 's"

text \<open>One round, at the instant \<open>now\<close>, taking \<open>elapsed\<close>.\<close>

definition schedule ::
  "'s DueTimerRepository \<Rightarrow> 'c cron_lib \<Rightarrow> SchedulerConfig \<Rightarrow> time \<times> duration \<Rightarrow>
     Reporter \<times> 's \<Rightarrow> Reporter \<times> 's" where
  "schedule repo lib cfg tick st =
     (case (tick, st) of
        ((now, elapsed), (reporter, s)) \<Rightarrow>
          (case dr_ScheduleDueBatch repo now (sc_BatchSize cfg) (resolveTimer lib cfg) s of
             (Inl e, s') \<Rightarrow> (ReportSchedulerBatch 0 0 0 elapsed False reporter, s')
           | (Inr result, s') \<Rightarrow>
               (ReportSchedulerBatch (sb_Timers result) (sb_Executions result) (sb_Duplicates result)
                  elapsed True reporter, s')))"

record ('c, 's) Scheduler =
  sd_repo :: "'s DueTimerRepository"
  sd_parser :: "'c cron_lib"
  sd_cfg :: SchedulerConfig

text \<open>\<^verbatim>\<open>Start\<close>: a round at once, then one per tick until the context is done.\<close>

definition Scheduler_Start ::
  "('c, 's) Scheduler \<Rightarrow> time \<times> duration \<Rightarrow> (time \<times> duration) list \<Rightarrow> Reporter \<times> 's \<Rightarrow>
     go_error option \<times> Reporter \<times> 's" where
  "Scheduler_Start s first ticks st =
     polling (millis (sc_PollIntervalMS (sd_cfg s))) (schedule (sd_repo s) (sd_parser s) (sd_cfg s)) ticks
       (schedule (sd_repo s) (sd_parser s) (sd_cfg s) first st)"

section \<open>The occurrences a policy yields\<close>

text \<open>The iterates of a successor function that may fail.\<close>

fun nth_fire :: "(time \<Rightarrow> time result) \<Rightarrow> nat \<Rightarrow> time \<Rightarrow> time result" where
  "nth_fire f 0 t = Inr t"
| "nth_fire f (Suc k) t = (case f t of Inl e \<Rightarrow> Inl e | Inr t' \<Rightarrow> nth_fire f k t')"

definition fires :: "(time \<Rightarrow> time result) \<Rightarrow> time \<Rightarrow> time list \<Rightarrow> time \<Rightarrow> bool" where
  "fires f start ts next \<longleftrightarrow>
     (\<forall>i < length ts. nth_fire f i start = Inr (ts ! i)) \<and> nth_fire f (length ts) start = Inr next"

lemma fires_Nil [simp]: "fires f start [] next \<longleftrightarrow> next = start"
  by (auto simp: fires_def)

lemma fires_Cons: "fires f start (t # ts) next \<longleftrightarrow> t = start \<and> (\<exists>t'. f t = Inr t' \<and> fires f t' ts next)"
proof
  assume "fires f start (t # ts) next"
  then have a: "\<And>i. i < Suc (length ts) \<Longrightarrow> nth_fire f i start = Inr ((t # ts) ! i)"
    "nth_fire f (Suc (length ts)) start = Inr next" by (auto simp: fires_def)
  from a(1) [of 0] have "t = start" by simp
  from a(2) obtain t' where t': "f start = Inr t'" by (auto split: sum.splits)
  with a(1) [of "Suc _"] a(2) have "fires f t' ts next" by (auto simp: fires_def)
  with t' \<open>t = start\<close> show "t = start \<and> (\<exists>t'. f t = Inr t' \<and> fires f t' ts next)" by blast
next
  assume "t = start \<and> (\<exists>t'. f t = Inr t' \<and> fires f t' ts next)"
  then obtain t' where t': "t = start" "f t = Inr t'" "fires f t' ts next" by blast
  have "nth_fire f i start = Inr ((t # ts) ! i)" if "i < Suc (length ts)" for i
    using that t' by (cases i) (auto simp: fires_def)
  with t' show "fires f start (t # ts) next" by (auto simp: fires_def)
qed

lemma fires_sorted:
  assumes "\<And>t t'. f t = Inr t' \<Longrightarrow> t < t'"
  shows "fires f start ts next \<Longrightarrow> sorted_wrt (<) (ts @ [next]) \<and> (\<forall>t \<in> set ts. start \<le> t) \<and> start \<le> next"
proof (induction ts arbitrary: start)
  case (Cons t ts)
  then obtain t' where t': "t = start" "f t = Inr t'" "fires f t' ts next"
    by (auto simp: fires_Cons)
  with Cons.IH [OF t'(3)] assms [OF t'(2)] show ?case by force
qed simp

lemma catch_up_result:
  assumes "catch_up f now limit acc cursor = Inr (occs, next)" "int (length acc) \<le> limit"
  shows "\<exists>ts. occs = acc @ ts \<and> fires f cursor ts next \<and> (\<forall>t \<in> set ts. t \<le> now) \<and>
    int (length occs) \<le> limit \<and> (now < next \<or> int (length occs) = limit)"
  using assms
proof (induction f now limit acc cursor rule: catch_up.induct)
  case (1 f now limit acc cursor)
  show ?case
  proof (cases "cursor \<le> now \<and> int (length acc) < limit")
    case False
    with 1(2,3) show ?thesis by (subst (asm) catch_up.simps) auto
  next
    case True
    with 1(2) obtain c' where c': "f cursor = Inr c'"
      "catch_up f now limit (acc @ [cursor]) c' = Inr (occs, next)"
      by (subst (asm) catch_up.simps) (auto split: sum.splits)
    from "1.IH" [OF True c'] True obtain ts where
      ts: "occs = (acc @ [cursor]) @ ts" "fires f c' ts next" "\<forall>t \<in> set ts. t \<le> now"
        "int (length occs) \<le> limit" "now < next \<or> int (length occs) = limit" by auto
    with True c' show ?thesis by (intro exI [of _ "cursor # ts"]) (auto simp: fires_Cons)
  qed
qed

text \<open>The limit of the \<^verbatim>\<open>CATCH_UP\<close> policy.\<close>

definition catch_up_limit :: "SchedulerConfig \<Rightarrow> TimerDefinition \<Rightarrow> int" where
  "catch_up_limit cfg t = (if td_MaxCatchUp t < 1 then sc_DefaultMaxCatchUp cfg else td_MaxCatchUp t)"

lemma resolveTimer_catch_up:
  assumes "td_MisfirePolicy t = MisfirePolicyCatchUp" "td_NextFireAt t = Some current"
    and "resolveTimer lib cfg t now = Inr (occs, next)"
  shows "fires (NextTriggerTime lib (td_CronExpr t)) current occs next \<and> (\<forall>o' \<in> set occs. o' \<le> now) \<and>
    int (length occs) \<le> catch_up_limit cfg t \<and> (now < next \<or> int (length occs) = catch_up_limit cfg t)"
proof -
  have "catch_up (NextTriggerTime lib (td_CronExpr t)) now (catch_up_limit cfg t) [] current = Inr (occs, next)"
    and "0 \<le> catch_up_limit cfg t"
    using assms by (auto simp: resolveTimer_def catch_up_limit_def Let_def split: if_splits)
  from catch_up_result [OF this(1)] this(2) show ?thesis by simp
qed

lemma resolveTimer_other:
  assumes "td_MisfirePolicy t \<noteq> MisfirePolicyCatchUp" "td_NextFireAt t = Some current"
    and "resolveTimer lib cfg t now = Inr (occs, next)"
  shows "(occs = [current] \<or> occs = [] \<and> td_MisfirePolicy t = MisfirePolicySkip \<and>
       seconds (sc_MisfireGraceSeconds cfg) < time_sub now current) \<and>
    (if seconds (sc_MisfireGraceSeconds cfg) < time_sub now current
     then NextTriggerTime lib (td_CronExpr t) now = Inr next
     else NextTriggerTime lib (td_CronExpr t) current = Inr next)"
  using assms
  by (cases "td_MisfirePolicy t")
     (auto simp: resolveTimer_def Let_def split: sum.splits if_splits)

text \<open>Whatever the policy: the occurrences are strictly increasing, start at the stored trigger
  time, are not in the future, and the new trigger time is later than all of them and than the
  old one.\<close>

lemma resolveTimer_progress:
  assumes "cron_lib_ok lib" "scheduler_config_ok cfg" "td_NextFireAt t = Some current" "current \<le> now"
    and "resolveTimer lib cfg t now = Inr (occs, next)"
  shows "sorted_wrt (<) (occs @ [next]) \<and> (\<forall>o' \<in> set occs. current \<le> o' \<and> o' \<le> now) \<and> current < next"
proof (cases "td_MisfirePolicy t = MisfirePolicyCatchUp")
  case True
  from resolveTimer_catch_up [OF this assms(3,5)]
  have f: "fires (NextTriggerTime lib (td_CronExpr t)) current occs next" "\<forall>o' \<in> set occs. o' \<le> now"
    "now < next \<or> int (length occs) = catch_up_limit cfg t" by auto
  from fires_sorted [OF NextTriggerTime_later [OF assms(1)] f(1)]
  have s: "sorted_wrt (<) (occs @ [next])" "\<forall>t \<in> set occs. current \<le> t" "current \<le> next" by auto
  have "current < next"
  proof (cases "now < next")
    case False
    have "1 \<le> catch_up_limit cfg t"
      using assms(2) by (simp add: catch_up_limit_def scheduler_config_ok_def)
    with False f(3) obtain x xs where "occs = x # xs" by (cases occs) auto
    with s show ?thesis by auto
  qed (use assms(4) in simp)
  with s f(2) show ?thesis by blast
next
  case False
  from resolveTimer_other [OF this assms(3,5)]
  have "occs = [current] \<or> occs = []" "now < next \<or> current < next"
    using NextTriggerTime_later [OF assms(1)] by (auto split: if_splits)
  with assms(4) show ?thesis by auto
qed

lemma resolveTimer_not_zero:
  assumes "resolveTimer lib cfg t now = Inr (occs, next)" "td_MisfirePolicy t \<noteq> MisfirePolicyCatchUp"
  shows "\<not> IsZero next"
  using assms
  by (cases "td_MisfirePolicy t")
     (auto simp: resolveTimer_def Let_def dest!: NextTriggerTime_not_zero
       split: option.splits sum.splits if_splits)

section \<open>The repository's contract\<close>

locale due_timer_repository =
  fixes repo :: "'s DueTimerRepository" and inv :: "'s \<Rightarrow> bool"
  assumes batch_inv: "inv s \<Longrightarrow> inv (snd (dr_ScheduleDueBatch repo now n resolve s))"
    and batch_counts: "inv s \<Longrightarrow> dr_ScheduleDueBatch repo now n resolve s = (Inr res, s') \<Longrightarrow>
      0 \<le> sb_Executions res \<and> 0 \<le> sb_Duplicates res"
begin

lemma schedule_inv: "inv (snd st) \<Longrightarrow> inv (snd (schedule repo lib cfg tick st))"
  using batch_inv [of "snd st" "fst tick" "sc_BatchSize cfg" "resolveTimer lib cfg"]
  unfolding schedule_def by (cases st; cases tick) (auto split: prod.splits sum.splits)

text \<open>Counters only grow.\<close>

lemma schedule_counts:
  assumes "inv (snd st)"
  shows "rp_schedulerExecutions (fst st) \<le> rp_schedulerExecutions (fst (schedule repo lib cfg tick st))"
    and "rp_schedulerDuplicates (fst st) \<le> rp_schedulerDuplicates (fst (schedule repo lib cfg tick st))"
  using assms batch_counts [of "snd st" "fst tick" "sc_BatchSize cfg" "resolveTimer lib cfg"]
  unfolding schedule_def
  by (cases st; cases tick; auto simp: ReportSchedulerBatch_def split: prod.splits sum.splits)+

lemma Start_inv: "sd_repo s = repo \<Longrightarrow> inv (snd st) \<Longrightarrow> inv (snd (snd (Scheduler_Start s first ticks st)))"
  unfolding Scheduler_Start_def by (rule polling_keeps [where I = "\<lambda>st. inv (snd st)"]) (simp_all add: schedule_inv)

end

definition world_due_repo :: "world DueTimerRepository" where
  "world_due_repo = \<lparr>dr_ScheduleDueBatch = (\<lambda>now n resolve. call (ScheduleDueBatch now n resolve))\<rparr>"

lemma schedule_rel_counts:
  assumes "schedule_rel d0 now nexts ks res d"
  shows "0 \<le> sb_Executions res \<and> 0 \<le> sb_Duplicates res"
proof -
  obtain news evs where n: "batch_news d0 now ks res d news evs"
    using assms by (auto simp: schedule_rel_def)
  then have "length news = length (new_keys (map schedule_key (executions d0)) ks)"
    unfolding batch_news_def by (metis length_map)
  with n length_new_keys [of "map schedule_key (executions d0)" ks] show ?thesis
    unfolding batch_news_def by linarith
qed

interpretation world_due: due_timer_repository world_due_repo world_ok
proof
  fix s now n resolve res s'
  show "world_ok s \<Longrightarrow> world_ok (snd (dr_ScheduleDueBatch world_due_repo now n resolve s))"
    using call_ok [of "ScheduleDueBatch now n resolve" s _ _] ScheduleDueBatch_ok
    by (metis (no_types, lifting) DueTimerRepository.select_convs(1) prod.collapse world_due_repo_def)
  assume "world_ok s" "dr_ScheduleDueBatch world_due_repo now n resolve s = (Inr res, s')"
  then obtain ses d where "db_ok d" "ScheduleDueBatch now n resolve ses d = (Inr res, w_db s')"
    by (auto simp: world_due_repo_def elim!: callE)
  from ScheduleDueBatch_result(2) [OF this] schedule_rel_counts
  show "0 \<le> sb_Executions res \<and> 0 \<le> sb_Duplicates res" by blast
qed

end
