(* ===== verification/Execution_Repo.thy ===== *)
theory Execution_Repo
  imports Scheduler_Repo Timer_Repo World
begin

text \<open>
  \<^verbatim>\<open>internal/repository/timer_execution_repo.go\<close>: the Execution state machine a Worker drives.
  A claim takes an Execution that is due, or whose lease has run out, and stamps a fresh run token on
  it; every later write is fenced by that token.  \<^verbatim>\<open>Claim\<close> is two repository calls, the
  UPDATE and a separate SELECT, so others may commit in between; it is defined on the shared
  \<^typ>\<open>world\<close>.
\<close>

section \<open>Claim\<close>

definition executable :: "time \<Rightarrow> TimerExecution \<Rightarrow> bool" where
  "executable now e \<longleftrightarrow>
     (te_Status e = ExecutionStatusPending \<and> te_ScheduledAt e \<le> now) \<or>
     (te_Status e = ExecutionStatusRetryWait \<and>
        (case te_NextAttemptAt e of None \<Rightarrow> False | Some t \<Rightarrow> t \<le> now)) \<or>
     (te_Status e = ExecutionStatusRunning \<and>
        (case te_LeaseUntil e of None \<Rightarrow> False | Some t \<Rightarrow> t < now))"

definition start_attempt :: "string \<Rightarrow> string \<Rightarrow> time \<Rightarrow> time \<Rightarrow> TimerExecution \<Rightarrow> TimerExecution" where
  "start_attempt owner runToken now leaseUntil e = e\<lparr>
     te_Status := ExecutionStatusRunning, te_Attempt := te_Attempt e + 1, te_LeaseOwner := owner,
     te_LeaseUntil := Some leaseUntil, te_RunToken := runToken, te_StartedAt := Some now,
     te_FinishedAt := None, te_ResponseCode := 0, te_ResponseBody := [], te_ErrorMessage := [],
     te_DurationMS := 0\<rparr>"

definition claim_update :: "int \<Rightarrow> string \<Rightarrow> string \<Rightarrow> time \<Rightarrow> duration \<Rightarrow> int db_op" where
  "claim_update executionID owner runToken now leaseTTL =
     op_wrap ''claim execution''
       (transaction (update_executions (\<lambda>e. te_ID e = executionID \<and> executable now e)
          (start_attempt owner runToken now (time_add now leaseTTL))))"

definition claim_read :: "int \<Rightarrow> TimerExecution option db_op" where
  "claim_read executionID =
     op_wrap ''read execution''
       (query (read_stmt (\<lambda>d. first_row (filter (\<lambda>e. te_ID e = executionID) (executions d)))))"

definition executionRepo_Claim ::
  "int \<Rightarrow> string \<Rightarrow> string \<Rightarrow> time \<Rightarrow> duration \<Rightarrow> world \<Rightarrow> (TimerExecution option \<times> bool) result \<times> world" where
  "executionRepo_Claim executionID owner runToken now leaseTTL w =
     (case call (claim_update executionID owner runToken now leaseTTL) w of
        (Inl e, w') \<Rightarrow> (Inl e, w')
      | (Inr affected, w') \<Rightarrow>
          (case call (claim_read executionID) w' of
             (Inl e, w'') \<Rightarrow> (Inl e, w'')
           | (Inr None, w'') \<Rightarrow> (Inr (None, False), w'')
           | (Inr (Some execution), w'') \<Rightarrow> (Inr (Some execution, affected = 1), w'')))"

section \<open>Fenced writes\<close>

definition holds_lease :: "int \<Rightarrow> string \<Rightarrow> string \<Rightarrow> TimerExecution \<Rightarrow> bool" where
  "holds_lease executionID owner runToken e \<longleftrightarrow>
     te_ID e = executionID \<and> te_Status e = ExecutionStatusRunning \<and>
     te_LeaseOwner e = owner \<and> te_RunToken e = runToken"

definition renew_lease :: "time \<Rightarrow> TimerExecution \<Rightarrow> TimerExecution" where
  "renew_lease leaseUntil e = e\<lparr>te_LeaseUntil := Some leaseUntil\<rparr>"

definition one_row :: "int db_op \<Rightarrow> bool db_op" where
  "one_row m = (\<lambda>ses d. case m ses d of (Inl e, d') \<Rightarrow> (Inl e, d') | (Inr n, d') \<Rightarrow> (Inr (n = 1), d'))"

definition executionRepo_Heartbeat :: "int \<Rightarrow> string \<Rightarrow> string \<Rightarrow> time \<Rightarrow> bool db_op" where
  "executionRepo_Heartbeat executionID owner runToken leaseUntil =
     one_row (op_wrap ''renew execution lease''
       (transaction (update_executions (holds_lease executionID owner runToken) (renew_lease leaseUntil))))"

definition succeed_execution :: "time \<Rightarrow> int \<Rightarrow> string \<Rightarrow> int \<Rightarrow> TimerExecution \<Rightarrow> TimerExecution" where
  "succeed_execution finishedAt responseCode responseBody durationMS e = e\<lparr>
     te_Status := ExecutionStatusSuccess, te_FinishedAt := Some finishedAt,
     te_ResponseCode := responseCode, te_ResponseBody := responseBody, te_ErrorMessage := [],
     te_DurationMS := durationMS, te_LeaseOwner := [], te_LeaseUntil := None, te_RunToken := [],
     te_NextAttemptAt := None\<rparr>"

definition executionRepo_CompleteSuccess ::
  "int \<Rightarrow> string \<Rightarrow> string \<Rightarrow> time \<Rightarrow> int \<Rightarrow> string \<Rightarrow> int \<Rightarrow> bool db_op" where
  "executionRepo_CompleteSuccess executionID owner runToken finishedAt responseCode responseBody durationMS =
     one_row (op_wrap ''persist successful execution state''
       (transaction (update_executions (holds_lease executionID owner runToken)
          (succeed_execution finishedAt responseCode responseBody durationMS))))"

text \<open>\<^verbatim>\<open>newExecutionOutboxEvent\<close>; marshalling a map of strings and numbers does not
  fail.\<close>

definition event_payload :: "int \<Rightarrow> string \<Rightarrow> string \<Rightarrow> time \<Rightarrow> json" where
  "event_payload executionID eventID eventType createdAt =
     JObj [(''created_at'', JTime createdAt), (''event_id'', JStr eventID),
           (''event_type'', JStr eventType), (''execution_id'', JNum executionID)]"

definition newExecutionOutboxEvent :: "int \<Rightarrow> string \<Rightarrow> string \<Rightarrow> time \<Rightarrow> time \<Rightarrow> OutboxEvent" where
  "newExecutionOutboxEvent executionID eventID eventType availableAt createdAt =
     new_event eventID executionID eventType (event_payload executionID eventID eventType createdAt)
       availableAt"

definition fail_execution ::
  "bool \<Rightarrow> time \<Rightarrow> int \<Rightarrow> string \<Rightarrow> string \<Rightarrow> int \<Rightarrow> time \<Rightarrow> TimerExecution \<Rightarrow> TimerExecution" where
  "fail_execution retryScheduled finishedAt responseCode responseBody errorMessage durationMS retryAt e =
     (let e' = e\<lparr>te_FinishedAt := Some finishedAt, te_ResponseCode := responseCode,
                 te_ResponseBody := responseBody, te_ErrorMessage := errorMessage,
                 te_DurationMS := durationMS, te_LeaseOwner := [], te_LeaseUntil := None,
                 te_RunToken := []\<rparr>
      in if retryScheduled then
           e'\<lparr>te_Status := ExecutionStatusRetryWait, te_NextAttemptAt := Some retryAt,
              te_LastEnqueuedAt := Some retryAt\<rparr>
         else e'\<lparr>te_Status := ExecutionStatusFailed, te_NextAttemptAt := None\<rparr>)"

definition retry_event :: "TimerExecution \<Rightarrow> time \<Rightarrow> time \<Rightarrow> OutboxEvent" where
  "retry_event execution retryAt finishedAt =
     newExecutionOutboxEvent (te_ID execution) (retry_event_id (te_ID execution) (te_Attempt execution))
       OutboxEventExecutionRetry retryAt finishedAt"

definition executionRepo_CompleteFailure ::
  "TimerExecution \<Rightarrow> string \<Rightarrow> string \<Rightarrow> time \<Rightarrow> int \<Rightarrow> string \<Rightarrow> string \<Rightarrow> int \<Rightarrow> time \<Rightarrow> bool \<Rightarrow>
     (bool \<times> bool) db_op" where
  "executionRepo_CompleteFailure execution owner runToken finishedAt responseCode responseBody
     errorMessage durationMS retryAt retryable =
     (let retryScheduled = (retryable \<and> te_Attempt execution < te_MaxAttempts execution)
      in op_wrap ''persist failed execution state''
           (transaction
              (tx_bind
                 (update_executions (holds_lease (te_ID execution) owner runToken)
                    (fail_execution retryScheduled finishedAt responseCode responseBody errorMessage
                       durationMS retryAt))
                 (\<lambda>affected.
                    if affected \<noteq> 1 then tx_return (False, False)
                    else if \<not> retryScheduled then tx_return (True, False)
                    else tx_bind (insert_outbox (retry_event execution retryAt finishedAt))
                           (\<lambda>_. tx_return (True, True))))))"

definition executionRepo_CountByStatus :: "(ExecutionStatus \<Rightarrow> int option) db_op" where
  "executionRepo_CountByStatus =
     op_wrap ''count execution statuses''
       (query (read_stmt (\<lambda>d. group_counts te_Status (executions d))))"

section \<open>Facts\<close>

lemma one_row_Inr: "one_row m ses d = (Inr b, d') \<longleftrightarrow> (\<exists>n. m ses d = (Inr n, d') \<and> b = (n = 1))"
  by (auto simp: one_row_def split: prod.splits sum.splits)

lemma one_row_state: "snd (one_row m ses d) = snd (m ses d)"
  by (simp add: one_row_def split: prod.splits sum.splits)

lemmas execution_row_defs =
  start_attempt_def renew_lease_def succeed_execution_def fail_execution_def touch_execution_def

text \<open>What the fields that no update of this repository touches are.\<close>

definition keeps_identity :: "(TimerExecution \<Rightarrow> TimerExecution) \<Rightarrow> bool" where
  "keeps_identity f \<longleftrightarrow>
     (\<forall>e. te_ID (f e) = te_ID e \<and> te_TimerID (f e) = te_TimerID e \<and>
        te_ScheduledAt (f e) = te_ScheduledAt e \<and> te_RequestSnapshot (f e) = te_RequestSnapshot e \<and>
        te_MaxAttempts (f e) = te_MaxAttempts e)"

lemma keeps_identity_ops [simp]:
  "keeps_identity (start_attempt owner token now until)"
  "keeps_identity (renew_lease until)"
  "keeps_identity (succeed_execution at code body ms)"
  "keeps_identity (fail_execution b at code body msg ms retry)"
  by (auto simp: keeps_identity_def execution_row_defs Let_def)

lemma keeps_identity_touch: "keeps_identity f \<Longrightarrow> keeps_identity (\<lambda>e. touch_execution u (f e))"
  by (simp add: keeps_identity_def touch_execution_def)

lemma touch_row_ok [simp]: "execution_row_ok (touch_execution u e) = execution_row_ok e"
  by (simp add: execution_row_ok_def touch_execution_def)

lemma db_ok_update_executions_identity:
  assumes "db_ok d" "keeps_identity g"
    and "\<And>r. r \<in> set (executions d) \<Longrightarrow> P r \<Longrightarrow> execution_row_ok r \<Longrightarrow> execution_row_ok (g r)"
  shows "db_ok (put_executions (update_rows P (\<lambda>r. touch_execution u (g r)) (executions d)) d)"
  using keeps_identity_touch [OF assms(2)] assms
  by (intro db_ok_update_executions) (auto simp: keeps_identity_def)

lemma ensures_update_executions_ok:
  assumes "keeps_identity f" "\<And>r. P r \<Longrightarrow> execution_row_ok r \<Longrightarrow> execution_row_ok (f r)"
  shows "ensures ses db_ok (update_executions P f) (\<lambda>_. db_ok)"
  by (rule ex.ensures_update) (use assms in \<open>auto intro: db_ok_update_executions_identity\<close>)

lemma start_attempt_row_ok:
  "execution_row_ok e \<Longrightarrow> token \<noteq> [] \<Longrightarrow> execution_row_ok (start_attempt owner token now until e)"
  by (auto simp: execution_row_ok_def start_attempt_def split: if_splits)

lemma running_row_ok:
  assumes "execution_row_ok e" "te_Status e = ExecutionStatusRunning"
  shows "execution_row_ok (renew_lease until e)"
    and "execution_row_ok (succeed_execution at code body ms e)"
    and "execution_row_ok (fail_execution b at code body msg ms retry e)"
  using assms
  by (auto simp: execution_row_ok_def renew_lease_def succeed_execution_def fail_execution_def Let_def)

lemma claim_update_ok:
  assumes "db_ok d" "token \<noteq> []"
  shows "db_ok (snd (claim_update i owner token now ttl ses d))"
  unfolding claim_update_def op_wrap_state
  by (rule snd_transaction_preserves [OF ensures_update_executions_ok assms(1)])
     (simp_all add: start_attempt_row_ok assms(2))

lemma claim_read_state: "snd (claim_read i ses d) = d"
  by (simp add: claim_read_def op_wrap_state)

lemma Heartbeat_ok: "db_ok d \<Longrightarrow> db_ok (snd (executionRepo_Heartbeat i owner token until ses d))"
  unfolding executionRepo_Heartbeat_def one_row_state op_wrap_state
  by (rule snd_transaction_preserves [OF ensures_update_executions_ok])
     (auto simp: holds_lease_def running_row_ok)

lemma CompleteSuccess_ok:
  "db_ok d \<Longrightarrow> db_ok (snd (executionRepo_CompleteSuccess i owner token at code body ms ses d))"
  unfolding executionRepo_CompleteSuccess_def one_row_state op_wrap_state
  by (rule snd_transaction_preserves [OF ensures_update_executions_ok])
     (auto simp: holds_lease_def running_row_ok)

lemma CountByStatus_state: "snd (executionRepo_CountByStatus ses d) = d"
  by (simp add: executionRepo_CountByStatus_def op_wrap_state)

subsection \<open>Which row a fenced write reaches\<close>

lemma holds_lease_unique:
  "db_ok d \<Longrightarrow> e \<in> set (executions d) \<Longrightarrow> e' \<in> set (executions d) \<Longrightarrow>
     holds_lease i owner token e \<Longrightarrow> holds_lease i owner token e' \<Longrightarrow> e = e'"
  by (rule execution_by_id) (auto simp: holds_lease_def)

text \<open>A conditional UPDATE of one Execution by key: it changed exactly the row that met the
  condition, when there was one.\<close>

lemma execution_update_effect:
  assumes "transaction (update_executions P f) ses d = (Inr n, d')" "db_ok d"
    and "\<And>r. P r \<Longrightarrow> te_ID r = i" "\<And>u r. P r \<Longrightarrow> touch_execution u (f r) \<noteq> r"
  obtains u where "d' = put_executions (update_rows P (\<lambda>r. touch_execution u (f r)) (executions d)) d"
    and "n = 1 \<longleftrightarrow> (\<exists>r \<in> set (executions d). P r)"
    and "\<And>r. r \<in> set (executions d) \<Longrightarrow> P r \<Longrightarrow> execution_fits (touch_execution u (f r))"
proof -
  from assms(1) obtain u where
    u: "d' = put_executions (update_rows P (\<lambda>r. touch_execution u (f r)) (executions d)) d"
      "n = changed_rows P (\<lambda>r. touch_execution u (f r)) (executions d)"
      "\<And>r. r \<in> set (executions d) \<Longrightarrow> P r \<Longrightarrow> execution_fits (touch_execution u (f r))"
    by (rule ex.update_effect) blast
  have "n = 1 \<longleftrightarrow> (\<exists>r \<in> set (executions d). P r \<and> touch_execution u (f r) \<noteq> r)"
    unfolding u(2) using db_ok_distinct(2) [OF assms(2)] assms(3) by (rule changed_rows_unique)
  with assms(4) u that show ?thesis by blast
qed

lemma update_nobody:
  assumes "\<And>r. r \<in> set (executions d) \<Longrightarrow> \<not> P r"
  shows "put_executions (update_rows P g (executions d)) d = d"
  using assms by (simp add: update_rows_same put_executions_def)

lemma start_attempt_changes: "touch_execution u (start_attempt owner token now until e) \<noteq> e"
proof
  assume "touch_execution u (start_attempt owner token now until e) = e"
  then have "te_Attempt (touch_execution u (start_attempt owner token now until e)) = te_Attempt e" by simp
  then show False by (simp add: touch_execution_def start_attempt_def)
qed

lemma completion_changes:
  assumes "te_Status e = ExecutionStatusRunning"
  shows "touch_execution u (succeed_execution at code body ms e) \<noteq> e"
    and "touch_execution u (fail_execution b at code body msg ms retry e) \<noteq> e"
proof -
  have "te_Status (touch_execution u (succeed_execution at code body ms e)) \<noteq> te_Status e"
    "te_Status (touch_execution u (fail_execution b at code body msg ms retry e)) \<noteq> te_Status e"
    using assms by (auto simp: execution_row_defs Let_def)
  then show "touch_execution u (succeed_execution at code body ms e) \<noteq> e"
    "touch_execution u (fail_execution b at code body msg ms retry e) \<noteq> e" by metis+
qed

text \<open>A claim succeeds exactly when the Execution is executable.\<close>

lemma claim_update_Inr:
  assumes "claim_update i owner token now ttl ses d = (Inr n, d')" "db_ok d"
  obtains u where "d' = put_executions (update_rows (\<lambda>e. te_ID e = i \<and> executable now e)
      (\<lambda>r. touch_execution u (start_attempt owner token now (time_add now ttl) r)) (executions d)) d"
    and "n = 1 \<longleftrightarrow> (\<exists>e \<in> set (executions d). te_ID e = i \<and> executable now e)"
proof -
  have t: "transaction (update_executions (\<lambda>e. te_ID e = i \<and> executable now e)
      (start_attempt owner token now (time_add now ttl))) ses d = (Inr n, d')"
    using assms(1) by (simp add: claim_update_def op_wrap_Inr)
  show ?thesis
    by (rule execution_update_effect [OF t assms(2)]) (auto simp: start_attempt_changes that)
qed

lemma CompleteSuccess_Inr:
  assumes "executionRepo_CompleteSuccess i owner token at code body ms ses d = (Inr b, d')" "db_ok d"
  obtains u where "d' = put_executions (update_rows (holds_lease i owner token)
      (\<lambda>r. touch_execution u (succeed_execution at code body ms r)) (executions d)) d"
    and "b \<longleftrightarrow> (\<exists>e \<in> set (executions d). holds_lease i owner token e)"
proof -
  obtain n where b: "b = (n = 1)" and t: "transaction (update_executions (holds_lease i owner token)
      (succeed_execution at code body ms)) ses d = (Inr n, d')"
    using assms(1) by (auto simp: executionRepo_CompleteSuccess_def one_row_Inr op_wrap_Inr)
  show ?thesis
  proof (rule execution_update_effect [OF t assms(2)])
    show "te_ID r = i" if "holds_lease i owner token r" for r using that by (simp add: holds_lease_def)
    show "touch_execution u (succeed_execution at code body ms r) \<noteq> r" if "holds_lease i owner token r" for u r
      using that by (simp add: holds_lease_def completion_changes)
  qed (use b that in blast)
qed

subsection \<open>Failure\<close>

lemma retry_event_row:
  assumes "o' = create_outbox_row i u (retry_event e retryAt at)" "te_ID e' = te_ID e"
  shows "outbox_row_ok o'" "oe_AggregateType o' = OutboxAggregateTimerExecution" "event_of e' o'"
  using assms
  by (auto simp: outbox_row_ok_def event_of_def create_outbox_row_def retry_event_def
      newExecutionOutboxEvent_def new_event_def)

definition failed_rel ::
  "TimerExecution \<Rightarrow> string \<Rightarrow> string \<Rightarrow> bool \<Rightarrow> time \<Rightarrow> (TimerExecution \<Rightarrow> TimerExecution) \<Rightarrow> time \<Rightarrow> db \<Rightarrow>
     bool \<times> bool \<Rightarrow> db \<Rightarrow> bool" where
  "failed_rel x owner token retry at f retryAt d res d' \<longleftrightarrow>
     (\<exists>u d1. d1 = put_executions (update_rows (holds_lease (te_ID x) owner token)
           (\<lambda>r. touch_execution u (f r)) (executions d)) d \<and>
        fst res = (\<exists>e \<in> set (executions d). holds_lease (te_ID x) owner token e) \<and>
        snd res = (fst res \<and> retry) \<and>
        (if snd res then \<exists>v. let o' = create_outbox_row (outbox_seq d1) v (retry_event x retryAt at) in
             (\<forall>y \<in> set (outbox d). oe_EventID y \<noteq> oe_EventID o') \<and>
             d' = bump_outbox (put_outbox (outbox d1 @ [o']) d1)
         else d' = d1))"

lemma CompleteFailure_Inr:
  assumes "executionRepo_CompleteFailure x owner token at code body msg ms retryAt retryable ses d = (Inr res, d')"
    and "db_ok d" and retry: "retry = (retryable \<and> te_Attempt x < te_MaxAttempts x)"
  shows "failed_rel x owner token retry at (fail_execution retry at code body msg ms retryAt) retryAt d res d'"
proof -
  let ?P = "holds_lease (te_ID x) owner token" and ?f = "fail_execution retry at code body msg ms retryAt"
  let ?mid = "\<lambda>n d1. (\<exists>u. d1 = put_executions (update_rows ?P (\<lambda>r. touch_execution u (?f r)) (executions d)) d) \<and>
      (n = 1 \<longleftrightarrow> (\<exists>e \<in> set (executions d). ?P e))"
  let ?R = "failed_rel x owner token retry at ?f retryAt d"
  have upd: "ensures ses (\<lambda>d1. d1 = d) (update_executions ?P ?f) ?mid"
  proof (rule ex.ensures_update)
    fix u d1 assume d1: "d1 = d"
    have "changed_rows ?P (\<lambda>r. touch_execution u (?f r)) (executions d) = 1 \<longleftrightarrow>
        (\<exists>e \<in> set (executions d). ?P e \<and> touch_execution u (?f e) \<noteq> e)"
      by (rule changed_rows_unique [OF db_ok_distinct(2) [OF assms(2)], where k = "te_ID x"])
         (simp add: holds_lease_def)
    moreover have "touch_execution u (?f e) \<noteq> e" if "?P e" for e
      using that completion_changes(2) by (simp add: holds_lease_def)
    ultimately show "?mid (changed_rows ?P (\<lambda>r. touch_execution u (?f r)) (executions d1))
        (put_executions (update_rows ?P (\<lambda>r. touch_execution u (?f r)) (executions d1)) d1)"
      unfolding d1 by blast
  qed
  have "ensures ses (\<lambda>d1. ?mid 1 d1) (insert_outbox (retry_event x retryAt at)) (\<lambda>_. ?R (True, retry))" if retry
    by (rule ob.ensures_insert)
       (use that in \<open>force simp: failed_rel_def Let_def same_event_def put_executions_def\<close>)
  note ins = this
  have "ensures ses (?mid n)
      (if n \<noteq> 1 then tx_return (False, False)
       else if \<not> retry then tx_return (True, False)
       else tx_bind (insert_outbox (retry_event x retryAt at)) (\<lambda>_. tx_return (True, True))) ?R" for n
  proof (cases "n = 1 \<and> retry")
    case True
    have "ensures ses (?mid 1) (tx_bind (insert_outbox (retry_event x retryAt at)) (\<lambda>_. tx_return (True, True))) ?R"
      by (rule ensures_bind [OF ins]) (use True in \<open>simp_all add: ensures_return\<close>)
    with True show ?thesis by simp
  next
    case False
    then show ?thesis by (auto intro!: ensures_return simp: failed_rel_def)
  qed
  from transaction_ok [OF ensures_bind [OF upd this] refl] assms(1)
  show ?thesis
    unfolding executionRepo_CompleteFailure_def Let_def retry [symmetric] op_wrap_Inr by blast
qed

lemma CompleteFailure_error:
  assumes "executionRepo_CompleteFailure x owner token at code body msg ms retryAt retryable ses d = (Inl e, d')"
  shows "d' = d"
proof -
  let ?retry = "retryable \<and> te_Attempt x < te_MaxAttempts x"
  let ?P = "holds_lease (te_ID x) owner token" and ?f = "fail_execution ?retry at code body msg ms retryAt"
  from assms obtain e0 where "transaction
              (tx_bind (update_executions ?P ?f)
                 (\<lambda>affected.
                    if affected \<noteq> 1 then tx_return (False, False)
                    else if \<not> ?retry then tx_return (True, False)
                    else tx_bind (insert_outbox (retry_event x retryAt at))
                           (\<lambda>_. tx_return (True, True)))) ses d = (Inl e0, d')"
    unfolding executionRepo_CompleteFailure_def Let_def using op_wrap_Inl by blast
  then show ?thesis by (rule transaction_error)
qed

lemma CompleteFailure_ok:
  assumes "db_ok d"
  shows "db_ok (snd (executionRepo_CompleteFailure x owner token at code body msg ms retryAt retryable ses d))"
proof -
  let ?retry = "retryable \<and> te_Attempt x < te_MaxAttempts x"
  let ?P = "holds_lease (te_ID x) owner token" and ?f = "fail_execution ?retry at code body msg ms retryAt"
  obtain r d' where c: "executionRepo_CompleteFailure x owner token at code body msg ms retryAt retryable ses d = (r, d')"
    by force
  have "db_ok d'"
  proof (cases r)
    case (Inl e)
    with c CompleteFailure_error assms show ?thesis by blast
  next
    case (Inr res)
    from CompleteFailure_Inr [OF c [unfolded Inr] assms refl] obtain u d1 where
      d1: "d1 = put_executions (update_rows ?P (\<lambda>r. touch_execution u (?f r)) (executions d)) d"
      and fst: "fst res = (\<exists>e \<in> set (executions d). ?P e)" and snd: "snd res = (fst res \<and> ?retry)"
      and d': "if snd res then \<exists>v. let o' = create_outbox_row (outbox_seq d1) v (retry_event x retryAt at) in
             (\<forall>y \<in> set (outbox d). oe_EventID y \<noteq> oe_EventID o') \<and>
             d' = bump_outbox (put_outbox (outbox d1 @ [o']) d1) else d' = d1"
      unfolding failed_rel_def by blast
    have ok: "db_ok d1"
      unfolding d1 by (rule db_ok_update_executions_identity [OF assms])
        (auto simp: holds_lease_def running_row_ok)
    show ?thesis
    proof (cases "snd res")
      case True
      with d' obtain v o' where o': "o' = create_outbox_row (outbox_seq d1) v (retry_event x retryAt at)"
        "\<forall>y \<in> set (outbox d). oe_EventID y \<noteq> oe_EventID o'" "d' = bump_outbox (put_outbox (outbox d1 @ [o']) d1)"
        by (auto simp: Let_def)
      from True snd fst obtain e where e: "e \<in> set (executions d)" "?P e" by blast
      let ?e = "touch_execution u (?f e)"
      have "?e \<in> set (executions d1)"
        using update_rows_image [OF e(1), of ?P "\<lambda>r. touch_execution u (?f r)"] e(2)
        by (simp add: d1 put_executions_def)
      moreover have "te_ID ?e = te_ID x"
        using keeps_identity_touch [OF keeps_identity_ops(4)] e(2)
        by (simp add: keeps_identity_def holds_lease_def)
      ultimately have "\<exists>e \<in> set (executions d1). event_of e o'"
        using retry_event_row(3) [OF o'(1)] by blast
      moreover have "\<forall>y \<in> set (outbox d1). \<not> same_event o' y"
        using o'(2) by (auto simp: d1 put_executions_def same_event_def)
      ultimately show ?thesis
        unfolding o'(3) using retry_event_row(1,2) [OF o'(1) refl]
        by (intro db_ok_insert_outbox [OF ok _ o'(1)]) auto
    qed (use d' ok in simp)
  qed
  with c show ?thesis by simp
qed

end
