(* ===== verification/Recovery_Repo.thy ===== *)
theory Recovery_Repo
  imports Execution_Repo
begin

text \<open>
  \<^verbatim>\<open>internal/repository/recovery_repo.go\<close>: putting stalled Executions back to work, giving up
  those whose lease ran out on their last attempt, and deleting history.  As in
  \<^theory_text>\<open>Scheduler_Repo\<close>, a relation between the database at the start and after any prefix of
  the batch is the loop invariant and the specification.
\<close>

section \<open>RecoverBatch\<close>

record RecoveryResult =
  rr_Reenqueued :: int
  rr_ExpiredLeases :: int
  rr_FinalFailures :: int

definition before :: "time \<Rightarrow> time option \<Rightarrow> bool" where
  "before t x \<longleftrightarrow> (case x of None \<Rightarrow> False | Some s \<Rightarrow> s < t)"

definition stale :: "time \<Rightarrow> TimerExecution \<Rightarrow> bool" where
  "stale staleBefore e \<longleftrightarrow> te_LastEnqueuedAt e = None \<or> before staleBefore (te_LastEnqueuedAt e)"

definition recoverable :: "time \<Rightarrow> time \<Rightarrow> TimerExecution \<Rightarrow> bool" where
  "recoverable now staleBefore e \<longleftrightarrow>
     (te_Status e = ExecutionStatusPending \<and> te_ScheduledAt e \<le> now \<and> stale staleBefore e) \<or>
     (te_Status e = ExecutionStatusRetryWait \<and>
        (case te_NextAttemptAt e of None \<Rightarrow> False | Some t \<Rightarrow> t \<le> now) \<and> stale staleBefore e) \<or>
     (te_Status e = ExecutionStatusRunning \<and> before now (te_LeaseUntil e))"

definition by_scheduled_at :: "TimerExecution list \<Rightarrow> TimerExecution list" where
  "by_scheduled_at es = sort_key te_ScheduledAt es"

definition same_run :: "TimerExecution \<Rightarrow> TimerExecution \<Rightarrow> bool" where
  "same_run x e \<longleftrightarrow>
     te_ID e = te_ID x \<and> te_Status e = ExecutionStatusRunning \<and> te_RunToken e = te_RunToken x"

definition give_up :: "time \<Rightarrow> TimerExecution \<Rightarrow> TimerExecution" where
  "give_up now e = e\<lparr>
     te_Status := ExecutionStatusFailed, te_FinishedAt := Some now,
     te_ErrorMessage := ''execution lease expired after reaching the maximum number of attempts'',
     te_LeaseOwner := [], te_LeaseUntil := None, te_RunToken := []\<rparr>"

definition release_lease :: "time \<Rightarrow> TimerExecution \<Rightarrow> TimerExecution" where
  "release_lease now e = e\<lparr>
     te_Status := ExecutionStatusRetryWait, te_NextAttemptAt := Some now, te_LeaseOwner := [],
     te_LeaseUntil := None, te_RunToken := [],
     te_ErrorMessage := ''execution lease expired and was re-enqueued by the reconciler''\<rparr>"

definition mark_enqueued :: "time \<Rightarrow> TimerExecution \<Rightarrow> TimerExecution" where
  "mark_enqueued now e = e\<lparr>te_LastEnqueuedAt := Some now\<rparr>"

definition recovery_event :: "int \<Rightarrow> time \<Rightarrow> OutboxEvent" where
  "recovery_event executionID now =
     newExecutionOutboxEvent executionID (recovery_event_id executionID now)
       OutboxEventExecutionRecovery now now"

definition reenqueue :: "time \<Rightarrow> TimerExecution \<Rightarrow> RecoveryResult \<Rightarrow> RecoveryResult tx" where
  "reenqueue now x res =
     tx_bind (insert_outbox (recovery_event (te_ID x) now))
       (\<lambda>_. tx_bind (update_executions (\<lambda>e. te_ID e = te_ID x) (mark_enqueued now))
         (\<lambda>_. tx_return (res\<lparr>rr_Reenqueued := rr_Reenqueued res + 1\<rparr>)))"

definition recover_execution :: "time \<Rightarrow> TimerExecution \<Rightarrow> RecoveryResult \<Rightarrow> RecoveryResult tx" where
  "recover_execution now x res =
     (if te_Status x = ExecutionStatusRunning then
        (let res = res\<lparr>rr_ExpiredLeases := rr_ExpiredLeases res + 1\<rparr>
         in if te_MaxAttempts x \<le> te_Attempt x then
              tx_bind (update_executions (same_run x) (give_up now))
                (\<lambda>affected. tx_return
                   (if affected = 1 then res\<lparr>rr_FinalFailures := rr_FinalFailures res + 1\<rparr> else res))
            else
              tx_bind (update_executions (same_run x) (release_lease now)) (\<lambda>_. reenqueue now x res))
      else reenqueue now x res)"

definition no_recovery :: RecoveryResult where
  "no_recovery = \<lparr>rr_Reenqueued = 0, rr_ExpiredLeases = 0, rr_FinalFailures = 0\<rparr>"

definition recoveryRepo_RecoverBatch :: "time \<Rightarrow> time \<Rightarrow> int \<Rightarrow> RecoveryResult db_op" where
  "recoveryRepo_RecoverBatch now staleBefore limit =
     op_wrap ''recover execution batch''
       (transaction
          (tx_bind (lock_executions by_scheduled_at limit (recoverable now staleBefore))
             (\<lambda>xs. tx_each (recover_execution now) xs no_recovery)))"

section \<open>Cleanup\<close>

record CleanupResult =
  cu_OutboxEvents :: int
  cu_Executions :: int

definition old_event :: "time \<Rightarrow> OutboxEvent \<Rightarrow> bool" where
  "old_event outboxBefore o' \<longleftrightarrow> before outboxBefore (oe_PublishedAt o')"

definition old_execution :: "time \<Rightarrow> db \<Rightarrow> TimerExecution \<Rightarrow> bool" where
  "old_execution executionBefore d e \<longleftrightarrow>
     te_Status e \<in> {ExecutionStatusSuccess, ExecutionStatusFailed, ExecutionStatusCancelled} \<and>
     before executionBefore (te_FinishedAt e) \<and>
     \<not> list_ex (\<lambda>o'. oe_AggregateType o' = OutboxAggregateTimerExecution \<and> oe_AggregateID o' = te_ID e)
         (outbox d)"

definition recoveryRepo_Cleanup :: "time \<Rightarrow> time \<Rightarrow> int \<Rightarrow> CleanupResult db_op" where
  "recoveryRepo_Cleanup outboxBefore executionBefore limit =
     op_wrap ''clean up historical data''
       (transaction
          (tx_bind (delete_stmt outbox put_outbox limit (\<lambda>_. old_event outboxBefore))
             (\<lambda>events. tx_bind (delete_stmt executions put_executions limit (old_execution executionBefore))
                (\<lambda>nexecutions. tx_return \<lparr>cu_OutboxEvents = events, cu_Executions = nexecutions\<rparr>))))"

section \<open>What a recovery has done\<close>

text \<open>An expired lease on the last attempt.\<close>

definition exhausted :: "TimerExecution \<Rightarrow> bool" where
  "exhausted x \<longleftrightarrow> te_Status x = ExecutionStatusRunning \<and> te_MaxAttempts x \<le> te_Attempt x"

definition recover_row :: "time \<Rightarrow> TimerExecution \<Rightarrow> TimerExecution" where
  "recover_row now e =
     (if te_Status e = ExecutionStatusRunning then
        (if te_MaxAttempts e \<le> te_Attempt e then give_up now e
         else mark_enqueued now (release_lease now e))
      else mark_enqueued now e)"

text \<open>\<open>ids\<close>: the Executions already dealt with.\<close>

definition recovered :: "time \<Rightarrow> int set \<Rightarrow> TimerExecution \<Rightarrow> TimerExecution \<Rightarrow> bool" where
  "recovered now ids e e' \<longleftrightarrow>
     (if te_ID e \<in> ids then \<exists>u. e' = touch_execution u (recover_row now e) else e' = e)"

text \<open>Half-way through the Execution \<open>x\<close>, whose row has become \<open>h\<close> of what it was.\<close>

definition recovering ::
  "time \<Rightarrow> int set \<Rightarrow> int \<Rightarrow> (TimerExecution \<Rightarrow> TimerExecution) \<Rightarrow> TimerExecution \<Rightarrow> TimerExecution \<Rightarrow> bool" where
  "recovering now ids i h e e' \<longleftrightarrow>
     (if te_ID e = i then \<exists>u. e' = touch_execution u (h e) else recovered now ids e e')"

definition recovery_for :: "time \<Rightarrow> TimerExecution \<Rightarrow> OutboxEvent \<Rightarrow> bool" where
  "recovery_for now x o' \<longleftrightarrow> (\<exists>i u. o' = create_outbox_row i u (recovery_event (te_ID x) now))"

definition recovery_state ::
  "db \<Rightarrow> time \<Rightarrow> (TimerExecution \<Rightarrow> TimerExecution \<Rightarrow> bool) \<Rightarrow> TimerExecution list \<Rightarrow> db \<Rightarrow> bool" where
  "recovery_state d0 now R enq d \<longleftrightarrow>
     db_ok d \<and> timers d = timers d0 \<and> list_all2 R (executions d0) (executions d) \<and>
     (\<exists>evs. outbox d = outbox d0 @ evs \<and> list_all2 (recovery_for now) enq evs)"

definition recovery_counts :: "TimerExecution list \<Rightarrow> RecoveryResult" where
  "recovery_counts xs = \<lparr>
     rr_Reenqueued = int (length (filter (\<lambda>x. \<not> exhausted x) xs)),
     rr_ExpiredLeases = int (length (filter (\<lambda>x. te_Status x = ExecutionStatusRunning) xs)),
     rr_FinalFailures = int (length (filter exhausted xs))\<rparr>"

subsection \<open>Rows\<close>

lemma touch_touch [simp]: "touch_execution u (touch_execution v e) = touch_execution u e"
  by (simp add: touch_execution_def)

lemma touch_id [simp]: "te_ID (touch_execution u e) = te_ID e"
  by (simp add: touch_execution_def)

lemma keeps_identity_id: "keeps_identity f \<Longrightarrow> te_ID (f e) = te_ID e"
  by (simp add: keeps_identity_def)

lemma touch_same: "touch_execution (te_UpdatedAt e) e = e"
  by (simp add: touch_execution_def)

lemma touch_commute [simp]:
  "give_up now (touch_execution u e) = touch_execution u (give_up now e)"
  "release_lease now (touch_execution u e) = touch_execution u (release_lease now e)"
  "mark_enqueued now (touch_execution u e) = touch_execution u (mark_enqueued now e)"
  by (simp_all add: touch_execution_def give_up_def release_lease_def mark_enqueued_def)

lemma keeps_identity_recovery [simp]:
  "keeps_identity (give_up now)" "keeps_identity (release_lease now)"
  "keeps_identity (mark_enqueued now)" "keeps_identity (\<lambda>e. e)"
  by (simp_all add: keeps_identity_def give_up_def release_lease_def mark_enqueued_def)

lemma recovery_row_ok:
  "execution_row_ok e \<Longrightarrow> te_Status e = ExecutionStatusRunning \<Longrightarrow> execution_row_ok (give_up now e)"
  "execution_row_ok e \<Longrightarrow> te_Status e = ExecutionStatusRunning \<Longrightarrow> execution_row_ok (release_lease now e)"
  "execution_row_ok e \<Longrightarrow> execution_row_ok (mark_enqueued now e)"
  by (auto simp: execution_row_ok_def give_up_def release_lease_def mark_enqueued_def)

lemma recovered_id: "recovered now ids e e' \<Longrightarrow> te_ID e' = te_ID e"
  by (auto simp: recovered_def recover_row_def give_up_def release_lease_def mark_enqueued_def
      touch_execution_def split: if_splits)

lemma recovering_start: "i \<notin> ids \<Longrightarrow> recovered now ids e e' \<Longrightarrow> recovering now ids i (\<lambda>e. e) e e'"
  by (auto simp: recovering_def recovered_def touch_same intro!: exI [of _ "te_UpdatedAt e"])

lemma recovering_done:
  assumes "recovering now ids (te_ID x) h e e'" "te_ID e = te_ID x \<Longrightarrow> h e = recover_row now e"
  shows "recovered now (insert (te_ID x) ids) e e'"
  using assms by (cases "te_ID e = te_ID x") (simp_all add: recovering_def recovered_def)

lemma recovery_state_mono:
  assumes "recovery_state d0 now R enq d" "\<And>e e'. e \<in> set (executions d0) \<Longrightarrow> R e e' \<Longrightarrow> S e e'"
  shows "recovery_state d0 now S enq d"
  using assms unfolding recovery_state_def by (auto intro: list.rel_mono_strong)

text \<open>The row of the Execution under way.\<close>

lemma recovering_row:
  assumes "db_ok d0" "recovery_state d0 now (recovering now ids (te_ID x) h) enq d"
    and "x \<in> set (executions d0)" "keeps_identity h"
  obtains u where "touch_execution u (h x) \<in> set (executions d)"
    and "\<And>r. r \<in> set (executions d) \<Longrightarrow> te_ID r = te_ID x \<Longrightarrow> r = touch_execution u (h x)"
proof -
  have rel: "list_all2 (recovering now ids (te_ID x) h) (executions d0) (executions d)" and ok: "db_ok d"
    using assms(2) by (simp_all add: recovery_state_def)
  from rel assms(3) obtain e' where e': "e' \<in> set (executions d)" "recovering now ids (te_ID x) h x e'"
    by (rule list_all2_partner)
  then obtain u where u: "e' = touch_execution u (h x)" by (auto simp: recovering_def)
  then have "te_ID e' = te_ID x"
    using keeps_identity_touch [OF assms(4), of u] by (simp add: keeps_identity_def)
  with e'(1) execution_by_id [OF ok _ e'(1)] have "\<And>r. r \<in> set (executions d) \<Longrightarrow> te_ID r = te_ID x \<Longrightarrow> r = e'"
    by simp
  with e'(1) u that show ?thesis by blast
qed

text \<open>One UPDATE of the Execution under way.\<close>

lemma recovering_update:
  assumes "db_ok d0" and st: "recovery_state d0 now (recovering now ids (te_ID x) h) enq d"
    and x: "x \<in> set (executions d0)" and h: "keeps_identity h" and f: "keeps_identity f"
    and P: "\<And>r. P r \<Longrightarrow> te_ID r = te_ID x" "\<And>u. P (touch_execution u (h x))"
    and comm: "\<And>u e. f (touch_execution u e) = touch_execution u (f e)"
    and row: "execution_row_ok (h x) \<Longrightarrow> execution_row_ok (f (h x))"
  shows "recovery_state d0 now (recovering now ids (te_ID x) (\<lambda>e. f (h e))) enq
     (put_executions (update_rows P (\<lambda>r. touch_execution v (f r)) (executions d)) d)"
proof -
  let ?g = "\<lambda>r. touch_execution v (f r)"
  obtain u where u: "\<And>r. r \<in> set (executions d) \<Longrightarrow> te_ID r = te_ID x \<Longrightarrow> r = touch_execution u (h x)"
    by (rule recovering_row [OF assms(1) st x h]) blast
  have ok: "db_ok d" and rel: "list_all2 (recovering now ids (te_ID x) h) (executions d0) (executions d)"
    using st by (simp_all add: recovery_state_def)
  have "db_ok (put_executions (update_rows P ?g (executions d)) d)"
  proof (rule db_ok_update_executions_identity [OF ok f])
    fix r assume r: "r \<in> set (executions d)" "P r" "execution_row_ok r"
    with u P(1) have "r = touch_execution u (h x)" by blast
    with r(3) row show "execution_row_ok (f r)" by (simp add: comm)
  qed
  moreover have "list_all2 (recovering now ids (te_ID x) (\<lambda>e. f (h e))) (executions d0)
      (update_rows P ?g (executions d))"
    using rel
  proof (rule list_all2_update_rows)
    fix e r assume e: "e \<in> set (executions d0)" and r: "r \<in> set (executions d)"
      and er: "recovering now ids (te_ID x) h e r"
    show "recovering now ids (te_ID x) (\<lambda>e. f (h e)) e (if P r then ?g r else r)"
    proof (cases "te_ID e = te_ID x")
      case True
      with e x execution_by_id [OF assms(1)] have "e = x" by blast
      with er obtain w where "r = touch_execution w (h x)" by (auto simp: recovering_def)
      with P(2) \<open>e = x\<close> show ?thesis by (auto simp: recovering_def comm)
    next
      case False
      with er have "te_ID r \<noteq> te_ID x" using recovered_id by (simp add: recovering_def)
      with P(1) False er show ?thesis by (auto simp: recovering_def)
    qed
  qed
  ultimately show ?thesis
    using st by (simp add: recovery_state_def put_executions_def)
qed

text \<open>The INSERT of its event.\<close>

lemma recovery_event_row:
  assumes "o' = create_outbox_row i u (recovery_event (te_ID x) now)" "te_ID e = te_ID x"
  shows "outbox_row_ok o'" "oe_AggregateType o' = OutboxAggregateTimerExecution" "event_of e o'"
    "recovery_for now x o'"
  using assms
  by (auto simp: outbox_row_ok_def event_of_def create_outbox_row_def recovery_event_def recovery_for_def
      newExecutionOutboxEvent_def new_event_def)

lemma recovering_insert:
  assumes "db_ok d0" and st: "recovery_state d0 now (recovering now ids (te_ID x) h) enq d"
    and x: "x \<in> set (executions d0)" and h: "keeps_identity h"
    and o': "o' = create_outbox_row (outbox_seq d) u (recovery_event (te_ID x) now)"
    and new: "\<forall>y \<in> set (outbox d). \<not> same_event o' y"
  shows "recovery_state d0 now (recovering now ids (te_ID x) h) (enq @ [x])
     (bump_outbox (put_outbox (outbox d @ [o']) d))"
proof -
  obtain v where v: "touch_execution v (h x) \<in> set (executions d)"
    by (rule recovering_row [OF assms(1) st x h])
  have "te_ID (touch_execution v (h x)) = te_ID x"
    using keeps_identity_touch [OF h, of v] by (simp add: keeps_identity_def)
  note ev = recovery_event_row [OF o' this]
  have ok: "db_ok d" using st by (simp add: recovery_state_def)
  have "db_ok (bump_outbox (put_outbox (outbox d @ [o']) d))"
    using ev v by (intro db_ok_insert_outbox [OF ok _ o' new]) auto
  with st ev(4) show ?thesis
    unfolding recovery_state_def by (auto simp: put_outbox_def bump_outbox_def intro: list_all2_appendI)
qed

subsection \<open>One Execution\<close>

lemma reenqueue_ensures:
  assumes "db_ok d0" and x: "x \<in> set (executions d0)" and h: "keeps_identity h"
    and "\<And>e. te_ID e = te_ID x \<Longrightarrow> e \<in> set (executions d0) \<Longrightarrow> mark_enqueued now (h e) = recover_row now e"
  shows "ensures ses (recovery_state d0 now (recovering now ids (te_ID x) h) enq) (reenqueue now x res)
     (\<lambda>res' d. res' = res\<lparr>rr_Reenqueued := rr_Reenqueued res + 1\<rparr> \<and>
        recovery_state d0 now (recovered now (insert (te_ID x) ids)) (enq @ [x]) d)"
proof -
  let ?S = "\<lambda>h. recovery_state d0 now (recovering now ids (te_ID x) h)"
  have ins: "ensures ses (?S h enq) (insert_outbox (recovery_event (te_ID x) now)) (\<lambda>_. ?S h (enq @ [x]))"
    by (rule ob.ensures_insert) (rule recovering_insert [OF assms(1) _ x h refl])
  have upd: "ensures ses (?S h (enq @ [x])) (update_executions (\<lambda>e. te_ID e = te_ID x) (mark_enqueued now))
      (\<lambda>_. ?S (\<lambda>e. mark_enqueued now (h e)) (enq @ [x]))"
    by (rule ex.ensures_update, rule recovering_update [OF assms(1) _ x h])
       (simp_all add: recovery_row_ok keeps_identity_id [OF h])
  have fin: "?S (\<lambda>e. mark_enqueued now (h e)) enq' d \<Longrightarrow>
      recovery_state d0 now (recovered now (insert (te_ID x) ids)) enq' d" for enq' d
    by (erule recovery_state_mono) (erule recovering_done, simp add: assms(4))
  show ?thesis
    unfolding reenqueue_def
    by (rule ensures_bind [OF ins], rule ensures_bind [OF upd], rule ensures_return) (simp add: fin)
qed

lemma recover_execution_ensures:
  assumes ok: "db_ok d0" and x: "x \<in> set (executions d0)" "te_ID x \<notin> ids"
  shows "ensures ses
     (\<lambda>d. res = recovery_counts xs \<and> recovery_state d0 now (recovered now ids) (filter (\<lambda>x. \<not> exhausted x) xs) d)
     (recover_execution now x res)
     (\<lambda>res' d. res' = recovery_counts (xs @ [x]) \<and>
        recovery_state d0 now (recovered now (insert (te_ID x) ids)) (filter (\<lambda>x. \<not> exhausted x) (xs @ [x])) d)"
    (is "ensures ses ?P _ ?Q")
proof -
  let ?enq = "filter (\<lambda>x. \<not> exhausted x) xs"
  let ?S = "\<lambda>h. recovery_state d0 now (recovering now ids (te_ID x) h) ?enq"
  have start: "recovery_state d0 now (recovered now ids) ?enq d \<Longrightarrow> ?S (\<lambda>e. e) d" for d
    by (erule recovery_state_mono) (rule recovering_start [OF x(2)])
  have same: "e = x" if "te_ID e = te_ID x" "e \<in> set (executions d0)" for e
    using execution_by_id [OF ok that(2) x(1) that(1)] .
  have run: "same_run x (touch_execution u x)" if "te_Status x = ExecutionStatusRunning" for u
    using that by (simp add: same_run_def touch_execution_def)
  show ?thesis
  proof (cases "te_Status x = ExecutionStatusRunning")
    case False
    then have nex: "\<not> exhausted x" by (simp add: exhausted_def)
    have "ensures ses ?P (reenqueue now x res)
       (\<lambda>res' d. res' = res\<lparr>rr_Reenqueued := rr_Reenqueued res + 1\<rparr> \<and> res = recovery_counts xs \<and>
          recovery_state d0 now (recovered now (insert (te_ID x) ids)) (?enq @ [x]) d)"
    proof -
      have "ensures ses (?S (\<lambda>e. e)) (reenqueue now x res)
         (\<lambda>res' d. res' = res\<lparr>rr_Reenqueued := rr_Reenqueued res + 1\<rparr> \<and>
            recovery_state d0 now (recovered now (insert (te_ID x) ids)) (?enq @ [x]) d)"
        by (rule reenqueue_ensures [OF ok x(1) keeps_identity_recovery(4)])
           (use same False in \<open>auto simp: recover_row_def\<close>)
      with start show ?thesis unfolding ensures_def by blast
    qed
    then have "ensures ses ?P (reenqueue now x res) ?Q"
      by (rule ensures_post) (use False nex in \<open>simp add: recovery_counts_def\<close>)
    with False show ?thesis by (simp add: recover_execution_def)
  next
    case True
    note running = this
    let ?res = "res\<lparr>rr_ExpiredLeases := rr_ExpiredLeases res + 1\<rparr>"
    show ?thesis
    proof (cases "te_MaxAttempts x \<le> te_Attempt x")
      case True
      then have exh: "exhausted x" using running by (simp add: exhausted_def)
      have upd: "ensures ses ?P (update_executions (same_run x) (give_up now))
          (\<lambda>n d. res = recovery_counts xs \<and> n = 1 \<and> ?S (give_up now) d)"
      proof (rule ex.ensures_update)
        fix v d assume P: "?P d"
        then have st: "?S (\<lambda>e. e) d" using start by blast
        obtain u where u: "touch_execution u x \<in> set (executions d)"
          by (rule recovering_row [OF ok st x(1)]) simp_all
        have "te_Status (touch_execution v (give_up now (touch_execution u x))) \<noteq> te_Status (touch_execution u x)"
          by (simp add: running touch_execution_def give_up_def)
        then have "touch_execution v (give_up now (touch_execution u x)) \<noteq> touch_execution u x" by metis
        with u run [OF running]
        have "\<exists>r \<in> set (executions d). same_run x r \<and> touch_execution v (give_up now r) \<noteq> r" by blast
        moreover have "db_ok d" using st by (simp add: recovery_state_def)
        ultimately have "changed_rows (same_run x) (\<lambda>r. touch_execution v (give_up now r)) (executions d) = 1"
          using changed_rows_unique [OF db_ok_distinct(2), of d "same_run x" "te_ID x"]
          by (simp add: same_run_def)
        moreover have "?S (give_up now) (put_executions (update_rows (same_run x)
            (\<lambda>r. touch_execution v (give_up now r)) (executions d)) d)"
          by (rule recovering_update [OF ok st x(1)])
             (use running run in \<open>auto simp: same_run_def recovery_row_ok\<close>)
        ultimately show "res = recovery_counts xs \<and>
            changed_rows (same_run x) (\<lambda>r. touch_execution v (give_up now r)) (executions d) = 1 \<and>
            ?S (give_up now) (put_executions (update_rows (same_run x)
               (\<lambda>r. touch_execution v (give_up now r)) (executions d)) d)"
          using P by blast
      qed
      have fin: "?S (give_up now) d \<Longrightarrow> recovery_state d0 now (recovered now (insert (te_ID x) ids)) ?enq d" for d
        by (erule recovery_state_mono, erule recovering_done)
           (use same running True in \<open>auto simp: recover_row_def\<close>)
      have "ensures ses ?P
          (tx_bind (update_executions (same_run x) (give_up now))
             (\<lambda>affected. tx_return
                (if affected = 1 then ?res\<lparr>rr_FinalFailures := rr_FinalFailures ?res + 1\<rparr> else ?res))) ?Q"
        by (rule ensures_bind [OF upd], rule ensures_return)
           (use exh running fin in \<open>auto simp: recovery_counts_def\<close>)
      with running True show ?thesis by (simp add: recover_execution_def Let_def)
    next
      case False
      then have nex: "\<not> exhausted x" by (simp add: exhausted_def)
      have upd: "ensures ses ?P (update_executions (same_run x) (release_lease now))
          (\<lambda>n d. res = recovery_counts xs \<and> ?S (release_lease now) d)"
      proof (rule ex.ensures_update)
        fix v d assume P: "?P d"
        then have st: "?S (\<lambda>e. e) d" using start by blast
        have "?S (release_lease now) (put_executions (update_rows (same_run x)
            (\<lambda>r. touch_execution v (release_lease now r)) (executions d)) d)"
          by (rule recovering_update [OF ok st x(1)])
             (use running run in \<open>auto simp: same_run_def recovery_row_ok\<close>)
        with P show "res = recovery_counts xs \<and> ?S (release_lease now) (put_executions (update_rows (same_run x)
            (\<lambda>r. touch_execution v (release_lease now r)) (executions d)) d)" by blast
      qed
      have enq: "ensures ses (\<lambda>d. res = recovery_counts xs \<and> ?S (release_lease now) d) (reenqueue now x ?res) ?Q"
      proof (rule ensures_post)
        show "ensures ses (\<lambda>d. res = recovery_counts xs \<and> ?S (release_lease now) d) (reenqueue now x ?res)
          (\<lambda>res' d. (res' = ?res\<lparr>rr_Reenqueued := rr_Reenqueued ?res + 1\<rparr> \<and>
             recovery_state d0 now (recovered now (insert (te_ID x) ids)) (?enq @ [x]) d) \<and> res = recovery_counts xs)"
        proof -
          have "ensures ses (?S (release_lease now)) (reenqueue now x ?res)
             (\<lambda>res' d. res' = ?res\<lparr>rr_Reenqueued := rr_Reenqueued ?res + 1\<rparr> \<and>
                recovery_state d0 now (recovered now (insert (te_ID x) ids)) (?enq @ [x]) d)"
            by (rule reenqueue_ensures [OF ok x(1) keeps_identity_recovery(2)])
               (use same running False in \<open>auto simp: recover_row_def\<close>)
          then show ?thesis unfolding ensures_def by blast
        qed
      qed (use running nex in \<open>auto simp: recovery_counts_def\<close>)
      have "ensures ses ?P
          (tx_bind (update_executions (same_run x) (release_lease now)) (\<lambda>_. reenqueue now x ?res)) ?Q"
        by (rule ensures_bind [OF upd enq])
      with running False show ?thesis by (simp add: recover_execution_def Let_def)
    qed
  qed
qed

subsection \<open>The whole batch\<close>

definition recovery_batch :: "session \<Rightarrow> time \<Rightarrow> time \<Rightarrow> int \<Rightarrow> db \<Rightarrow> TimerExecution list" where
  "recovery_batch ses now staleBefore limit d =
     list_take limit (by_scheduled_at
       (filter (\<lambda>e. recoverable now staleBefore e \<and> \<not> ses_execution_locked ses (te_ID e)) (executions d)))"

lemma recovery_batch_props:
  assumes "db_ok d"
  shows "distinct (map te_ID (recovery_batch ses now staleBefore limit d))"
    and "x \<in> set (recovery_batch ses now staleBefore limit d) \<Longrightarrow>
      x \<in> set (executions d) \<and> recoverable now staleBefore x \<and> \<not> ses_execution_locked ses (te_ID x)"
proof -
  let ?F = "filter (\<lambda>e. recoverable now staleBefore e \<and> \<not> ses_execution_locked ses (te_ID e)) (executions d)"
  have "distinct (map te_ID ?F)" using db_ok_distinct(2) [OF assms] by (rule distinct_map_filter)
  then have "distinct (map te_ID (by_scheduled_at ?F))"
    by (simp add: by_scheduled_at_def distinct_map)
  then show "distinct (map te_ID (recovery_batch ses now staleBefore limit d))"
    unfolding recovery_batch_def by (rule distinct_list_take)
  show "x \<in> set (recovery_batch ses now staleBefore limit d) \<Longrightarrow>
      x \<in> set (executions d) \<and> recoverable now staleBefore x \<and> \<not> ses_execution_locked ses (te_ID x)"
    unfolding recovery_batch_def by (auto simp: by_scheduled_at_def dest!: set_list_take)
qed

definition recovery_done :: "db \<Rightarrow> time \<Rightarrow> TimerExecution list \<Rightarrow> RecoveryResult \<Rightarrow> db \<Rightarrow> bool" where
  "recovery_done d0 now xs res d \<longleftrightarrow>
     res = recovery_counts xs \<and>
     recovery_state d0 now (recovered now (te_ID ` set xs)) (filter (\<lambda>x. \<not> exhausted x) xs) d"

lemma recovery_done_start: "db_ok d \<Longrightarrow> recovery_done d now [] no_recovery d"
  by (simp add: recovery_done_def recovery_counts_def no_recovery_def recovery_state_def recovered_def
      list_all2_refl)

lemma recovery_loop:
  assumes ok: "db_ok d0" and xs: "distinct (map te_ID xs)" "set xs \<subseteq> set (executions d0)"
  shows "ensures ses (\<lambda>d. d = d0) (tx_each (recover_execution now) xs no_recovery) (recovery_done d0 now xs)"
proof -
  have "ensures ses (recovery_done d0 now [] no_recovery) (tx_each (recover_execution now) xs no_recovery)
      (\<lambda>b d. recovery_done d0 now xs b d)"
  proof (rule ensures_each)
    fix ys x zs b assume split: "xs = ys @ x # zs"
    with xs have "x \<in> set (executions d0)" "te_ID x \<notin> te_ID ` set ys" by auto
    from recover_execution_ensures [OF ok this, of ses b ys now]
    show "ensures ses (recovery_done d0 now ys b) (recover_execution now x b)
        (\<lambda>b' d. recovery_done d0 now (ys @ [x]) b' d)"
      by (simp add: recovery_done_def [abs_def])
  qed
  then show ?thesis by (rule ensures_pre) (simp add: recovery_done_start ok)
qed

lemma RecoverBatch_result:
  assumes "db_ok d0" "recoveryRepo_RecoverBatch now staleBefore limit ses d0 = (Inr res, d)"
  shows "recovery_done d0 now (recovery_batch ses now staleBefore limit d0) res d"
proof -
  let ?xs = "recovery_batch ses now staleBefore limit d0"
  have sel: "ensures ses (\<lambda>d. d = d0) (lock_executions by_scheduled_at limit (recoverable now staleBefore))
      (\<lambda>xs d. xs = ?xs \<and> d = d0)"
    by (rule ex.ensures_select) (simp add: recovery_batch_def)
  have "ensures ses (\<lambda>d. xs = ?xs \<and> d = d0) (tx_each (recover_execution now) xs no_recovery)
      (recovery_done d0 now ?xs)" for xs
    using recovery_batch_props [OF assms(1)] by (intro ensures_known recovery_loop [OF assms(1)]) auto
  from transaction_ok [OF ensures_bind [OF sel this] refl] assms(2) show ?thesis
    unfolding recoveryRepo_RecoverBatch_def op_wrap_Inr by blast
qed

lemma RecoverBatch_error:
  "recoveryRepo_RecoverBatch now staleBefore limit ses d0 = (Inl e, d) \<Longrightarrow> d = d0"
  unfolding recoveryRepo_RecoverBatch_def using op_wrap_Inl transaction_error by blast

lemma RecoverBatch_ok:
  assumes "db_ok d"
  shows "db_ok (snd (recoveryRepo_RecoverBatch now staleBefore limit ses d))"
proof (cases "recoveryRepo_RecoverBatch now staleBefore limit ses d")
  case (Pair r d')
  show ?thesis
  proof (cases r)
    case (Inl e)
    with Pair RecoverBatch_error assms show ?thesis by fastforce
  next
    case (Inr res)
    with Pair RecoverBatch_result [OF assms] show ?thesis
      by (auto simp: recovery_done_def recovery_state_def)
  qed
qed

section \<open>What a cleanup deletes\<close>

lemma Cleanup_result:
  assumes "db_ok d" "recoveryRepo_Cleanup outboxBefore executionBefore limit ses d = (Inr res, d')"
  obtains d1 where "d1 = put_outbox (delete_rows (nat limit) (old_event outboxBefore) (outbox d)) d"
    and "d' = put_executions (delete_rows (nat limit) (old_execution executionBefore d1) (executions d)) d1"
    and "cu_OutboxEvents res = int (length (outbox d)) - int (length (outbox d'))"
    and "cu_Executions res = int (length (executions d)) - int (length (executions d'))"
    and "0 \<le> limit" "db_ok d'"
proof -
  let ?d1 = "put_outbox (delete_rows (nat limit) (old_event outboxBefore) (outbox d)) d"
  let ?d2 = "put_executions (delete_rows (nat limit) (old_execution executionBefore ?d1) (executions d)) ?d1"
  have ex: "executions ?d1 = executions d" by (simp add: put_outbox_def)
  have del1: "ensures ses (\<lambda>x. x = d) (delete_stmt outbox put_outbox limit (\<lambda>_. old_event outboxBefore))
      (\<lambda>n x. n = int (length (outbox d)) - int (length (outbox ?d1)) \<and> 0 \<le> limit \<and> x = ?d1)"
    by (rule ob.ensures_delete) (simp add: put_outbox_def)
  have del2: "ensures ses (\<lambda>x. n = int (length (outbox d)) - int (length (outbox ?d1)) \<and> 0 \<le> limit \<and> x = ?d1)
      (delete_stmt executions put_executions limit (old_execution executionBefore))
      (\<lambda>m x. n = int (length (outbox d)) - int (length (outbox ?d1)) \<and> 0 \<le> limit \<and>
         m = int (length (executions d)) - int (length (executions ?d2)) \<and> x = ?d2)" for n
    by (rule ex.ensures_delete) (simp add: ex put_executions_def)
  have "ensures ses (\<lambda>x. x = d)
      (tx_bind (delete_stmt outbox put_outbox limit (\<lambda>_. old_event outboxBefore))
         (\<lambda>events. tx_bind (delete_stmt executions put_executions limit (old_execution executionBefore))
            (\<lambda>nexecutions. tx_return \<lparr>cu_OutboxEvents = events, cu_Executions = nexecutions\<rparr>)))
      (\<lambda>r x. cu_OutboxEvents r = int (length (outbox d)) - int (length (outbox ?d1)) \<and> 0 \<le> limit \<and>
         cu_Executions r = int (length (executions d)) - int (length (executions ?d2)) \<and> x = ?d2)"
    by (rule ensures_bind [OF del1], rule ensures_bind [OF del2], rule ensures_return) simp
  from transaction_ok [OF this refl] assms(2)
  have r: "cu_OutboxEvents res = int (length (outbox d)) - int (length (outbox ?d1))" "0 \<le> limit"
    "cu_Executions res = int (length (executions d)) - int (length (executions ?d2))" "d' = ?d2"
    unfolding recoveryRepo_Cleanup_def op_wrap_Inr by blast+
  have ok1: "db_ok ?d1" by (rule db_ok_delete_outbox [OF assms(1)])
  have "db_ok ?d2"
  proof -
    have "oe_AggregateID o' \<noteq> te_ID e"
      if "e \<in> set (executions ?d1)" "old_execution executionBefore ?d1 e" "o' \<in> set (outbox ?d1)" for e o'
    proof
      assume eq: "oe_AggregateID o' = te_ID e"
      have "oe_AggregateType o' = OutboxAggregateTimerExecution"
        using ok1 that(3) by (auto simp: db_ok_def refs_ok_def)
      with that(2,3) eq show False by (auto simp: old_execution_def list_ex_iff)
    qed
    from db_ok_delete_executions [OF ok1 this] show ?thesis unfolding ex .
  qed
  moreover have "outbox ?d2 = outbox ?d1" by (simp add: put_executions_def)
  ultimately show ?thesis using that [of ?d1] r by simp
qed

lemma Cleanup_error:
  "recoveryRepo_Cleanup outboxBefore executionBefore limit ses d = (Inl e, d') \<Longrightarrow> d' = d"
  unfolding recoveryRepo_Cleanup_def using op_wrap_Inl transaction_error by blast

lemma Cleanup_ok:
  assumes "db_ok d"
  shows "db_ok (snd (recoveryRepo_Cleanup outboxBefore executionBefore limit ses d))"
proof (cases "recoveryRepo_Cleanup outboxBefore executionBefore limit ses d")
  case (Pair r d')
  show ?thesis
  proof (cases r)
    case (Inl e)
    with Pair Cleanup_error assms show ?thesis by fastforce
  next
    case (Inr res)
    from Cleanup_result [OF assms Pair [unfolded Inr]] have "db_ok d'" by blast
    with Pair show ?thesis by simp
  qed
qed

end
