(* ===== verification/Outbox_Repo.thy ===== *)
theory Outbox_Repo
  imports Timer_Repo
begin

text \<open>
  \<^verbatim>\<open>internal/repository/outbox_repo.go\<close>: claiming a batch of events with a deadline, and
  recording the outcome of a publication while the claim is still held.
\<close>

section \<open>Claiming\<close>

definition claimable :: "time \<Rightarrow> OutboxEvent \<Rightarrow> bool" where
  "claimable now e \<longleftrightarrow>
     oe_PublishedAt e = None \<and> oe_AvailableAt e \<le> now \<and>
     (case oe_NextAttemptAt e of None \<Rightarrow> True | Some t \<Rightarrow> t \<le> now) \<and>
     ((case oe_ClaimUntil e of None \<Rightarrow> True | Some t \<Rightarrow> t < now) \<or> oe_ClaimOwner e = [])"

definition claim_event :: "string \<Rightarrow> time \<Rightarrow> OutboxEvent \<Rightarrow> OutboxEvent" where
  "claim_event owner claimUntil e = e\<lparr>oe_ClaimOwner := owner, oe_ClaimUntil := Some claimUntil\<rparr>"

definition claim_mismatch :: "int \<Rightarrow> int \<Rightarrow> go_error" where
  "claim_mismatch affected expected =
     ''outbox claim count mismatch: updated='' @ show_int affected @ '', expected='' @ show_int expected"

definition outboxRepo_ClaimBatch ::
  "string \<Rightarrow> time \<Rightarrow> int \<Rightarrow> duration \<Rightarrow> OutboxEvent list db_op" where
  "outboxRepo_ClaimBatch owner now limit claimTTL =
     transaction
       (tx_bind (tx_wrap ''claim outbox events'' (lock_outbox id limit (claimable now)))
          (\<lambda>events.
             if events = [] then tx_return []
             else
               (let ids = map oe_ID events; claimUntil = time_add now claimTTL
                in tx_bind
                     (tx_wrap ''update outbox claim''
                        (update_outbox (\<lambda>e. oe_ID e \<in> set ids) (claim_event owner claimUntil)))
                     (\<lambda>affected.
                        if affected \<noteq> int (length ids) then
                          tx_throw (claim_mismatch affected (int (length ids)))
                        else tx_return (map (claim_event owner claimUntil) events)))))"

section \<open>Recording the outcome\<close>

text \<open>An UPDATE after which \<^verbatim>\<open>RowsAffected != 1\<close> is the error \<open>err\<close>.\<close>

definition expect_one :: "go_error \<Rightarrow> int db_op \<Rightarrow> unit db_op" where
  "expect_one err m = (\<lambda>ses d.
     case m ses d of
       (Inl e, d') \<Rightarrow> (Inl e, d')
     | (Inr n, d') \<Rightarrow> (if n \<noteq> 1 then Inl err else Inr (), d'))"

definition held_event :: "string \<Rightarrow> string \<Rightarrow> OutboxEvent \<Rightarrow> bool" where
  "held_event eventID owner e \<longleftrightarrow>
     oe_EventID e = eventID \<and> oe_ClaimOwner e = owner \<and> oe_PublishedAt e = None"

definition publish_event :: "string \<Rightarrow> time \<Rightarrow> OutboxEvent \<Rightarrow> OutboxEvent" where
  "publish_event messageID publishedAt e = e\<lparr>
     oe_PublishedAt := Some publishedAt, oe_PublishedMessageID := messageID,
     oe_Attempts := oe_Attempts e + 1, oe_ClaimOwner := [], oe_ClaimUntil := None,
     oe_LastError := []\<rparr>"

definition outboxRepo_MarkPublished :: "string \<Rightarrow> string \<Rightarrow> string \<Rightarrow> time \<Rightarrow> unit db_op" where
  "outboxRepo_MarkPublished eventID owner messageID publishedAt =
     expect_one (''lost outbox publication ownership, event_id='' @ eventID)
       (op_wrap ''mark outbox event as published''
          (transaction (update_outbox (held_event eventID owner) (publish_event messageID publishedAt))))"

definition fail_event :: "string \<Rightarrow> time \<Rightarrow> OutboxEvent \<Rightarrow> OutboxEvent" where
  "fail_event lastError nextAttemptAt e = e\<lparr>
     oe_Attempts := oe_Attempts e + 1, oe_NextAttemptAt := Some nextAttemptAt,
     oe_ClaimOwner := [], oe_ClaimUntil := None, oe_LastError := lastError\<rparr>"

definition outboxRepo_MarkFailed :: "string \<Rightarrow> string \<Rightarrow> string \<Rightarrow> time \<Rightarrow> unit db_op" where
  "outboxRepo_MarkFailed eventID owner lastError nextAttemptAt =
     expect_one (''lost outbox failure ownership, event_id='' @ eventID)
       (op_wrap ''record outbox publication failure''
          (transaction (update_outbox (held_event eventID owner) (fail_event lastError nextAttemptAt))))"

definition outboxRepo_CountUnpublished :: "int db_op" where
  "outboxRepo_CountUnpublished =
     op_wrap ''count unpublished outbox events''
       (query (read_stmt (\<lambda>d. int (length (filter (\<lambda>e. oe_PublishedAt e = None) (outbox d))))))"

section \<open>Facts\<close>

lemma expect_one_Inr: "expect_one err m ses d = (Inr u, d') \<longleftrightarrow> m ses d = (Inr 1, d')"
  by (auto simp: expect_one_def split: prod.splits sum.splits)

lemma expect_one_state: "snd (expect_one err m ses d) = snd (m ses d)"
  by (simp add: expect_one_def split: prod.splits sum.splits)

lemma ensures_update_outbox_ok:
  assumes "\<And>r. oe_ID (f r) = oe_ID r" "\<And>r. oe_EventID (f r) = oe_EventID r"
    "\<And>r. oe_AggregateID (f r) = oe_AggregateID r" "\<And>r. oe_AggregateType (f r) = oe_AggregateType r"
    and "\<And>r. P r \<Longrightarrow> outbox_row_ok r \<Longrightarrow> outbox_row_ok (f r)"
  shows "ensures ses db_ok (update_outbox P f) (\<lambda>_. db_ok)"
proof (rule ob.ensures_update)
  fix u d assume "db_ok d"
  then show "db_ok (put_outbox (update_rows P (\<lambda>r. touch_outbox u (f r)) (outbox d)) d)"
    by (rule db_ok_update_outbox) (use assms in \<open>auto simp: touch_outbox_def outbox_row_ok_def\<close>)
qed

lemma MarkPublished_ok: "db_ok d \<Longrightarrow> db_ok (snd (outboxRepo_MarkPublished ev owner msg at ses d))"
  unfolding outboxRepo_MarkPublished_def expect_one_state op_wrap_state
  by (rule snd_transaction_preserves [OF ensures_update_outbox_ok])
     (auto simp: publish_event_def outbox_row_ok_def)

lemma MarkFailed_ok: "db_ok d \<Longrightarrow> db_ok (snd (outboxRepo_MarkFailed ev owner err at ses d))"
  unfolding outboxRepo_MarkFailed_def expect_one_state op_wrap_state
  by (rule snd_transaction_preserves [OF ensures_update_outbox_ok])
     (auto simp: fail_event_def outbox_row_ok_def held_event_def)

lemma CountUnpublished_state: "snd (outboxRepo_CountUnpublished ses d) = d"
  by (simp add: outboxRepo_CountUnpublished_def op_wrap_state)

subsection \<open>Claims\<close>

definition claim_candidates :: "session \<Rightarrow> time \<Rightarrow> int \<Rightarrow> db \<Rightarrow> OutboxEvent list" where
  "claim_candidates ses now limit d =
     list_take limit (filter (\<lambda>e. claimable now e \<and> \<not> ses_outbox_locked ses (oe_ID e)) (outbox d))"

lemma claim_candidates_props:
  assumes "e \<in> set (claim_candidates ses now limit d)"
  shows "e \<in> set (outbox d)" "claimable now e" "\<not> ses_outbox_locked ses (oe_ID e)"
  using assms unfolding claim_candidates_def by (auto dest: set_list_take)

lemma distinct_candidates:
  "db_ok d \<Longrightarrow> distinct (map oe_ID (claim_candidates ses now limit d))"
  unfolding claim_candidates_def
  by (intro distinct_list_take distinct_map_filter db_ok_distinct)

definition claimed_row :: "string \<Rightarrow> time \<Rightarrow> time \<Rightarrow> OutboxEvent \<Rightarrow> OutboxEvent" where
  "claimed_row owner claimUntil u e = touch_outbox u (claim_event owner claimUntil e)"

text \<open>What a claim returns, and what it leaves in the table.\<close>

definition claim_rel ::
  "string \<Rightarrow> time \<Rightarrow> OutboxEvent list \<Rightarrow> db \<Rightarrow> OutboxEvent list \<Rightarrow> db \<Rightarrow> bool" where
  "claim_rel owner claimUntil cs d events d' \<longleftrightarrow>
     events = map (claim_event owner claimUntil) cs \<and>
     (cs = [] \<and> d' = d \<or>
      (\<exists>u. d' = put_outbox (update_rows (\<lambda>e. oe_ID e \<in> oe_ID ` set cs)
                (claimed_row owner claimUntil u) (outbox d)) d))"

lemma ClaimBatch_result:
  assumes "outboxRepo_ClaimBatch owner now limit ttl ses d = (Inr events, d')"
  shows "claim_rel owner (time_add now ttl) (claim_candidates ses now limit d) d events d'"
proof -
  let ?cs = "claim_candidates ses now limit d" and ?u = "time_add now ttl"
  let ?body = "\<lambda>events. if events = [] then tx_return []
      else (let ids = map oe_ID events; claimUntil = ?u
        in tx_bind (tx_wrap ''update outbox claim''
             (update_outbox (\<lambda>e. oe_ID e \<in> set ids) (claim_event owner claimUntil)))
             (\<lambda>affected. if affected \<noteq> int (length ids) then
                  tx_throw (claim_mismatch affected (int (length ids)))
                else tx_return (map (claim_event owner claimUntil) events)))"
  have sel: "ensures ses (\<lambda>x. x = d) (lock_outbox id limit (claimable now)) (\<lambda>cs x. cs = ?cs \<and> x = d)"
    by (rule ob.ensures_select) (simp add: claim_candidates_def)
  have upd: "ensures ses (\<lambda>x. x = d) (update_outbox (\<lambda>e. oe_ID e \<in> set (map oe_ID ?cs)) (claim_event owner ?u))
      (\<lambda>_. claim_rel owner ?u ?cs d (map (claim_event owner ?u) ?cs))"
    by (rule ob.ensures_update) (auto simp: claim_rel_def claimed_row_def [abs_def])
  have "ensures ses (\<lambda>x. x = d) (?body ?cs) (claim_rel owner ?u ?cs d)"
  proof (cases "?cs = []")
    case True
    then show ?thesis by (simp add: ensures_return claim_rel_def)
  next
    case False
    show ?thesis
      unfolding if_not_P [OF False] Let_def
      by (rule ensures_bind [OF ensures_wrap [OF upd]], rule ensures_if, rule ensures_throw,
          rule ensures_return)
  qed
  then have "ensures ses (\<lambda>x. cs = ?cs \<and> x = d) (?body cs) (claim_rel owner ?u ?cs d)" for cs
    by (rule ensures_known)
  from transaction_ok [OF ensures_bind [OF ensures_wrap [OF sel] this] refl] assms
  show ?thesis unfolding outboxRepo_ClaimBatch_def by blast
qed

lemma ClaimBatch_error:
  "outboxRepo_ClaimBatch owner now limit ttl ses d = (Inl e, d') \<Longrightarrow> d' = d"
  unfolding outboxRepo_ClaimBatch_def by (rule transaction_error)

lemma ClaimBatch_ok:
  assumes "db_ok d" "owner \<noteq> []"
  shows "db_ok (snd (outboxRepo_ClaimBatch owner now limit ttl ses d))"
proof -
  obtain r d' where rd: "outboxRepo_ClaimBatch owner now limit ttl ses d = (r, d')" by force
  have "db_ok d'"
  proof (cases r)
    case (Inl e)
    with rd ClaimBatch_error assms(1) show ?thesis by blast
  next
    case (Inr events)
    let ?cs = "claim_candidates ses now limit d"
    from ClaimBatch_result [OF rd [unfolded Inr]] consider "d' = d" | u where
      "d' = put_outbox (update_rows (\<lambda>e. oe_ID e \<in> oe_ID ` set ?cs)
         (claimed_row owner (time_add now ttl) u) (outbox d)) d"
      unfolding claim_rel_def by blast
    then show ?thesis
    proof cases
      case 2
      have "outbox_row_ok (claimed_row owner (time_add now ttl) u r)"
        if "r \<in> set (outbox d)" "oe_ID r \<in> oe_ID ` set ?cs" "outbox_row_ok r" for r
      proof -
        from that(2) obtain c where c: "c \<in> set ?cs" "oe_ID r = oe_ID c" by blast
        with claim_candidates_props [OF c(1)] table_ok_inj [OF db_okD(3) [OF assms(1)] that(1)]
        have "claimable now r" by metis
        with that(3) assms(2) show ?thesis
          by (simp add: outbox_row_ok_def claimed_row_def touch_outbox_def claim_event_def claimable_def)
      qed
      then show ?thesis
        unfolding 2 by (intro db_ok_update_outbox [OF assms(1)])
          (simp_all add: claimed_row_def touch_outbox_def claim_event_def)
    qed (simp add: assms(1))
  qed
  with rd show ?thesis by simp
qed

text \<open>An event a claim returned cannot be claimed again before its deadline has passed.\<close>

lemma claimed_not_claimable:
  assumes "db_ok d" "owner \<noteq> []" "outboxRepo_ClaimBatch owner now limit ttl ses d = (Inr events, d')"
    and "e \<in> set events" "now' \<le> time_add now ttl" "x \<in> set (outbox d')" "oe_ID x = oe_ID e"
  shows "\<not> claimable now' x"
proof -
  let ?cs = "claim_candidates ses now limit d"
  from assms(4) ClaimBatch_result [OF assms(3)] obtain c u where c: "c \<in> set ?cs"
    "e = claim_event owner (time_add now ttl) c"
    and d': "d' = put_outbox (update_rows (\<lambda>e. oe_ID e \<in> oe_ID ` set ?cs)
         (claimed_row owner (time_add now ttl) u) (outbox d)) d"
    unfolding claim_rel_def by auto
  from d' assms(6) obtain y where "x = (if oe_ID y \<in> oe_ID ` set ?cs
      then claimed_row owner (time_add now ttl) u y else y)"
    by (auto simp: put_outbox_def in_update_rows)
  with assms(7) c have "oe_ClaimUntil x = Some (time_add now ttl)" "oe_ClaimOwner x = owner"
    by (auto simp: claim_event_def claimed_row_def touch_outbox_def split: if_splits)
  with assms(2,5) show ?thesis by (simp add: claimable_def)
qed

subsection \<open>Publication\<close>

text \<open>A held event that is published or fails is rewritten; no other event changes.  Without the
  claim nothing changes.\<close>

lemma held_unique:
  "db_ok d \<Longrightarrow> e \<in> set (outbox d) \<Longrightarrow> held_event ev owner e \<Longrightarrow> x \<in> set (outbox d) \<Longrightarrow>
     held_event ev owner x \<Longrightarrow> x = e"
  by (rule event_by_id) (auto simp: held_event_def)

lemma one_row_outbox:
  assumes "db_ok d" "\<And>r. P r \<Longrightarrow> oe_EventID r = ev" "\<And>r. oe_Attempts (g r) \<noteq> oe_Attempts r"
  shows "changed_rows P g (outbox d) = 1 \<longleftrightarrow> (\<exists>r \<in> set (outbox d). P r)"
proof -
  have "g r \<noteq> r" for r using assms(3) [of r] by auto
  moreover have "changed_rows P g (outbox d) = 1 \<longleftrightarrow> (\<exists>r \<in> set (outbox d). P r \<and> g r \<noteq> r)"
    using db_ok_distinct(4) [OF assms(1)] assms(2) by (rule changed_rows_unique)
  ultimately show ?thesis by blast
qed

lemma MarkPublished_Inr:
  assumes "db_ok d" "outboxRepo_MarkPublished ev owner msg at ses d = (Inr x, d')"
  obtains u where "d' = put_outbox (update_rows (held_event ev owner)
      (\<lambda>r. touch_outbox u (publish_event msg at r)) (outbox d)) d"
    and "\<exists>r \<in> set (outbox d). held_event ev owner r"
proof -
  have "transaction (update_outbox (held_event ev owner) (publish_event msg at)) ses d = (Inr 1, d')"
    using assms(2) by (simp add: outboxRepo_MarkPublished_def expect_one_Inr op_wrap_Inr)
  then obtain u where u: "d' = put_outbox (update_rows (held_event ev owner)
      (\<lambda>r. touch_outbox u (publish_event msg at r)) (outbox d)) d"
    "1 = changed_rows (held_event ev owner) (\<lambda>r. touch_outbox u (publish_event msg at r)) (outbox d)"
    by (rule ob.update_effect)
  moreover have "\<exists>r \<in> set (outbox d). held_event ev owner r"
    using one_row_outbox [OF assms(1), of "held_event ev owner" ev
      "\<lambda>r. touch_outbox u (publish_event msg at r)"] u(2)
    by (simp add: held_event_def touch_outbox_def publish_event_def)
  ultimately show ?thesis using that by blast
qed

lemma MarkFailed_Inr:
  assumes "db_ok d" "outboxRepo_MarkFailed ev owner err at ses d = (Inr x, d')"
  obtains u where "d' = put_outbox (update_rows (held_event ev owner)
      (\<lambda>r. touch_outbox u (fail_event err at r)) (outbox d)) d"
    and "\<exists>r \<in> set (outbox d). held_event ev owner r"
proof -
  have "transaction (update_outbox (held_event ev owner) (fail_event err at)) ses d = (Inr 1, d')"
    using assms(2) by (simp add: outboxRepo_MarkFailed_def expect_one_Inr op_wrap_Inr)
  then obtain u where u: "d' = put_outbox (update_rows (held_event ev owner)
      (\<lambda>r. touch_outbox u (fail_event err at r)) (outbox d)) d"
    "1 = changed_rows (held_event ev owner) (\<lambda>r. touch_outbox u (fail_event err at r)) (outbox d)"
    by (rule ob.update_effect)
  moreover have "\<exists>r \<in> set (outbox d). held_event ev owner r"
    using one_row_outbox [OF assms(1), of "held_event ev owner" ev
      "\<lambda>r. touch_outbox u (fail_event err at r)"] u(2)
    by (simp add: held_event_def touch_outbox_def fail_event_def)
  ultimately show ?thesis using that by blast
qed

end
