(* ===== verification/Outbox_Dispatcher.thy ===== *)
theory Outbox_Dispatcher
  imports Outbox_Repo World Config Metrics_Reporter
begin

text \<open>
  \<^verbatim>\<open>internal/service/outbox_dispatcher.go\<close>: one round claims a batch, publishes every event
  and records the outcome; the loop repeats it.  The repository and the stream publisher are the
  interfaces the source declares.  The locale \<open>outbox_repository\<close> is the contract the dispatcher
  needs to keep the database consistent; \<open>outbox_repository_alone\<close> extends it with what the
  operations do to the set of published events, for a dispatcher that shares the database with
  nobody.
\<close>

section \<open>Back-off and error text\<close>

definition dispatcher_backoff :: "int \<Rightarrow> int \<Rightarrow> duration" where
  "dispatcher_backoff maxBackoffSeconds attempt0 =
     (let attempt = (if attempt0 < 1 then 1 else attempt0);
          exponent = (if 30 < attempt - 1 then 30 else attempt - 1);
          delaySeconds = 2 ^ nat exponent;
          delaySeconds = (if maxBackoffSeconds < delaySeconds then maxBackoffSeconds else delaySeconds)
      in seconds delaySeconds)"

definition truncate_error :: "string \<Rightarrow> string" where
  "truncate_error message0 =
     (let maxLength = 2048; message = TrimSpace message0
      in if length message \<le> maxLength then message
         else take (maxLength - 3) message @ ''...'')"

definition truncateOutboxError :: "string \<Rightarrow> string" where
  "truncateOutboxError message = truncate_error message"

lemma length_truncate_error: "length (truncate_error s) \<le> 2048"
  by (simp add: truncate_error_def Let_def)

lemma dispatcher_backoff_seconds:
  assumes "1 \<le> maxSeconds"
  shows "dispatcher_backoff maxSeconds attempt =
    min maxSeconds (2 ^ nat (min 30 (max 0 (attempt - 1)))) * nanos_per_second"
proof -
  let ?k = "nat (min 30 (max 0 (attempt - 1)))"
  have "?k \<le> 30" by simp
  then have "(2::int) ^ ?k \<le> 2 ^ 30" by (intro power_increasing) simp_all
  then have "seconds (min maxSeconds (2 ^ ?k)) = min maxSeconds (2 ^ ?k) * nanos_per_second"
    using assms by (intro seconds_exact) auto
  moreover have "dispatcher_backoff maxSeconds attempt = seconds (min maxSeconds (2 ^ ?k))"
  proof -
    have k: "nat (if 30 < (if attempt < 1 then 1 else attempt) - 1 then 30
        else (if attempt < 1 then 1 else attempt) - 1) = ?k" by auto
    show ?thesis
      unfolding dispatcher_backoff_def Let_def k by (simp add: min_def not_le)
  qed
  ultimately show ?thesis by simp
qed

section \<open>One round\<close>

record 's OutboxRepository =
  or_ClaimBatch :: "string \<Rightarrow> time \<Rightarrow> int \<Rightarrow> duration \<Rightarrow> 's \<Rightarrow> OutboxEvent list result \<times> 's"
  or_MarkPublished :: "string \<Rightarrow> string \<Rightarrow> string \<Rightarrow> time \<Rightarrow> 's \<Rightarrow> unit result \<times> 's"
  or_MarkFailed :: "string \<Rightarrow> string \<Rightarrow> string \<Rightarrow> time \<Rightarrow> 's \<Rightarrow> unit result \<times> 's"
  or_CountUnpublished :: "'s \<Rightarrow> int result \<times> 's"

text \<open>\<^verbatim>\<open>outboxStreamPublisher\<close>, on a state of its own.\<close>

type_synonym 'p publisher = "string \<Rightarrow> int \<Rightarrow> OutboxEvent \<Rightarrow> 'p \<Rightarrow> string result \<times> 'p"

text \<open>What a round sees of its surroundings: its start, and before the \<open>i\<close>-th event whether the
  context is done and, after its publication, the clock.\<close>

record dispatch_round =
  du_now :: time
  du_done :: "nat \<Rightarrow> bool"
  du_clock :: "nat \<Rightarrow> time"

type_synonym ('p, 's) dispatcher_state = "Reporter \<times> 'p \<times> 's"

definition refreshBacklogMetric ::
  "'s OutboxRepository \<Rightarrow> ('p, 's) dispatcher_state \<Rightarrow> ('p, 's) dispatcher_state" where
  "refreshBacklogMetric repo st =
     (case st of (reporter, p, s) \<Rightarrow>
        (case or_CountUnpublished repo s of
           (Inl e, s') \<Rightarrow> (reporter, p, s')
         | (Inr n, s') \<Rightarrow> (SetOutboxUnpublished n reporter, p, s')))"

definition dispatch_event ::
  "'s OutboxRepository \<Rightarrow> 'p publisher \<Rightarrow> OutboxConfig \<Rightarrow> string \<Rightarrow> time \<Rightarrow> time \<Rightarrow> OutboxEvent \<Rightarrow>
     ('p, 's) dispatcher_state \<Rightarrow> ('p, 's) dispatcher_state" where
  "dispatch_event repo publish cfg owner now clock event st =
     (case st of (reporter, p, s) \<Rightarrow>
        (case publish (oc_Stream cfg) (oc_StreamMaxLen cfg) event p of
           (Inl publishErr, p') \<Rightarrow>
             (let nextAttempt =
                    time_add now (dispatcher_backoff (oc_MaxBackoffSeconds cfg) (oe_Attempts event + 1))
              in case or_MarkFailed repo (oe_EventID event) owner (truncateOutboxError publishErr)
                   nextAttempt s of
                   (_, s') \<Rightarrow> (ReportOutboxPublish False reporter, p', s'))
         | (Inr messageID, p') \<Rightarrow>
             (case or_MarkPublished repo (oe_EventID event) owner messageID clock s of
                (Inl e, s') \<Rightarrow> (ReportOutboxPublish False reporter, p', s')
              | (Inr _, s') \<Rightarrow> (ReportOutboxPublish True reporter, p', s'))))"

text \<open>The loop over the batch; the first component is whether it ran to its end.\<close>

fun dispatch_events ::
  "'s OutboxRepository \<Rightarrow> 'p publisher \<Rightarrow> OutboxConfig \<Rightarrow> string \<Rightarrow> dispatch_round \<Rightarrow> nat \<Rightarrow>
     OutboxEvent list \<Rightarrow> ('p, 's) dispatcher_state \<Rightarrow> bool \<times> ('p, 's) dispatcher_state" where
  "dispatch_events repo publish cfg owner u i [] st = (True, st)"
| "dispatch_events repo publish cfg owner u i (event # events) st =
     (if du_done u i then (False, st)
      else dispatch_events repo publish cfg owner u (Suc i) events
             (dispatch_event repo publish cfg owner (du_now u) (du_clock u i) event st))"

definition dispatchOnce ::
  "'s OutboxRepository \<Rightarrow> 'p publisher \<Rightarrow> OutboxConfig \<Rightarrow> string \<Rightarrow> dispatch_round \<Rightarrow>
     ('p, 's) dispatcher_state \<Rightarrow> ('p, 's) dispatcher_state" where
  "dispatchOnce repo publish cfg owner u st =
     (case st of (reporter, p, s) \<Rightarrow>
        (case or_ClaimBatch repo owner (du_now u) (oc_BatchSize cfg) (seconds (oc_ClaimTTLSeconds cfg)) s of
           (Inl e, s') \<Rightarrow> refreshBacklogMetric repo (reporter, p, s')
         | (Inr events, s') \<Rightarrow>
             (case dispatch_events repo publish cfg owner u 0 events (reporter, p, s') of
                (False, st') \<Rightarrow> st'
              | (True, st') \<Rightarrow> refreshBacklogMetric repo st')))"

record ('p, 's) OutboxDispatcher =
  od_repo :: "'s OutboxRepository"
  od_publisher :: "'p publisher"
  od_cfg :: OutboxConfig
  od_owner :: string

definition OutboxDispatcher_Start ::
  "('p, 's) OutboxDispatcher \<Rightarrow> dispatch_round \<Rightarrow> dispatch_round list \<Rightarrow> ('p, 's) dispatcher_state \<Rightarrow>
     go_error option \<times> ('p, 's) dispatcher_state" where
  "OutboxDispatcher_Start d first ticks st =
     polling (millis (oc_PollIntervalMS (od_cfg d)))
       (dispatchOnce (od_repo d) (od_publisher d) (od_cfg d) (od_owner d)) ticks
       (dispatchOnce (od_repo d) (od_publisher d) (od_cfg d) (od_owner d) first st)"

section \<open>The contract\<close>

locale outbox_repository =
  fixes repo :: "'s OutboxRepository" and inv :: "'s \<Rightarrow> bool"
  assumes claim_inv: "inv s \<Longrightarrow> owner \<noteq> [] \<Longrightarrow> inv (snd (or_ClaimBatch repo owner now n ttl s))"
    and published_inv: "inv s \<Longrightarrow> inv (snd (or_MarkPublished repo ev owner msg at s))"
    and failed_inv: "inv s \<Longrightarrow> inv (snd (or_MarkFailed repo ev owner err at s))"
    and count_inv: "inv s \<Longrightarrow> inv (snd (or_CountUnpublished repo s))"
begin

lemma refresh_inv: "inv (snd (snd st)) \<Longrightarrow> inv (snd (snd (refreshBacklogMetric repo st)))"
  using count_inv unfolding refreshBacklogMetric_def
  by (cases st) (auto split: prod.splits sum.splits dest: prod.exhaust_sel, (metis snd_conv)+)

lemma dispatch_event_inv:
  "inv (snd (snd st)) \<Longrightarrow> inv (snd (snd (dispatch_event repo publish cfg owner now clock event st)))"
  unfolding dispatch_event_def Let_def
  by (cases st) (auto split: prod.splits sum.splits, (metis snd_conv published_inv failed_inv)+)

lemma dispatch_events_inv:
  "inv (snd (snd st)) \<Longrightarrow> inv (snd (snd (snd (dispatch_events repo publish cfg owner u i events st))))"
  by (induction events arbitrary: i st) (simp_all add: dispatch_event_inv)

lemma dispatchOnce_inv:
  assumes "inv (snd (snd st))" "owner \<noteq> []"
  shows "inv (snd (snd (dispatchOnce repo publish cfg owner u st)))"
proof -
  obtain reporter p s where st: "st = (reporter, p, s)" by (rule prod_cases3)
  obtain r s' where c: "or_ClaimBatch repo owner (du_now u) (oc_BatchSize cfg)
      (seconds (oc_ClaimTTLSeconds cfg)) s = (r, s')" by force
  with claim_inv [of s owner "du_now u" "oc_BatchSize cfg" "seconds (oc_ClaimTTLSeconds cfg)"] assms st
  have s': "inv s'" by simp
  show ?thesis
  proof (cases r)
    case (Inl e)
    with refresh_inv [of "(reporter, p, s')"] s' show ?thesis by (simp add: dispatchOnce_def st c)
  next
    case (Inr events)
    obtain b st' where d: "dispatch_events repo publish cfg owner u 0 events (reporter, p, s') = (b, st')"
      by (rule prod.exhaust)
    with dispatch_events_inv [of "(reporter, p, s')" publish cfg owner u 0 events] s'
    have "inv (snd (snd st'))" by simp
    with refresh_inv [of st'] Inr d show ?thesis by (cases b) (simp_all add: dispatchOnce_def st c)
  qed
qed

lemma Start_inv:
  assumes "inv (snd (snd st))" "od_repo d = repo" "od_owner d \<noteq> []"
  shows "inv (snd (snd (snd (OutboxDispatcher_Start d first ticks st))))"
  unfolding OutboxDispatcher_Start_def
  by (rule polling_keeps [where I = "\<lambda>st. inv (snd (snd st))"]) (simp_all add: dispatchOnce_inv assms)

end

text \<open>A publisher's log of the events it has accepted: it only grows, and a success adds its
  event.\<close>

definition logs_publications :: "'p publisher \<Rightarrow> ('p \<Rightarrow> string set) \<Rightarrow> bool" where
  "logs_publications publish log \<longleftrightarrow>
     (\<forall>stream maxLen e p r p'. publish stream maxLen e p = (r, p') \<longrightarrow>
        log p \<subseteq> log p' \<and> (\<forall>m. r = Inr m \<longrightarrow> oe_EventID e \<in> log p'))"

locale outbox_repository_alone = outbox_repository repo inv
  for repo :: "'s OutboxRepository" and inv :: "'s \<Rightarrow> bool" +
  fixes pubs :: "'s \<Rightarrow> string set"
  assumes claim_pubs: "inv s \<Longrightarrow> owner \<noteq> [] \<Longrightarrow> pubs (snd (or_ClaimBatch repo owner now n ttl s)) = pubs s"
    and published_pubs: "inv s \<Longrightarrow> pubs (snd (or_MarkPublished repo ev owner msg at s)) \<subseteq> insert ev (pubs s)"
    and failed_pubs: "inv s \<Longrightarrow> pubs (snd (or_MarkFailed repo ev owner err at s)) = pubs s"
    and count_pubs: "inv s \<Longrightarrow> pubs (snd (or_CountUnpublished repo s)) = pubs s"
begin

lemma refresh_pubs:
  assumes "inv (snd (snd st))" "refreshBacklogMetric repo st = st'"
  shows "pubs (snd (snd st')) = pubs (snd (snd st)) \<and> fst (snd st') = fst (snd st)"
proof -
  obtain reporter p s where st: "st = (reporter, p, s)" by (rule prod_cases3)
  obtain r s' where c: "or_CountUnpublished repo s = (r, s')" by force
  with count_pubs [of s] assms(1) st have "pubs s' = pubs s" by simp
  moreover have "snd st' = (p, s')"
    using assms(2) by (cases r) (auto simp only: refreshBacklogMetric_def st c prod.case sum.case snd_conv)
  ultimately show ?thesis by (simp add: st)
qed

text \<open>An event is recorded as published only after the publisher accepted it.\<close>

lemma dispatch_event_pubs:
  assumes "inv (snd (snd st))" "logs_publications publish log"
    and "dispatch_event repo publish cfg owner now clock event st = st'"
  shows "pubs (snd (snd st')) \<subseteq> pubs (snd (snd st)) \<union> log (fst (snd st')) \<and>
    log (fst (snd st)) \<subseteq> log (fst (snd st'))"
proof -
  obtain reporter p s where st: "st = (reporter, p, s)" by (rule prod_cases3)
  obtain r p' where pub: "publish (oc_Stream cfg) (oc_StreamMaxLen cfg) event p = (r, p')" by force
  with assms(2) have log: "log p \<subseteq> log p'" "\<And>m. r = Inr m \<Longrightarrow> oe_EventID event \<in> log p'"
    unfolding logs_publications_def by blast+
  show ?thesis
  proof (cases r)
    case (Inl e)
    obtain r2 s' where m: "or_MarkFailed repo (oe_EventID event) owner (truncateOutboxError e)
        (time_add now (dispatcher_backoff (oc_MaxBackoffSeconds cfg) (oe_Attempts event + 1))) s = (r2, s')"
      by force
    with failed_pubs [of s "oe_EventID event" owner] assms(1) st have "pubs s' = pubs s"
      by (metis snd_conv)
    with assms(3) log show ?thesis
      by (auto simp: dispatch_event_def st pub Inl m)
  next
    case (Inr msg)
    obtain r2 s' where m: "or_MarkPublished repo (oe_EventID event) owner msg clock s = (r2, s')"
      by force
    with published_pubs [of s "oe_EventID event" owner msg clock] assms(1) st log(2) [OF Inr]
    have "pubs s' \<subseteq> pubs s \<union> log p'" by auto
    with assms(3) log(1) show ?thesis
      by (cases r2) (auto simp: dispatch_event_def st pub Inr m)
  qed
qed

lemma dispatch_events_pubs:
  assumes "inv (snd (snd st))" "logs_publications publish log"
    and "dispatch_events repo publish cfg owner u i events st = (b, st')"
  shows "pubs (snd (snd st')) \<subseteq> pubs (snd (snd st)) \<union> log (fst (snd st')) \<and>
    log (fst (snd st)) \<subseteq> log (fst (snd st'))"
  using assms(1,3)
proof (induction events arbitrary: i st)
  case (Cons e events)
  show ?case
  proof (cases "du_done u i")
    case False
    let ?st = "dispatch_event repo publish cfg owner (du_now u) (du_clock u i) e st"
    have "inv (snd (snd ?st))" using Cons.prems(1) by (rule dispatch_event_inv)
    from Cons.IH [OF this] Cons.prems(2) False
    have "pubs (snd (snd st')) \<subseteq> pubs (snd (snd ?st)) \<union> log (fst (snd st'))"
      "log (fst (snd ?st)) \<subseteq> log (fst (snd st'))" by auto
    moreover note dispatch_event_pubs [OF Cons.prems(1) assms(2) refl,
        of cfg owner "du_now u" "du_clock u i" e]
    ultimately show ?thesis by blast
  qed (use Cons.prems in auto)
qed auto

lemma dispatchOnce_pubs:
  assumes "inv (snd (snd st))" "owner \<noteq> []" "logs_publications publish log"
    and "dispatchOnce repo publish cfg owner u st = st'"
  shows "pubs (snd (snd st')) \<subseteq> pubs (snd (snd st)) \<union> log (fst (snd st'))"
proof -
  obtain reporter p s where st: "st = (reporter, p, s)" by (rule prod_cases3)
  obtain r s' where c: "or_ClaimBatch repo owner (du_now u) (oc_BatchSize cfg)
      (seconds (oc_ClaimTTLSeconds cfg)) s = (r, s')" by force
  with claim_inv [of s owner "du_now u" "oc_BatchSize cfg" "seconds (oc_ClaimTTLSeconds cfg)"]
    claim_pubs [of s owner "du_now u" "oc_BatchSize cfg" "seconds (oc_ClaimTTLSeconds cfg)"] assms st
  have s': "inv s'" "pubs s' = pubs s" by simp_all
  show ?thesis
  proof (cases r)
    case (Inl e)
    with refresh_pubs [of "(reporter, p, s')" st'] s' assms(4) st c show ?thesis
      by (simp add: dispatchOnce_def)
  next
    case (Inr events)
    obtain b st1 where d: "dispatch_events repo publish cfg owner u 0 events (reporter, p, s') = (b, st1)"
      by (rule prod.exhaust)
    with dispatch_events_pubs [OF _ assms(3) d] dispatch_events_inv [of "(reporter, p, s')"] s'
    have "pubs (snd (snd st1)) \<subseteq> pubs s \<union> log (fst (snd st1))" "inv (snd (snd st1))"
      by (simp, metis snd_conv)
    with refresh_pubs [of st1] Inr d assms(4) show ?thesis
      by (cases b) (auto simp: dispatchOnce_def st c)
  qed
qed

end

section \<open>The SQL repository meets the contract\<close>

definition world_outbox_repo :: "world OutboxRepository" where
  "world_outbox_repo = \<lparr>
     or_ClaimBatch = (\<lambda>owner now n ttl. call (outboxRepo_ClaimBatch owner now n ttl)),
     or_MarkPublished = (\<lambda>ev owner msg at. call (outboxRepo_MarkPublished ev owner msg at)),
     or_MarkFailed = (\<lambda>ev owner err at. call (outboxRepo_MarkFailed ev owner err at)),
     or_CountUnpublished = call outboxRepo_CountUnpublished\<rparr>"

interpretation world_outbox: outbox_repository world_outbox_repo world_ok
  by unfold_locales
     (simp_all add: world_outbox_repo_def snd_call_preserves ClaimBatch_ok MarkPublished_ok
        MarkFailed_ok CountUnpublished_state)

text \<open>The dispatcher alone with its database.\<close>

definition world_alone :: "world \<Rightarrow> bool" where
  "world_alone w \<longleftrightarrow> world_ok w \<and> (\<forall>n d. w_interfere w n d = d)"

definition published_ids :: "db \<Rightarrow> string set" where
  "published_ids d = oe_EventID ` {e \<in> set (outbox d). oe_PublishedAt e \<noteq> None}"

lemma alone_call:
  assumes "world_alone w" "call m w = (r, w')" "\<And>ses d. db_ok d \<Longrightarrow> db_ok (snd (m ses d))"
  shows "world_alone w'" and "\<exists>ses. m ses (w_db w) = (r, w_db w')"
  using assms snd_call_preserves [of w m] unfolding world_alone_def
  by (auto simp: call_def split: prod.splits)

lemma alone_rel:
  assumes "world_alone w" "\<And>ses d. db_ok d \<Longrightarrow> R d (snd (m ses d))" 
  shows "R (w_db w) (w_db (snd (call m w)))"
  using assms unfolding world_alone_def world_ok_def
  by (auto simp: call_def split: prod.splits) (metis snd_conv)

lemma published_ids_update:
  assumes "\<And>r. oe_EventID (g r) = oe_EventID r"
    and "\<And>r. P r \<Longrightarrow> oe_PublishedAt (g r) \<noteq> None \<Longrightarrow> oe_PublishedAt r = None \<Longrightarrow> oe_EventID r \<in> X"
  shows "published_ids (put_outbox (update_rows P g (outbox d)) d) \<subseteq> X \<union> published_ids d"
  using assms unfolding published_ids_def put_outbox_def
  by (auto simp: in_update_rows split: if_splits) blast+

lemma published_ids_same:
  assumes "\<And>r. oe_EventID (g r) = oe_EventID r" "\<And>r. oe_PublishedAt (g r) = oe_PublishedAt r"
  shows "published_ids (put_outbox (update_rows P g (outbox d)) d) = published_ids d"
proof -
  let ?k = "\<lambda>r. (oe_EventID r, oe_PublishedAt r)"
  have m: "map ?k (update_rows P g (outbox d)) = map ?k (outbox d)"
    using assms by (intro map_update_rows_same) simp
  have k: "published_ids (put_outbox rs d) = fst ` {k \<in> set (map ?k rs). snd k \<noteq> None}" for rs
    unfolding published_ids_def put_outbox_def by force
  have "published_ids (put_outbox (outbox d) d) = published_ids d" by (simp add: put_outbox_def)
  then show ?thesis unfolding k m by simp
qed

lemma update_state:
  obtains "snd (transaction (update_outbox P f) ses d) = d"
  | u where "snd (transaction (update_outbox P f) ses d) =
      put_outbox (update_rows P (\<lambda>r. touch_outbox u (f r)) (outbox d)) d"
proof (cases "transaction (update_outbox P f) ses d")
  case (Pair r d')
  show ?thesis
  proof (cases r)
    case (Inl e)
    with Pair that(1) transaction_error [of "update_outbox P f" ses d e d'] show ?thesis by simp
  next
    case (Inr n)
    with Pair that(2) ob.update_effect [of P f ses d n d'] show ?thesis by (metis snd_conv)
  qed
qed

lemma published_state:
  "published_ids (snd (outboxRepo_MarkPublished ev owner msg at ses d)) \<subseteq> insert ev (published_ids d)"
proof -
  let ?t = "snd (transaction (update_outbox (held_event ev owner) (publish_event msg at)) ses d)"
  have "published_ids ?t \<subseteq> insert ev (published_ids d)"
  proof (rule update_state [of "held_event ev owner" "publish_event msg at" ses d])
    fix u assume t: "?t = put_outbox (update_rows (held_event ev owner)
        (\<lambda>r. touch_outbox u (publish_event msg at r)) (outbox d)) d"
    have "published_ids (put_outbox (update_rows (held_event ev owner)
        (\<lambda>r. touch_outbox u (publish_event msg at r)) (outbox d)) d) \<subseteq> {ev} \<union> published_ids d"
      by (rule published_ids_update) (auto simp: touch_outbox_def publish_event_def held_event_def)
    with t show ?thesis by simp
  qed auto
  then show ?thesis by (simp add: outboxRepo_MarkPublished_def expect_one_state op_wrap_state)
qed

lemma failed_state:
  "published_ids (snd (outboxRepo_MarkFailed ev owner err at ses d)) = published_ids d"
proof -
  let ?t = "snd (transaction (update_outbox (held_event ev owner) (fail_event err at)) ses d)"
  have "published_ids ?t = published_ids d"
  proof (rule update_state [of "held_event ev owner" "fail_event err at" ses d])
    fix u assume t: "?t = put_outbox (update_rows (held_event ev owner)
        (\<lambda>r. touch_outbox u (fail_event err at r)) (outbox d)) d"
    show ?thesis
      unfolding t by (rule published_ids_same) (auto simp: touch_outbox_def fail_event_def)
  qed auto
  then show ?thesis by (simp add: outboxRepo_MarkFailed_def expect_one_state op_wrap_state)
qed

lemma claim_state:
  "published_ids (snd (outboxRepo_ClaimBatch owner now n ttl ses d)) = published_ids d"
proof (cases "outboxRepo_ClaimBatch owner now n ttl ses d")
  case (Pair r d')
  show ?thesis
  proof (cases r)
    case (Inl e)
    with Pair ClaimBatch_error show ?thesis by fastforce
  next
    case (Inr events)
    from ClaimBatch_result [OF Pair [unfolded Inr]] consider "d' = d" | u where
      "d' = put_outbox (update_rows (\<lambda>e. oe_ID e \<in> oe_ID ` set (claim_candidates ses now n d))
         (claimed_row owner (time_add now ttl) u) (outbox d)) d"
      unfolding claim_rel_def by blast
    then have "published_ids d' = published_ids d"
      by cases (simp_all add: published_ids_same claimed_row_def touch_outbox_def claim_event_def)
    with Pair show ?thesis by simp
  qed
qed

interpretation world_outbox_alone: outbox_repository_alone world_outbox_repo world_alone
  "\<lambda>w. published_ids (w_db w)"
proof
  fix w owner now n ttl ev msg at err
  assume w: "world_alone w"
  note pres = alone_call(1) [OF w prod.collapse [symmetric]]
  show "owner \<noteq> [] \<Longrightarrow> world_alone (snd (or_ClaimBatch world_outbox_repo owner now n ttl w))"
    by (simp add: world_outbox_repo_def) (rule pres, rule ClaimBatch_ok)
  show "world_alone (snd (or_MarkPublished world_outbox_repo ev owner msg at w))"
    by (simp add: world_outbox_repo_def) (rule pres, rule MarkPublished_ok)
  show "world_alone (snd (or_MarkFailed world_outbox_repo ev owner err at w))"
    by (simp add: world_outbox_repo_def) (rule pres, rule MarkFailed_ok)
  show "world_alone (snd (or_CountUnpublished world_outbox_repo w))"
    by (simp add: world_outbox_repo_def) (rule pres, simp add: CountUnpublished_state)
  show "published_ids (w_db (snd (or_ClaimBatch world_outbox_repo owner now n ttl w))) = published_ids (w_db w)"
    by (simp add: world_outbox_repo_def)
       (rule alone_rel [OF w, where R = "\<lambda>d d'. published_ids d' = published_ids d"], rule claim_state)
  show "published_ids (w_db (snd (or_MarkPublished world_outbox_repo ev owner msg at w)))
      \<subseteq> insert ev (published_ids (w_db w))"
    by (simp add: world_outbox_repo_def)
       (rule alone_rel [OF w, where R = "\<lambda>d d'. published_ids d' \<subseteq> insert ev (published_ids d)"],
        rule published_state)
  show "published_ids (w_db (snd (or_MarkFailed world_outbox_repo ev owner err at w))) = published_ids (w_db w)"
    by (simp add: world_outbox_repo_def)
       (rule alone_rel [OF w, where R = "\<lambda>d d'. published_ids d' = published_ids d"], rule failed_state)
  show "published_ids (w_db (snd (or_CountUnpublished world_outbox_repo w))) = published_ids (w_db w)"
    by (simp add: world_outbox_repo_def)
       (rule alone_rel [OF w, where R = "\<lambda>d d'. published_ids d' = published_ids d"],
        simp add: CountUnpublished_state)
qed

end
