(* ===== verification/Redis_Stream.thy ===== *)
theory Redis_Stream
  imports Domain_Model
begin

text \<open>
  \<^verbatim>\<open>internal/pkg/redis/stream.go\<close>: publishing an Outbox event to a Redis Stream, decoding what
  a Consumer Group delivers, and choosing how far history may be trimmed.  Redis is a parameter: a
  record of the client's calls on an abstract server state, each returning what the client returns.
\<close>

section \<open>Messages\<close>

record StreamMessage =
  sm_ID :: string
  sm_EventID :: string
  sm_EventType :: string
  sm_ExecutionID :: int
  sm_Payload :: string
  sm_DecodeError :: string

text \<open>The dynamic types the source distinguishes in a field value, and any other, given by what
  \<^verbatim>\<open>fmt.Sprint\<close> prints for it.\<close>

datatype any =
    AnyInt64 int
  | AnyInt int
  | AnyString string
  | AnyBytes string
  | AnyOther string

text \<open>The value of a missing key.\<close>

definition any_nil :: any where
  "any_nil = AnyOther ''<nil>''"

text \<open>\<^verbatim>\<open>fmt.Sprint\<close>: a byte slice prints as a bracketed list of its bytes.\<close>

fun sprint :: "any \<Rightarrow> string" where
  "sprint (AnyInt64 i) = show_int i"
| "sprint (AnyInt i) = show_int i"
| "sprint (AnyString s) = s"
| "sprint (AnyBytes s) =
     ''['' @ concat (map2 (\<lambda>i c. (if i = 0 then [] else '' '') @ show_nat (of_char c)) [0..<length s] s) @ '']''"
| "sprint (AnyOther s) = s"

record XMessage =
  xm_ID :: string
  xm_Values :: "(string \<times> any) list"

definition field :: "XMessage \<Rightarrow> string \<Rightarrow> any" where
  "field m k = (case map_of (xm_Values m) k of None \<Rightarrow> any_nil | Some v \<Rightarrow> v)"

fun streamInt64 :: "any \<Rightarrow> int result" where
  "streamInt64 (AnyInt64 typed) = Inr typed"
| "streamInt64 (AnyInt typed) = Inr typed"
| "streamInt64 (AnyString typed) = ParseInt typed"
| "streamInt64 (AnyBytes typed) = ParseInt typed"
| "streamInt64 (AnyOther printed) = ParseInt printed"

text \<open>\<^verbatim>\<open>strconv.ParseInt\<close> returns with its error the value 0, or the nearest bound when the
  number is out of range.\<close>

definition int64_or_error :: "any \<Rightarrow> int \<times> go_error option" where
  "int64_or_error v =
     (case streamInt64 v of
        Inr i \<Rightarrow> (i, None)
      | Inl e \<Rightarrow>
          ((let s = sprint v; neg = HasPrefix s ''-'';
                ds = (if neg \<or> HasPrefix s ''+'' then tl s else s)
            in case (if ds = [] then None else digits_value 0 ds) of
                 None \<Rightarrow> 0
               | Some n \<Rightarrow> if neg then int64_min else int64_max), Some e))"

definition decode_message :: "XMessage \<Rightarrow> StreamMessage" where
  "decode_message message =
     (case int64_or_error (field message ''execution_id'') of
        (executionID, err) \<Rightarrow>
          \<lparr>sm_ID = xm_ID message,
           sm_EventID = sprint (field message ''event_id''),
           sm_EventType = sprint (field message ''event_type''),
           sm_ExecutionID = executionID,
           sm_Payload = sprint (field message ''payload''),
           sm_DecodeError = (case err of None \<Rightarrow> [] | Some e \<Rightarrow> wrap_err ''invalid execution_id'' e)\<rparr>)"

definition decodeMessages :: "XMessage list \<Rightarrow> StreamMessage list" where
  "decodeMessages messages = map decode_message messages"

definition decodeStreams :: "(string \<times> XMessage list) list \<Rightarrow> StreamMessage list" where
  "decodeStreams streams = concat (map (\<lambda>(_, ms). decodeMessages ms) streams)"

section \<open>Message identifiers\<close>

text \<open>\<^verbatim>\<open>fmt.Sscanf(value, "%d-%d", ...)\<close>: a number is optional blanks, an optional sign and
  digits in the int64 range; what was scanned before a mismatch is kept, the rest stays 0.\<close>

definition scan_int :: "string \<Rightarrow> (int \<times> string) option" where
  "scan_int s0 =
     (let s = dropWhile (\<lambda>c. c = CHR '' '' \<or> c = CHR 0x09) s0;
          neg = HasPrefix s ''-'';
          s = (if neg \<or> HasPrefix s ''+'' then tl s else s);
          ds = takeWhile is_digit s
      in case (if ds = [] then None else digits_value 0 ds) of
           None \<Rightarrow> None
         | Some n \<Rightarrow>
             (let v = (if neg then - int n else int n)
              in if in_int64 v then Some (v, dropWhile is_digit s) else None))"

definition parse_stream_id :: "string \<Rightarrow> int \<times> int" where
  "parse_stream_id value =
     (case scan_int value of
        None \<Rightarrow> (0, 0)
      | Some (milliseconds, rest) \<Rightarrow>
          (case rest of
             [] \<Rightarrow> (milliseconds, 0)
           | c # cs \<Rightarrow>
               if c = CHR ''-'' then
                 (case scan_int cs of None \<Rightarrow> (milliseconds, 0) | Some (seqno, _) \<Rightarrow> (milliseconds, seqno))
               else (milliseconds, 0)))"

definition streamIDLess :: "string \<Rightarrow> string \<Rightarrow> bool" where
  "streamIDLess left right =
     (case (parse_stream_id left, parse_stream_id right) of
        ((leftMS, leftSequence), (rightMS, rightSequence)) \<Rightarrow>
          leftMS < rightMS \<or> (leftMS = rightMS \<and> leftSequence < rightSequence))"

text \<open>How Redis writes an identifier.\<close>

definition stream_id :: "nat \<Rightarrow> nat \<Rightarrow> string" where
  "stream_id ms seqno = show_nat ms @ ''-'' @ show_nat seqno"

section \<open>Client calls\<close>

record xpending =
  xp_Count :: int
  xp_Lower :: string

text \<open>\<open>None\<close> as a result is \<^verbatim>\<open>goredis.Nil\<close>.\<close>

record 'q redis_client =
  rc_XReadGroup :: "string \<Rightarrow> string \<Rightarrow> string \<Rightarrow> int \<Rightarrow> duration \<Rightarrow> 'q \<Rightarrow>
    (string \<times> XMessage list) list option result \<times> 'q"
  rc_XAutoClaim :: "string \<Rightarrow> string \<Rightarrow> string \<Rightarrow> duration \<Rightarrow> string \<Rightarrow> int \<Rightarrow> 'q \<Rightarrow>
    (XMessage list \<times> string) option result \<times> 'q"
  rc_XAck :: "string \<Rightarrow> string \<Rightarrow> string \<Rightarrow> 'q \<Rightarrow> int result \<times> 'q"
  rc_XPending :: "string \<Rightarrow> string \<Rightarrow> 'q \<Rightarrow> xpending result \<times> 'q"
  rc_XTrimMinID :: "string \<Rightarrow> string \<Rightarrow> 'q \<Rightarrow> int result \<times> 'q"
  rc_XGroupCreateMkStream :: "string \<Rightarrow> string \<Rightarrow> string \<Rightarrow> 'q \<Rightarrow> go_error option \<times> 'q"
  rc_XAdd :: "string \<Rightarrow> int \<Rightarrow> (string \<times> any) list \<Rightarrow> 'q \<Rightarrow> string result \<times> 'q"

definition ReadNew ::
  "'q redis_client \<Rightarrow> string \<Rightarrow> string \<Rightarrow> string \<Rightarrow> int \<Rightarrow> duration \<Rightarrow> 'q \<Rightarrow>
     StreamMessage list result \<times> 'q" where
  "ReadNew client stream grp consumer count block q =
     (case rc_XReadGroup client stream grp consumer count block q of
        (Inl e, q') \<Rightarrow> (Inl (wrap_err ''read Redis Stream consumer group'' e), q')
      | (Inr None, q') \<Rightarrow> (Inr [], q')
      | (Inr (Some result), q') \<Rightarrow> (Inr (decodeStreams result), q'))"

text \<open>The cursor is returned with an error too: the source gives back the one it was passed.\<close>

definition AutoClaim ::
  "'q redis_client \<Rightarrow> string \<Rightarrow> string \<Rightarrow> string \<Rightarrow> duration \<Rightarrow> string \<Rightarrow> int \<Rightarrow> 'q \<Rightarrow>
     (StreamMessage list \<times> string) result \<times> 'q" where
  "AutoClaim client stream grp consumer minIdle start count q =
     (case rc_XAutoClaim client stream grp consumer minIdle start count q of
        (Inl e, q') \<Rightarrow> (Inl (wrap_err ''claim Redis Stream pending messages'' e), q')
      | (Inr None, q') \<Rightarrow> (Inr ([], ''0-0''), q')
      | (Inr (Some (messages, next)), q') \<Rightarrow> (Inr (decodeMessages messages, next), q'))"

definition Ack :: "'q redis_client \<Rightarrow> string \<Rightarrow> string \<Rightarrow> string \<Rightarrow> 'q \<Rightarrow> unit result \<times> 'q" where
  "Ack client stream grp messageID q =
     (case rc_XAck client stream grp messageID q of
        (Inl e, q') \<Rightarrow> (Inl (wrap_err ''acknowledge Redis Stream message'' e), q')
      | (Inr _, q') \<Rightarrow> (Inr (), q'))"

definition PendingCount :: "'q redis_client \<Rightarrow> string \<Rightarrow> string \<Rightarrow> 'q \<Rightarrow> int result \<times> 'q" where
  "PendingCount client stream grp q =
     (case rc_XPending client stream grp q of
        (Inl e, q') \<Rightarrow> (Inl (wrap_err ''read Redis Stream pending state'' e), q')
      | (Inr pending, q') \<Rightarrow> (Inr (xp_Count pending), q'))"

text \<open>\<^verbatim>\<open>UnixMilli\<close> rounds towards minus infinity.\<close>

definition UnixMilli :: "time \<Rightarrow> int" where
  "UnixMilli t = t div 1000000"

definition trim_min_id :: "time \<Rightarrow> xpending \<Rightarrow> string" where
  "trim_min_id cutoff pending =
     (let minID = show_int (UnixMilli cutoff) @ ''-0''
      in if 0 < xp_Count pending \<and> streamIDLess (xp_Lower pending) minID then xp_Lower pending else minID)"

definition TrimAcknowledgedBefore ::
  "'q redis_client \<Rightarrow> string \<Rightarrow> string \<Rightarrow> time \<Rightarrow> 'q \<Rightarrow> int result \<times> 'q" where
  "TrimAcknowledgedBefore client stream grp cutoff q =
     (case rc_XPending client stream grp q of
        (Inl e, q') \<Rightarrow> (Inl (wrap_err ''read Redis Stream pending boundary'' e), q')
      | (Inr pending, q') \<Rightarrow>
          (case rc_XTrimMinID client stream (trim_min_id cutoff pending) q' of
             (Inl e, q'') \<Rightarrow> (Inl (wrap_err ''trim acknowledged Redis Stream history'' e), q'')
           | (Inr trimmed, q'') \<Rightarrow> (Inr trimmed, q'')))"

text \<open>\<^verbatim>\<open>strings.Contains\<close>\<close>

fun contains :: "string \<Rightarrow> string \<Rightarrow> bool" where
  "contains [] sub = (sub = [])"
| "contains (c # cs) sub = (HasPrefix (c # cs) sub \<or> contains cs sub)"

definition EnsureConsumerGroup ::
  "'q redis_client \<Rightarrow> string \<Rightarrow> string \<Rightarrow> 'q \<Rightarrow> unit result \<times> 'q" where
  "EnsureConsumerGroup client stream grp q =
     (case rc_XGroupCreateMkStream client stream grp ''0'' q of
        (None, q') \<Rightarrow> (Inr (), q')
      | (Some e, q') \<Rightarrow>
          (if contains e ''BUSYGROUP'' then Inr ()
           else Inl (wrap_err ''create Redis Stream consumer group'' e), q'))"

text \<open>The fields of a published event; \<open>print\<close> is the JSON text of its payload.\<close>

definition event_values :: "(json \<Rightarrow> string) \<Rightarrow> OutboxEvent \<Rightarrow> (string \<times> any) list" where
  "event_values print event =
     [(''event_id'', AnyString (oe_EventID event)),
      (''execution_id'', AnyInt64 (oe_AggregateID event)),
      (''event_type'', AnyString (oe_EventType event)),
      (''payload'', AnyString (print (oe_Payload event)))]"

definition Publish ::
  "'q redis_client \<Rightarrow> (json \<Rightarrow> string) \<Rightarrow> string \<Rightarrow> int \<Rightarrow> OutboxEvent \<Rightarrow> 'q \<Rightarrow> string result \<times> 'q" where
  "Publish client print stream maxLen event q =
     (case rc_XAdd client stream maxLen (event_values print event) q of
        (Inl e, q') \<Rightarrow> (Inl (wrap_err ''publish Redis Stream message'' e), q')
      | (Inr messageID, q') \<Rightarrow> (Inr messageID, q'))"

section \<open>Facts\<close>

text \<open>Redis stores every field as a string.\<close>

definition stored :: "(string \<times> any) list \<Rightarrow> (string \<times> any) list" where
  "stored kvs = map (\<lambda>(k, v). (k, AnyString (sprint v))) kvs"

text \<open>What a Worker decodes is what the dispatcher published.\<close>

lemma decode_published:
  assumes "in_int64 (oe_AggregateID event)"
  shows "decode_message \<lparr>xm_ID = i, xm_Values = stored (event_values print event)\<rparr> =
     \<lparr>sm_ID = i, sm_EventID = oe_EventID event, sm_EventType = oe_EventType event,
      sm_ExecutionID = oe_AggregateID event, sm_Payload = print (oe_Payload event), sm_DecodeError = []\<rparr>"
  using ParseInt_show_int [OF assms]
  by (simp add: decode_message_def int64_or_error_def field_def stored_def event_values_def)

lemma takeWhile_digits:
  "(c = [] \<or> \<not> is_digit (hd c)) \<Longrightarrow> takeWhile is_digit (show_nat n @ c) = show_nat n \<and>
     dropWhile is_digit (show_nat n @ c) = c"
  using show_nat_digits [of n]
  by (cases c) (simp_all add: takeWhile_append2 dropWhile_append2)

lemma digit_not_blank: "is_digit c \<Longrightarrow> c \<noteq> CHR '' '' \<and> c \<noteq> CHR 0x09"
  by (auto simp: is_digit_def)

lemma scan_int_show_nat:
  assumes "in_int64 (int n)" "c = [] \<or> \<not> is_digit (hd c)"
  shows "scan_int (show_nat n @ c) = Some (int n, c)"
proof -
  obtain x xs where x: "show_nat n = x # xs" by (cases "show_nat n") auto
  have d: "is_digit x" using show_nat_digits [of n] x by simp
  have "dropWhile (\<lambda>c. c = CHR '' '' \<or> c = CHR 0x09) (show_nat n @ c) = show_nat n @ c"
    using digit_not_blank [OF d] x by simp
  moreover have "\<not> HasPrefix (show_nat n @ c) ''-''" "\<not> HasPrefix (show_nat n @ c) ''+''"
    using show_nat_hd [OF x] x by auto
  ultimately show ?thesis
    using takeWhile_digits [OF assms(2)] assms(1)
    by (simp add: scan_int_def Let_def digits_value_show_nat)
qed

lemma parse_stream_id_printed:
  assumes "in_int64 (int ms)" "in_int64 (int seqno)"
  shows "parse_stream_id (stream_id ms seqno) = (int ms, int seqno)"
  using scan_int_show_nat [OF assms(1), of "''-'' @ show_nat seqno"] scan_int_show_nat [OF assms(2), of "[]"]
  by (simp add: parse_stream_id_def stream_id_def)

section \<open>Trimming\<close>

text \<open>Identifiers of stream entries in the order of Redis, and how they are written.\<close>

type_synonym entry_id = "nat \<times> nat"

definition id_le :: "entry_id \<Rightarrow> entry_id \<Rightarrow> bool" where
  "id_le a b \<longleftrightarrow> fst a < fst b \<or> fst a = fst b \<and> snd a \<le> snd b"

definition id_text :: "entry_id \<Rightarrow> string" where
  "id_text i = stream_id (fst i) (snd i)"

definition id_fits :: "entry_id \<Rightarrow> bool" where
  "id_fits i \<longleftrightarrow> in_int64 (int (fst i)) \<and> in_int64 (int (snd i))"

text \<open>What Redis documents of a stream and one of its consumer groups: \<^verbatim>\<open>XPENDING\<close> changes nothing and
  gives the number of the pending entries with the least of them, and \<^verbatim>\<open>XTRIM MINID\<close> evicts exactly the
  entries below the threshold.\<close>

definition redis_stream_documented ::
  "'q redis_client \<Rightarrow> string \<Rightarrow> string \<Rightarrow> ('q \<Rightarrow> entry_id list) \<Rightarrow> ('q \<Rightarrow> entry_id list) \<Rightarrow> bool" where
  "redis_stream_documented client stream grp entries pending \<longleftrightarrow>
     (\<forall>q p q'. rc_XPending client stream grp q = (Inr p, q') \<longrightarrow>
        entries q' = entries q \<and> pending q' = pending q \<and> xp_Count p = int (length (pending q)) \<and>
        (pending q \<noteq> [] \<longrightarrow> (\<exists>i \<in> set (pending q). xp_Lower p = id_text i \<and> (\<forall>j \<in> set (pending q). id_le i j)))) \<and>
     (\<forall>q m n q'. id_fits m \<and> rc_XTrimMinID client stream (id_text m) q = (Inr n, q') \<longrightarrow>
        entries q' = filter (id_le m) (entries q) \<and> pending q' = pending q \<and>
        n = int (length (entries q)) - int (length (entries q')))"

lemma streamIDLess_texts:
  "id_fits a \<Longrightarrow> id_fits b \<Longrightarrow> streamIDLess (id_text a) (id_text b) \<longleftrightarrow> \<not> id_le b a"
  by (cases a; cases b) (auto simp: streamIDLess_def id_text_def id_fits_def parse_stream_id_printed id_le_def)

lemma id_le_trans: "id_le a b \<Longrightarrow> id_le b c \<Longrightarrow> id_le a c"
  by (auto simp: id_le_def)

lemma trim_exact:
  assumes redis: "redis_stream_documented client stream grp entries pending"
    and cutoff: "0 \<le> cutoff" "id_fits (nat (UnixMilli cutoff), 0)" and fits: "\<And>i. i \<in> set (pending q) \<Longrightarrow> id_fits i"
    and run: "TrimAcknowledgedBefore client stream grp cutoff q = (Inr n, q')"
  shows "entries q' = filter (\<lambda>i. (\<exists>p \<in> set (pending q). id_le p i) \<or> id_le (nat (UnixMilli cutoff), 0) i) (entries q)"
    and "pending q' = pending q" "n = int (length (entries q)) - int (length (entries q'))"
proof -
  let ?c = "(nat (UnixMilli cutoff), 0)"
  from run obtain p q1 where p: "rc_XPending client stream grp q = (Inr p, q1)"
    and trim: "rc_XTrimMinID client stream (trim_min_id cutoff p) q1 = (Inr n, q')"
    by (auto simp: TrimAcknowledgedBefore_def split: prod.splits sum.splits)
  from redis p have q1: "entries q1 = entries q" "pending q1 = pending q" and count: "xp_Count p = int (length (pending q))"
    and low: "pending q \<noteq> [] \<Longrightarrow> \<exists>i \<in> set (pending q). xp_Lower p = id_text i \<and> (\<forall>j \<in> set (pending q). id_le i j)"
    by (auto simp: redis_stream_documented_def)
  have c: "show_int (UnixMilli cutoff) @ ''-0'' = id_text ?c"
  proof -
    have "show_nat 0 = ''0''" by code_simp
    with cutoff(1) show ?thesis
      by (auto simp: id_text_def stream_id_def show_int_def UnixMilli_def pos_imp_zdiv_neg_iff)
  qed
  have "\<exists>m. trim_min_id cutoff p = id_text m \<and> id_fits m \<and> (\<forall>i. id_le m i \<longleftrightarrow> (\<exists>j \<in> set (pending q). id_le j i) \<or> id_le ?c i)"
  proof (cases "pending q = []")
    case True
    with count c cutoff(2) show ?thesis by (auto simp: trim_min_id_def Let_def)
  next
    case False
    from low [OF False] obtain l where l: "l \<in> set (pending q)" "xp_Lower p = id_text l" "\<forall>j \<in> set (pending q). id_le l j"
      by blast
    then have ex: "(\<exists>j \<in> set (pending q). id_le j i) \<longleftrightarrow> id_le l i" for i by (blast intro: id_le_trans)
    have "trim_min_id cutoff p = id_text (if \<not> id_le ?c l then l else ?c)"
      using False count by (simp add: trim_min_id_def c l(2) streamIDLess_texts [OF fits [OF l(1)] cutoff(2)])
    moreover have "id_le (if \<not> id_le ?c l then l else ?c) i \<longleftrightarrow> id_le l i \<or> id_le ?c i" for i
      by (auto simp: id_le_def)
    moreover have "id_fits (if \<not> id_le ?c l then l else ?c)" using fits [OF l(1)] cutoff(2) by simp
    ultimately show ?thesis unfolding ex by blast
  qed
  then obtain m where m: "trim_min_id cutoff p = id_text m" "id_fits m"
    and "\<forall>i. id_le m i \<longleftrightarrow> (\<exists>j \<in> set (pending q). id_le j i) \<or> id_le ?c i" by blast
  then have below: "id_le m = (\<lambda>i. (\<exists>j \<in> set (pending q). id_le j i) \<or> id_le ?c i)" by (intro ext) (simp only:)
  have spec: "entries q' = filter (id_le m) (entries q1) \<and> pending q' = pending q1 \<and>
      n = int (length (entries q1)) - int (length (entries q'))"
    if "id_fits m" "rc_XTrimMinID client stream (id_text m) q1 = (Inr n, q')" for m
  proof -
    from redis have "\<forall>q m n q'. id_fits m \<and> rc_XTrimMinID client stream (id_text m) q = (Inr n, q') \<longrightarrow>
        entries q' = filter (id_le m) (entries q) \<and> pending q' = pending q \<and>
        n = int (length (entries q)) - int (length (entries q'))"
      unfolding redis_stream_documented_def by (rule conjunct2)
    with that show ?thesis by fast
  qed
  have "entries q' = filter (id_le m) (entries q)" "pending q' = pending q" "n = int (length (entries q)) - int (length (entries q'))"
    using spec [OF m(2) trim [unfolded m(1)]] q1 by simp_all
  then show "entries q' = filter (\<lambda>i. (\<exists>p \<in> set (pending q). id_le p i) \<or> id_le ?c i) (entries q)"
    "pending q' = pending q" "n = int (length (entries q)) - int (length (entries q'))"
    by (simp_all add: below)
qed

text \<open>A message that no consumer has read yet is not pending: it is removed all the same once it is older than the
  cut-off, unless an older one is pending.\<close>

lemma unread_message_trimmed:
  assumes "redis_stream_documented client stream grp entries pending" "0 \<le> cutoff" "id_fits (nat (UnixMilli cutoff), 0)"
    and "TrimAcknowledgedBefore client stream grp cutoff q = (Inr n, q')" "pending q = []"
    and "i \<in> set (entries q)" "fst i < nat (UnixMilli cutoff)"
  shows "i \<notin> set (entries q')"
  using trim_exact(1) [OF assms(1-3) _ assms(4)] assms(5-) by (auto simp: id_le_def)

end
