(* ===== verification/Stream_Worker.thy ===== *)
theory Stream_Worker
  imports Execution_Repo Outbox_Dispatcher Redis_Stream Callback
begin

text \<open>
  \<^verbatim>\<open>internal/service/stream_worker.go\<close>: what a Worker does with one message.  It claims the
  Execution under a fresh run token, decodes the request snapshot, runs the callback while a heartbeat
  renews the lease, and records the outcome, acknowledging the message only once it is recorded.  The
  heartbeat goroutine runs between the claim and the end of the callback and touches only the
  repository, so its interleaving with the callback is the list of the instants its ticker fired.

  The locale \<open>execution_repository\<close> is the contract the Worker needs for the database to stay
  consistent.
\<close>

section \<open>Tokens, back-off, failure classes\<close>

text \<open>\<^verbatim>\<open>rand.Read\<close> of 16 bytes, then \<^verbatim>\<open>hex.EncodeToString\<close>.\<close>

definition hex_byte :: "8 word \<Rightarrow> string" where
  "hex_byte b = [hex_digit (unat b div 16), hex_digit (unat b mod 16)]"

definition newRunToken :: "(nat \<Rightarrow> 8 word) result \<Rightarrow> string result" where
  "newRunToken rand =
     (case rand of Inl e \<Rightarrow> Inl e | Inr value \<Rightarrow> Inr (concat (map (hex_byte \<circ> value) [0..<16])))"

text \<open>The products are int64 products.\<close>

definition retryBackoff :: "WorkerConfig \<Rightarrow> int \<Rightarrow> duration" where
  "retryBackoff cfg attempt0 =
     (let attempt = (if attempt0 < 1 then 1 else attempt0);
          exponent = (if 30 < attempt - 1 then 30 else attempt - 1);
          secs = wrap64 (wc_RetryBaseSeconds cfg * 2 ^ nat exponent);
          secs = (if wc_RetryMaxSeconds cfg < secs then wc_RetryMaxSeconds cfg else secs)
      in seconds secs)"

definition truncateWorkerError :: "string \<Rightarrow> string" where
  "truncateWorkerError message = truncate_error message"

definition isRetryableCallbackFailure :: "int \<Rightarrow> bool" where
  "isRetryableCallbackFailure responseCode =
     (if responseCode = 0 then True
      else responseCode = 408 \<or> responseCode = 425 \<or> responseCode = 429 \<or> 500 \<le> responseCode)"

section \<open>Interfaces\<close>

record 's TimerExecutionRepository =
  er_Claim :: "int \<Rightarrow> string \<Rightarrow> string \<Rightarrow> time \<Rightarrow> duration \<Rightarrow> 's \<Rightarrow>
    (TimerExecution option \<times> bool) result \<times> 's"
  er_Heartbeat :: "int \<Rightarrow> string \<Rightarrow> string \<Rightarrow> time \<Rightarrow> 's \<Rightarrow> bool result \<times> 's"
  er_CompleteSuccess :: "int \<Rightarrow> string \<Rightarrow> string \<Rightarrow> time \<Rightarrow> int \<Rightarrow> string \<Rightarrow> int \<Rightarrow> 's \<Rightarrow> bool result \<times> 's"
  er_CompleteFailure :: "TimerExecution \<Rightarrow> string \<Rightarrow> string \<Rightarrow> time \<Rightarrow> int \<Rightarrow> string \<Rightarrow> string \<Rightarrow> int \<Rightarrow>
    time \<Rightarrow> bool \<Rightarrow> 's \<Rightarrow> (bool \<times> bool) result \<times> 's"
  er_CountByStatus :: "'s \<Rightarrow> (ExecutionStatus \<Rightarrow> int option) result \<times> 's"

record 'q workerStream =
  ws_ReadNew :: "string \<Rightarrow> string \<Rightarrow> string \<Rightarrow> int \<Rightarrow> duration \<Rightarrow> 'q \<Rightarrow> StreamMessage list result \<times> 'q"
  ws_AutoClaim :: "string \<Rightarrow> string \<Rightarrow> string \<Rightarrow> duration \<Rightarrow> string \<Rightarrow> int \<Rightarrow> 'q \<Rightarrow>
    (StreamMessage list \<times> string) result \<times> 'q"
  ws_Ack :: "string \<Rightarrow> string \<Rightarrow> string \<Rightarrow> 'q \<Rightarrow> unit result \<times> 'q"
  ws_PendingCount :: "string \<Rightarrow> string \<Rightarrow> 'q \<Rightarrow> int result \<times> 'q"

type_synonym executionCallback = "CallbackSnapshot \<Rightarrow> int \<Rightarrow> int \<times> string \<times> go_error option"

record ('q, 's) StreamWorker =
  sw_repo :: "'s TimerExecutionRepository"
  sw_stream :: "'q workerStream"
  sw_workerCfg :: WorkerConfig
  sw_outboxCfg :: OutboxConfig
  sw_consumerID :: string

type_synonym ('q, 's) worker_state = "Reporter \<times> 'q \<times> 's"

text \<open>What one run of \<^verbatim>\<open>process\<close> sees of its surroundings: the random bytes, the clock at
  the claim, at each heartbeat and at the end, and the callback.\<close>

record attempt_env =
  ae_rand :: "(nat \<Rightarrow> 8 word) result"
  ae_startedAt :: time
  ae_heartbeats :: "time list"
  ae_finishedAt :: time
  ae_callback :: executionCallback

section \<open>Processing a message\<close>

definition worker_ack ::
  "('q, 's) StreamWorker \<Rightarrow> StreamMessage \<Rightarrow> ('q, 's) worker_state \<Rightarrow> ('q, 's) worker_state" where
  "worker_ack w message st =
     (case st of (reporter, q, s) \<Rightarrow>
        (reporter,
         snd (ws_Ack (sw_stream w) (oc_Stream (sw_outboxCfg w)) (oc_ConsumerGroup (sw_outboxCfg w))
                (sm_ID message) q),
         s))"

text \<open>The heartbeat: whether the lease was lost.\<close>

fun heartbeat ::
  "('q, 's) StreamWorker \<Rightarrow> int \<Rightarrow> string \<Rightarrow> time list \<Rightarrow> 's \<Rightarrow> bool \<times> 's" where
  "heartbeat w executionID runToken [] s = (False, s)"
| "heartbeat w executionID runToken (now # ticks) s =
     (case er_Heartbeat (sw_repo w) executionID (sw_consumerID w) runToken
             (time_add now (seconds (wc_LeaseTTLSeconds (sw_workerCfg w)))) s of
        (Inr True, s') \<Rightarrow> heartbeat w executionID runToken ticks s'
      | (_, s') \<Rightarrow> (True, s'))"

definition finishFailure ::
  "('q, 's) StreamWorker \<Rightarrow> StreamMessage \<Rightarrow> TimerExecution \<Rightarrow> string \<Rightarrow> time \<Rightarrow> time \<Rightarrow> int \<Rightarrow> string \<Rightarrow>
     go_error \<Rightarrow> bool \<Rightarrow> ('q, 's) worker_state \<Rightarrow> ('q, 's) worker_state" where
  "finishFailure w message execution runToken startedAt finishedAt responseCode responseBody callbackErr
     retryable st =
     (case st of (reporter, q, s) \<Rightarrow>
        (let retryAt = time_add finishedAt (retryBackoff (sw_workerCfg w) (te_Attempt execution))
         in case er_CompleteFailure (sw_repo w) execution (sw_consumerID w) runToken finishedAt
                   responseCode responseBody (truncateWorkerError callbackErr)
                   (Milliseconds (time_sub finishedAt startedAt)) retryAt retryable s of
              (Inl e, s') \<Rightarrow> (reporter, q, s')
            | (Inr (updated, retryScheduled), s') \<Rightarrow>
                if \<not> updated then (reporter, q, s')
                else
                  (let reporter = ReportWorkerExecution ResultFailed (time_sub finishedAt startedAt) reporter;
                       reporter = (if retryScheduled then ReportWorkerRetry reporter else reporter)
                   in worker_ack w message (reporter, q, s'))))"

definition finishSuccess ::
  "('q, 's) StreamWorker \<Rightarrow> StreamMessage \<Rightarrow> TimerExecution \<Rightarrow> string \<Rightarrow> time \<Rightarrow> time \<Rightarrow> int \<Rightarrow> string \<Rightarrow>
     ('q, 's) worker_state \<Rightarrow> ('q, 's) worker_state" where
  "finishSuccess w message execution runToken startedAt finishedAt responseCode responseBody st =
     (case st of (reporter, q, s) \<Rightarrow>
        (case er_CompleteSuccess (sw_repo w) (te_ID execution) (sw_consumerID w) runToken finishedAt
                responseCode responseBody (Milliseconds (time_sub finishedAt startedAt)) s of
           (Inl e, s') \<Rightarrow> (reporter, q, s')
         | (Inr updated, s') \<Rightarrow>
             if \<not> updated then (reporter, q, s')
             else worker_ack w message
                    (ReportWorkerExecution ResultSuccess (time_sub finishedAt startedAt) reporter, q, s')))"

text \<open>The part of \<^verbatim>\<open>process\<close> that follows a successful claim.\<close>

definition run_attempt ::
  "('q, 's) StreamWorker \<Rightarrow> StreamMessage \<Rightarrow> attempt_env \<Rightarrow> TimerExecution \<Rightarrow> string \<Rightarrow>
     ('q, 's) worker_state \<Rightarrow> ('q, 's) worker_state" where
  "run_attempt w message env execution runToken st =
     (case unmarshal_snapshot (te_RequestSnapshot execution) of
        Inl e \<Rightarrow>
          finishFailure w message execution runToken (ae_startedAt env) (ae_finishedAt env) 0 []
            (wrap_err ''decode callback snapshot'' e) False st
      | Inr snapshot \<Rightarrow>
          (case st of (reporter, q, s) \<Rightarrow>
             (case heartbeat w (te_ID execution) runToken (ae_heartbeats env) s of
                (leaseLost, s') \<Rightarrow>
                  (case ae_callback env snapshot (te_ID execution) of
                     (responseCode, responseBody, callbackErr) \<Rightarrow>
                       if leaseLost then (ReportWorkerLeaseLost reporter, q, s')
                       else
                         (case callbackErr of
                            Some e \<Rightarrow>
                              finishFailure w message execution runToken (ae_startedAt env)
                                (ae_finishedAt env) responseCode responseBody e
                                (isRetryableCallbackFailure responseCode) (reporter, q, s')
                          | None \<Rightarrow>
                              finishSuccess w message execution runToken (ae_startedAt env)
                                (ae_finishedAt env) responseCode responseBody (reporter, q, s'))))))"

definition process ::
  "('q, 's) StreamWorker \<Rightarrow> attempt_env \<Rightarrow> StreamMessage \<Rightarrow> bool \<Rightarrow> ('q, 's) worker_state \<Rightarrow>
     ('q, 's) worker_state" where
  "process w env message reclaimed st =
     (if sm_DecodeError message \<noteq> [] \<or> sm_ExecutionID message < 1 then worker_ack w message st
      else
        (case st of (reporter0, q, s) \<Rightarrow>
           (let reporter = (if reclaimed then ReportWorkerRedelivery reporter0 else reporter0)
            in case newRunToken (ae_rand env) of
                 Inl e \<Rightarrow> (reporter, q, s)
               | Inr runToken \<Rightarrow>
                   (case er_Claim (sw_repo w) (sm_ExecutionID message) (sw_consumerID w) runToken
                           (ae_startedAt env) (seconds (wc_LeaseTTLSeconds (sw_workerCfg w))) s of
                      (Inl e, s') \<Rightarrow> (reporter, q, s')
                    | (Inr (None, claimed), s') \<Rightarrow> worker_ack w message (reporter, q, s')
                    | (Inr (Some execution, claimed), s') \<Rightarrow>
                        if \<not> claimed then
                          (if IsTerminal execution \<or> te_Status execution = ExecutionStatusRetryWait
                           then worker_ack w message (reporter, q, s')
                           else (reporter, q, s'))
                        else run_attempt w message env execution runToken (reporter, q, s')))))"

section \<open>The loop\<close>

text \<open>One turn of \<^verbatim>\<open>Start\<close>: the clock at its two readings, how each submitted message is run,
  and which submissions the pool refuses.  The pool runs messages concurrently; here they run in the
  order they were submitted.\<close>

record worker_turn =
  wt_now :: time
  wt_after_reclaim :: time
  wt_refused :: "string \<Rightarrow> bool"
  wt_env :: "string \<Rightarrow> attempt_env"

definition submit ::
  "('q, 's) StreamWorker \<Rightarrow> worker_turn \<Rightarrow> bool \<Rightarrow> StreamMessage \<Rightarrow> ('q, 's) worker_state \<Rightarrow>
     ('q, 's) worker_state" where
  "submit w u reclaimed message st =
     (if wt_refused u (sm_ID message) then st
      else process w (wt_env u (sm_ID message)) message reclaimed st)"

definition refreshPendingMetric ::
  "('q, 's) StreamWorker \<Rightarrow> ('q, 's) worker_state \<Rightarrow> ('q, 's) worker_state" where
  "refreshPendingMetric w st =
     (case st of (reporter, q, s) \<Rightarrow>
        (case ws_PendingCount (sw_stream w) (oc_Stream (sw_outboxCfg w)) (oc_ConsumerGroup (sw_outboxCfg w)) q of
           (Inl e, q') \<Rightarrow> (reporter, q', s)
         | (Inr n, q') \<Rightarrow> (SetWorkerPending n reporter, q', s)))"

text \<open>The reclaim step: cursor and next reclaim instant are the loop's variables.\<close>

definition reclaim_step ::
  "('q, 's) StreamWorker \<Rightarrow> worker_turn \<Rightarrow> string \<times> time \<Rightarrow> ('q, 's) worker_state \<Rightarrow>
     (string \<times> time) \<times> ('q, 's) worker_state" where
  "reclaim_step w u loop st =
     (case (loop, st) of ((reclaimCursor, nextReclaim), (reporter, q, s)) \<Rightarrow>
        if wt_now u < nextReclaim then (loop, st)
        else
          (let next_time = time_add (wt_after_reclaim u) (seconds (wc_ReclaimIntervalSeconds (sw_workerCfg w)))
           in case ws_AutoClaim (sw_stream w) (oc_Stream (sw_outboxCfg w)) (oc_ConsumerGroup (sw_outboxCfg w))
                     (sw_consumerID w) (seconds (wc_ReclaimIdleSeconds (sw_workerCfg w))) reclaimCursor
                     (wc_ReadCount (sw_workerCfg w)) q of
                (Inl e, q') \<Rightarrow> ((reclaimCursor, next_time), (reporter, q', s))
              | (Inr (messages, next), q') \<Rightarrow>
                  ((if next = [] then ''0-0'' else next, next_time),
                   fold (submit w u True) messages (reporter, q', s))))"

definition worker_turn_step ::
  "('q, 's) StreamWorker \<Rightarrow> worker_turn \<Rightarrow> (string \<times> time) \<times> ('q, 's) worker_state \<Rightarrow>
     (string \<times> time) \<times> ('q, 's) worker_state" where
  "worker_turn_step w u lst =
     (case reclaim_step w u (fst lst) (snd lst) of
        (loop, (reporter, q, s)) \<Rightarrow>
          (case ws_ReadNew (sw_stream w) (oc_Stream (sw_outboxCfg w)) (oc_ConsumerGroup (sw_outboxCfg w))
                  (sw_consumerID w) (wc_ReadCount (sw_workerCfg w))
                  (millis (wc_ReadBlockMS (sw_workerCfg w))) q of
             (Inl e, q') \<Rightarrow> (loop, (reporter, q', s))
           | (Inr messages, q') \<Rightarrow>
               (loop, refreshPendingMetric w (fold (submit w u False) messages (reporter, q', s)))))"

text \<open>\<^verbatim>\<open>Start\<close> over the turns it makes before the context is done.\<close>

definition StreamWorker_Start ::
  "('q, 's) StreamWorker \<Rightarrow> time \<Rightarrow> worker_turn list \<Rightarrow> ('q, 's) worker_state \<Rightarrow> ('q, 's) worker_state" where
  "StreamWorker_Start w started turns st =
     snd (fold (worker_turn_step w) turns ((''0-0'', started), st))"

section \<open>The contract\<close>

locale execution_repository =
  fixes repo :: "'s TimerExecutionRepository" and inv :: "'s \<Rightarrow> bool"
  assumes claim_inv: "inv s \<Longrightarrow> token \<noteq> [] \<Longrightarrow> inv (snd (er_Claim repo i owner token now ttl s))"
    and heartbeat_inv: "inv s \<Longrightarrow> inv (snd (er_Heartbeat repo i owner token until s))"
    and success_inv: "inv s \<Longrightarrow> inv (snd (er_CompleteSuccess repo i owner token at code body ms s))"
    and failure_inv: "inv s \<Longrightarrow>
      inv (snd (er_CompleteFailure repo e owner token at code body msg ms retryAt retryable s))"
    and counts_inv: "inv s \<Longrightarrow> inv (snd (er_CountByStatus repo s))"

lemma newRunToken_length: "newRunToken rand = Inr token \<Longrightarrow> length token = 32"
  by (auto simp: newRunToken_def hex_byte_def upt_rec split: sum.splits)

lemma ascii_hex_byte [simp]: "ascii (hex_byte b)"
proof -
  have "unat b < 256" using unsigned_less [of b] by simp
  then show ?thesis by (simp add: hex_byte_def)
qed

lemma newRunToken_ascii: "newRunToken rand = Inr token \<Longrightarrow> ascii token"
  by (auto simp: newRunToken_def upt_rec split: sum.splits)

lemma newRunToken_nonempty: "newRunToken rand = Inr token \<Longrightarrow> token \<noteq> []"
  using newRunToken_length by fastforce

context execution_repository
begin

lemma heartbeat_keeps: "sw_repo w = repo \<Longrightarrow> inv s \<Longrightarrow> inv (snd (heartbeat w i token ticks s))"
proof (induction ticks arbitrary: s)
  case (Cons now ticks)
  obtain r s' where h: "er_Heartbeat repo i (sw_consumerID w) token
      (time_add now (seconds (wc_LeaseTTLSeconds (sw_workerCfg w)))) s = (r, s')" by force
  with heartbeat_inv [OF Cons.prems(2)] have "inv s'" by (metis snd_conv)
  with h Cons show ?case by (cases r) (auto split: bool.splits)
qed simp

lemma ack_keeps: "snd (snd (worker_ack w message st)) = snd (snd st)"
  by (cases st) (simp add: worker_ack_def)

lemma finishFailure_inv:
  assumes "sw_repo w = repo" "inv (snd (snd st))"
  shows "inv (snd (snd (finishFailure w message e token t0 t1 code body err retryable st)))"
proof -
  obtain reporter q s where st: "st = (reporter, q, s)" by (rule prod_cases3)
  let ?c = "er_CompleteFailure repo e (sw_consumerID w) token t1 code body (truncateWorkerError err)
      (Milliseconds (time_sub t1 t0)) (time_add t1 (retryBackoff (sw_workerCfg w) (te_Attempt e))) retryable s"
  have "inv (snd ?c)" using failure_inv assms(2) st by simp
  then show ?thesis
    using assms(1) by (cases ?c) (auto simp: finishFailure_def st Let_def ack_keeps split: sum.splits)
qed

lemma finishSuccess_inv:
  assumes "sw_repo w = repo" "inv (snd (snd st))"
  shows "inv (snd (snd (finishSuccess w message e token t0 t1 code body st)))"
proof -
  obtain reporter q s where st: "st = (reporter, q, s)" by (rule prod_cases3)
  let ?c = "er_CompleteSuccess repo (te_ID e) (sw_consumerID w) token t1 code body
      (Milliseconds (time_sub t1 t0)) s"
  have "inv (snd ?c)" using success_inv assms(2) st by simp
  then show ?thesis
    using assms(1) by (cases ?c) (auto simp: finishSuccess_def st ack_keeps split: sum.splits)
qed

lemma run_attempt_inv:
  assumes "sw_repo w = repo" "inv (snd (snd st))"
  shows "inv (snd (snd (run_attempt w message env e token st)))"
proof (cases "unmarshal_snapshot (te_RequestSnapshot e)")
  case (Inl err)
  then show ?thesis by (simp add: run_attempt_def finishFailure_inv assms)
next
  case (Inr snapshot)
  obtain reporter q s where st: "st = (reporter, q, s)" by (rule prod_cases3)
  obtain lost s' where h: "heartbeat w (te_ID e) token (ae_heartbeats env) s = (lost, s')"
    by (rule prod.exhaust)
  with heartbeat_keeps [OF assms(1), of s] assms(2) st have "inv s'" by (metis snd_conv)
  moreover obtain code body err where "ae_callback env snapshot (te_ID e) = (code, body, err)"
    by (rule prod_cases3)
  ultimately show ?thesis
    using Inr h assms(1)
    by (cases err) (simp_all add: run_attempt_def st finishFailure_inv finishSuccess_inv)
qed

lemma process_inv:
  assumes "sw_repo w = repo" "inv (snd (snd st))"
  shows "inv (snd (snd (process w env message reclaimed st)))"
proof (cases "sm_DecodeError message \<noteq> [] \<or> sm_ExecutionID message < 1")
  case True
  then show ?thesis by (simp add: process_def ack_keeps assms)
next
  case False
  obtain reporter q s where st: "st = (reporter, q, s)" by (rule prod_cases3)
  let ?rep = "if reclaimed then ReportWorkerRedelivery reporter else reporter"
  show ?thesis
  proof (cases "newRunToken (ae_rand env)")
    case (Inl e)
    with False assms(2) st show ?thesis by (simp add: process_def Let_def)
  next
    case (Inr token)
    obtain r s' where c: "er_Claim repo (sm_ExecutionID message) (sw_consumerID w) token
        (ae_startedAt env) (seconds (wc_LeaseTTLSeconds (sw_workerCfg w))) s = (r, s')" by force
    have inv': "inv s'"
      using claim_inv [OF _ newRunToken_nonempty [OF Inr]] c assms(2) st by (metis snd_conv)
    have step: "process w env message reclaimed st =
        (case r of Inl e \<Rightarrow> (?rep, q, s')
         | Inr (None, claimed) \<Rightarrow> worker_ack w message (?rep, q, s')
         | Inr (Some e, claimed) \<Rightarrow>
             if \<not> claimed then
               (if IsTerminal e \<or> te_Status e = ExecutionStatusRetryWait
                then worker_ack w message (?rep, q, s') else (?rep, q, s'))
             else run_attempt w message env e token (?rep, q, s'))"
      using False Inr c assms(1) by (simp add: process_def st Let_def split: sum.split)
    show ?thesis
      unfolding step using inv' run_attempt_inv [OF assms(1), of "(?rep, q, s')"]
      by (auto simp: ack_keeps split: sum.split prod.split option.split)
  qed
qed

lemma submit_inv:
  "sw_repo w = repo \<Longrightarrow> inv (snd (snd st)) \<Longrightarrow> inv (snd (snd (submit w u b message st)))"
  by (simp add: submit_def process_inv)

lemma submits_inv:
  "sw_repo w = repo \<Longrightarrow> inv (snd (snd st)) \<Longrightarrow> inv (snd (snd (fold (submit w u b) messages st)))"
  by (induction messages arbitrary: st) (simp_all add: submit_inv)

lemma refresh_pending_inv: "snd (snd (refreshPendingMetric w st)) = snd (snd st)"
  by (cases st) (auto simp: refreshPendingMetric_def split: prod.splits sum.splits)

lemma reclaim_step_inv:
  assumes "sw_repo w = repo" "inv (snd (snd st))"
  shows "inv (snd (snd (snd (reclaim_step w u loop st))))"
proof -
  obtain cursor nextr where loop: "loop = (cursor, nextr)" by force
  obtain reporter q s where st: "st = (reporter, q, s)" by (rule prod_cases3)
  show ?thesis
    using assms submits_inv [OF assms(1), of "(reporter, _, s)"]
    by (auto simp: reclaim_step_def loop st Let_def split: prod.splits sum.splits)
qed

lemma turn_inv:
  assumes "sw_repo w = repo" "inv (snd (snd (snd lst)))"
  shows "inv (snd (snd (snd (worker_turn_step w u lst))))"
proof -
  obtain loop st where r0: "reclaim_step w u (fst lst) (snd lst) = (loop, st)" by (rule prod.exhaust)
  obtain reporter q s where "st = (reporter, q, s)" by (rule prod_cases3)
  with r0 have r: "reclaim_step w u (fst lst) (snd lst) = (loop, (reporter, q, s))" by simp
  with reclaim_step_inv [OF assms, of u "fst lst"] have "inv s" by simp
  then show ?thesis
    using submits_inv [OF assms(1), of "(reporter, _, s)"]
    by (auto simp: worker_turn_step_def r refresh_pending_inv split: prod.splits sum.splits)
qed

lemma Start_inv:
  assumes "sw_repo w = repo" "inv (snd (snd st))"
  shows "inv (snd (snd (StreamWorker_Start w started turns st)))"
proof -
  have "inv (snd (snd (snd (fold (worker_turn_step w) turns lst))))" if "inv (snd (snd (snd lst)))" for lst
    using that by (induction turns arbitrary: lst) (simp_all add: turn_inv [OF assms(1)])
  from this [of "((''0-0'', started), st)"] assms(2) show ?thesis by (simp add: StreamWorker_Start_def)
qed

end

section \<open>The SQL repository meets the contract\<close>

definition world_execution_repo :: "world TimerExecutionRepository" where
  "world_execution_repo = \<lparr>
     er_Claim = executionRepo_Claim,
     er_Heartbeat = (\<lambda>i owner token until. call (executionRepo_Heartbeat i owner token until)),
     er_CompleteSuccess = (\<lambda>i owner token at code body ms.
       call (executionRepo_CompleteSuccess i owner token at code body ms)),
     er_CompleteFailure = (\<lambda>e owner token at code body msg ms retryAt retryable.
       call (executionRepo_CompleteFailure e owner token at code body msg ms retryAt retryable)),
     er_CountByStatus = call executionRepo_CountByStatus\<rparr>"

lemma Claim_ok:
  assumes "world_ok w" "token \<noteq> []"
  shows "world_ok (snd (executionRepo_Claim i owner token now ttl w))"
  unfolding executionRepo_Claim_def
  by (rule keeps [where I = world_ok] keeps_tuple [where I = world_ok] snd_call_preserves
        claim_update_ok assms | assumption | simp add: claim_read_state)+

interpretation world_execution: execution_repository world_execution_repo world_ok
  by unfold_locales
     (simp_all add: world_execution_repo_def Claim_ok snd_call_preserves Heartbeat_ok
        CompleteSuccess_ok CompleteFailure_ok CountByStatus_state)

end
