(* ===== verification/Reconciler.thy ===== *)
theory Reconciler
  imports Recovery_Repo Stream_Worker
begin

text \<open>
  \<^verbatim>\<open>internal/service/reconciler.go\<close>: the recovery scan, the cleanup of history, the Execution
  gauges, and the cleaner of Redis Stream history.  The select loop over the two tickers is a fold over
  the sequence of ticks it receives.
\<close>

section \<open>Operations\<close>

record 's RecoveryRepository =
  vr_RecoverBatch :: "time \<Rightarrow> time \<Rightarrow> int \<Rightarrow> 's \<Rightarrow> RecoveryResult result \<times> 's"
  vr_Cleanup :: "time \<Rightarrow> time \<Rightarrow> int \<Rightarrow> 's \<Rightarrow> CleanupResult result \<times> 's"

record 's Reconciler =
  rn_recoveryRepo :: "'s RecoveryRepository"
  rn_executionRepo :: "'s TimerExecutionRepository"
  rn_cfg :: RecoveryConfig

definition execution_statuses :: "ExecutionStatus list" where
  "execution_statuses =
     [ExecutionStatusPending, ExecutionStatusRunning, ExecutionStatusRetryWait,
      ExecutionStatusSuccess, ExecutionStatusFailed, ExecutionStatusCancelled]"

definition collectExecutionMetrics :: "'s Reconciler \<Rightarrow> Reporter \<times> 's \<Rightarrow> Reporter \<times> 's" where
  "collectExecutionMetrics r st =
     (case st of (reporter, s) \<Rightarrow>
        (case er_CountByStatus (rn_executionRepo r) s of
           (Inl e, s') \<Rightarrow> (ReportRecoveryFailure reporter, s')
         | (Inr counts, s') \<Rightarrow>
             (fold (\<lambda>status. SetExecutionCount (execution_status_text status) (count_of counts status))
                execution_statuses reporter, s')))"

text \<open>\<^verbatim>\<open>-time.Duration(n)*time.Second\<close> is an int64 product.\<close>

definition duration_ago :: "int \<Rightarrow> duration \<Rightarrow> duration" where
  "duration_ago n un = wrap64 (- n * un)"

definition reconcile :: "'s Reconciler \<Rightarrow> time \<Rightarrow> Reporter \<times> 's \<Rightarrow> Reporter \<times> 's" where
  "reconcile r now st =
     (case st of (reporter, s) \<Rightarrow>
        (case vr_RecoverBatch (rn_recoveryRepo r) now
                (time_add now (duration_ago (rc_PendingStaleSeconds (rn_cfg r)) nanos_per_second))
                (rc_BatchSize (rn_cfg r)) s of
           (Inl e, s') \<Rightarrow> (ReportRecoveryFailure reporter, s')
         | (Inr res, s') \<Rightarrow>
             (let reporter = ReportRecoveryAction ''reenqueue'' (rr_Reenqueued res) reporter;
                  reporter = ReportRecoveryAction ''expired_lease'' (rr_ExpiredLeases res) reporter;
                  reporter = ReportRecoveryAction ''terminal_failure'' (rr_FinalFailures res) reporter
              in collectExecutionMetrics r (reporter, s'))))"

definition hours_per_day_nanos :: int where
  "hours_per_day_nanos = 24 * 3600 * nanos_per_second"

definition cleanup :: "'s Reconciler \<Rightarrow> time \<Rightarrow> Reporter \<times> 's \<Rightarrow> Reporter \<times> 's" where
  "cleanup r now st =
     (case st of (reporter, s) \<Rightarrow>
        (case vr_Cleanup (rn_recoveryRepo r)
                (time_add now (duration_ago (rc_OutboxRetentionDays (rn_cfg r)) hours_per_day_nanos))
                (time_add now (duration_ago (rc_ExecutionRetentionDays (rn_cfg r)) hours_per_day_nanos))
                (rc_BatchSize (rn_cfg r)) s of
           (Inl e, s') \<Rightarrow> (ReportRecoveryFailure reporter, s')
         | (Inr res, s') \<Rightarrow>
             (ReportRecoveryAction ''cleanup'' (cu_OutboxEvents res + cu_Executions res) reporter, s')))"

datatype tick = ScanTick time | CleanupTick time

fun reconciler_tick :: "'s Reconciler \<Rightarrow> tick \<Rightarrow> Reporter \<times> 's \<Rightarrow> Reporter \<times> 's" where
  "reconciler_tick r (ScanTick now) st = reconcile r now st"
| "reconciler_tick r (CleanupTick now) st = cleanup r now st"

definition Reconciler_Start ::
  "'s Reconciler \<Rightarrow> time \<Rightarrow> tick list \<Rightarrow> Reporter \<times> 's \<Rightarrow> go_error option \<times> Reporter \<times> 's" where
  "Reconciler_Start r first ticks st =
     (if \<not> rc_Enabled (rn_cfg r) then (None, st)
      else
        (let st' = reconcile r first st
         in case NewTicker (seconds (rc_ScanIntervalSeconds (rn_cfg r))) of
              Inl panic \<Rightarrow> (Some panic, st')
            | Inr _ \<Rightarrow> polling (mins (rc_CleanupIntervalMinutes (rn_cfg r))) (reconciler_tick r) ticks st'))"

text \<open>The stream history cleaner; of its stream it needs \<^verbatim>\<open>TrimAcknowledgedBefore\<close>.\<close>

type_synonym 'q streamRetention = "string \<Rightarrow> string \<Rightarrow> time \<Rightarrow> 'q \<Rightarrow> int result \<times> 'q"

record 'q StreamRetentionCleaner =
  cl_stream :: "'q streamRetention"
  cl_outbox :: OutboxConfig
  cl_recovery :: RecoveryConfig

definition NewStreamRetentionCleaner ::
  "'q streamRetention \<Rightarrow> OutboxConfig \<Rightarrow> RecoveryConfig \<Rightarrow> 'q StreamRetentionCleaner" where
  "NewStreamRetentionCleaner stream outbox_cfg recovery =
     \<lparr>cl_stream = stream, cl_outbox = outbox_cfg, cl_recovery = recovery\<rparr>"

definition retention_cleanup ::
  "'q StreamRetentionCleaner \<Rightarrow> time \<Rightarrow> Reporter \<times> 'q \<Rightarrow> Reporter \<times> 'q" where
  "retention_cleanup c now st =
     (case st of (reporter, q) \<Rightarrow>
        (case cl_stream c (oc_Stream (cl_outbox c)) (oc_ConsumerGroup (cl_outbox c))
                (time_add now (duration_ago (rc_StreamRetentionHours (cl_recovery c)) (3600 * nanos_per_second))) q of
           (Inl e, q') \<Rightarrow> (ReportRecoveryFailure reporter, q')
         | (Inr trimmed, q') \<Rightarrow> (ReportRecoveryAction ''cleanup'' trimmed reporter, q')))"

definition StreamRetentionCleaner_Start ::
  "'q StreamRetentionCleaner \<Rightarrow> time list \<Rightarrow> Reporter \<times> 'q \<Rightarrow> go_error option \<times> Reporter \<times> 'q" where
  "StreamRetentionCleaner_Start c ticks st =
     (if \<not> rc_Enabled (cl_recovery c) then (None, st)
      else polling (mins (rc_CleanupIntervalMinutes (cl_recovery c))) (retention_cleanup c) ticks st)"

section \<open>The contract\<close>

locale recovery_repository = execution_repository repo inv
  for repo :: "'s TimerExecutionRepository" and inv :: "'s \<Rightarrow> bool" +
  fixes recovery :: "'s RecoveryRepository"
  assumes recover_inv: "inv s \<Longrightarrow> inv (snd (vr_RecoverBatch recovery now staleBefore n s))"
    and cleanup_inv: "inv s \<Longrightarrow> inv (snd (vr_Cleanup recovery outboxBefore executionBefore n s))"
begin

lemma collect_inv:
  assumes "rn_executionRepo r = repo" "inv (snd st)"
  shows "inv (snd (collectExecutionMetrics r st))"
  using counts_inv [OF assms(2)] assms(1)
  by (cases st; cases "er_CountByStatus repo (snd st)")
     (auto simp: collectExecutionMetrics_def split: sum.splits)

lemma reconcile_inv:
  assumes "rn_executionRepo r = repo" "rn_recoveryRepo r = recovery" "inv (snd st)"
  shows "inv (snd (reconcile r now st))"
proof -
  obtain reporter s where st: "st = (reporter, s)" by force
  let ?c = "vr_RecoverBatch recovery now
      (time_add now (duration_ago (rc_PendingStaleSeconds (rn_cfg r)) nanos_per_second)) (rc_BatchSize (rn_cfg r)) s"
  have "inv (snd ?c)" using assms(3) st by (simp add: recover_inv)
  with assms(1,2) collect_inv [OF assms(1)] show ?thesis
    by (cases ?c) (auto simp: reconcile_def st Let_def split: sum.splits)
qed

lemma cleanup_step_inv:
  assumes "rn_recoveryRepo r = recovery" "inv (snd st)"
  shows "inv (snd (cleanup r now st))"
proof -
  obtain reporter s where st: "st = (reporter, s)" by force
  let ?c = "vr_Cleanup recovery
      (time_add now (duration_ago (rc_OutboxRetentionDays (rn_cfg r)) hours_per_day_nanos))
      (time_add now (duration_ago (rc_ExecutionRetentionDays (rn_cfg r)) hours_per_day_nanos))
      (rc_BatchSize (rn_cfg r)) s"
  have "inv (snd ?c)" using assms(2) st by (simp add: cleanup_inv)
  with assms(1) show ?thesis by (cases ?c) (auto simp: cleanup_def st split: sum.splits)
qed

lemma Reconciler_Start_inv:
  assumes "rn_executionRepo r = repo" "rn_recoveryRepo r = recovery" "inv (snd st)"
  shows "inv (snd (snd (Reconciler_Start r first ticks st)))"
proof -
  have "inv (snd (reconciler_tick r t st))" if "inv (snd st)" for t st
    using that by (cases t) (simp_all add: reconcile_inv cleanup_step_inv assms(1,2))
  moreover have "inv (snd (reconcile r first st))" using assms by (simp add: reconcile_inv)
  ultimately have "inv (snd (snd (polling interval (reconciler_tick r) ticks (reconcile r first st))))" for interval
    by (intro polling_keeps [where I = "\<lambda>st. inv (snd st)"])
  with \<open>inv (snd (reconcile r first st))\<close> assms(3) show ?thesis
    by (simp add: Reconciler_Start_def Let_def split: sum.split)
qed

end

section \<open>The SQL repository meets the contract\<close>

definition world_recovery_repo :: "world RecoveryRepository" where
  "world_recovery_repo = \<lparr>
     vr_RecoverBatch = (\<lambda>now staleBefore n. call (recoveryRepo_RecoverBatch now staleBefore n)),
     vr_Cleanup = (\<lambda>ob eb n. call (recoveryRepo_Cleanup ob eb n))\<rparr>"

interpretation world_recovery: recovery_repository world_execution_repo world_ok world_recovery_repo
  by unfold_locales
     (simp_all add: world_recovery_repo_def snd_call_preserves RecoverBatch_ok Cleanup_ok)

text \<open>The gauges hold the counts that were read: every status has its own label.\<close>

lemma status_text_inject [simp]:
  "execution_status_text a = execution_status_text b \<longleftrightarrow> a = b"
  by (cases a; cases b) simp_all

lemma fold_counts:
  "rp_executions (fold (\<lambda>status. SetExecutionCount (execution_status_text status) (f status)) ss rep)
     (execution_status_text x) =
   (if x \<in> set ss then f x else rp_executions rep (execution_status_text x))"
  by (induction ss arbitrary: rep) (auto simp: SetExecutionCount_def)

lemma all_statuses: "x \<in> set execution_statuses"
  by (cases x) (simp_all add: execution_statuses_def)

lemma duration_ago_exact: "in_int64 (n * un) \<Longrightarrow> in_int64 (- n * un) \<Longrightarrow> duration_ago n un = - (n * un)"
  by (simp add: duration_ago_def wrap64_id)

end
