(* ===== verification/System.thy ===== *)
theory System
  imports Timer_Service Scheduler Reconciler
begin

text \<open>
  The whole system as a step relation on the shared database: any process may run any repository
  operation, in any order, with any session.  Reachable databases satisfy the invariant, and every
  step moves each row along its state machine: Timers along the transitions of
  \<^verbatim>\<open>state_machine.go\<close>, Executions along PENDING, RUNNING, RETRY_WAIT and the terminal states.
\<close>

section \<open>Steps\<close>

inductive sys_step :: "db \<Rightarrow> db \<Rightarrow> bool" where
  create_timer: "td_Status t = TimerStatusInactive \<Longrightarrow> td_NextFireAt t = None \<Longrightarrow>
    sys_step d (snd (timerRepo_Create t ses d))"
| delete_timer: "sys_step d (snd (timerRepo_Delete i ses d))"
| activate_timer: "sys_step d (snd (timerRepo_UpdateScheduleState i TimerStatusInactive TimerStatusActive (Some next) ses d))"
| deactivate_timer: "sys_step d (snd (timerRepo_UpdateScheduleState i TimerStatusActive TimerStatusInactive None ses d))"
| schedule_batch: "sys_step d (snd (ScheduleDueBatch now n resolve ses d))"
| claim_events: "owner \<noteq> [] \<Longrightarrow> sys_step d (snd (outboxRepo_ClaimBatch owner now n ttl ses d))"
| publish_event: "sys_step d (snd (outboxRepo_MarkPublished ev owner msg at ses d))"
| fail_event: "sys_step d (snd (outboxRepo_MarkFailed ev owner err at ses d))"
| claim_execution: "token \<noteq> [] \<Longrightarrow> sys_step d (snd (claim_update i owner token now ttl ses d))"
| heartbeat: "sys_step d (snd (executionRepo_Heartbeat i owner token until ses d))"
| complete_success: "sys_step d (snd (executionRepo_CompleteSuccess i owner token at code body ms ses d))"
| complete_failure:
    "sys_step d (snd (executionRepo_CompleteFailure e owner token at code body msg ms retryAt retryable ses d))"
| recover: "sys_step d (snd (recoveryRepo_RecoverBatch now staleBefore n ses d))"
| clean_up: "sys_step d (snd (recoveryRepo_Cleanup outboxBefore executionBefore n ses d))"

inductive reachable :: "db \<Rightarrow> bool" where
  reachable_empty: "reachable empty_db"
| reachable_step: "reachable d \<Longrightarrow> sys_step d d' \<Longrightarrow> reachable d'"

inductive_cases reachableE: "reachable d"

lemma sys_step_ok:
  assumes "sys_step d d'" "db_ok d"
  shows "db_ok d'"
  using assms
proof (induction rule: sys_step.induct)
  case (create_timer t d ses)
  then show ?case
    by (cases "timerRepo_Create t ses d")
       (auto elim!: timerRepo_Create_ok [rotated 2] simp: timer_row_ok_def timer_defaults_def)
next
  case (delete_timer d i ses)
  then show ?case by (cases "timerRepo_Delete i ses d") (auto intro: timerRepo_Delete_ok)
next
  case (activate_timer d i "next" ses)
  then show ?case
    by (cases "timerRepo_UpdateScheduleState i TimerStatusInactive TimerStatusActive (Some next) ses d")
       (auto elim!: timerRepo_UpdateScheduleState_ok)
next
  case (deactivate_timer d i ses)
  then show ?case
    by (cases "timerRepo_UpdateScheduleState i TimerStatusActive TimerStatusInactive None ses d")
       (auto elim!: timerRepo_UpdateScheduleState_ok)
next
  case (schedule_batch d now n resolve ses)
  then show ?case
    by (cases "ScheduleDueBatch now n resolve ses d") (auto intro: ScheduleDueBatch_ok)
qed (simp_all add: ClaimBatch_ok MarkPublished_ok MarkFailed_ok claim_update_ok Heartbeat_ok
      CompleteSuccess_ok CompleteFailure_ok RecoverBatch_ok Cleanup_ok)

lemma reachable_ok: "reachable d \<Longrightarrow> db_ok d"
  by (induction rule: reachable.induct) (auto simp: db_ok_empty sys_step_ok)

section \<open>How a row may change\<close>

definition execution_next :: "ExecutionStatus \<Rightarrow> ExecutionStatus \<Rightarrow> bool" where
  "execution_next s s' \<longleftrightarrow>
     (s, s') \<in> {(ExecutionStatusPending, ExecutionStatusPending),
               (ExecutionStatusPending, ExecutionStatusRunning),
               (ExecutionStatusRetryWait, ExecutionStatusRetryWait),
               (ExecutionStatusRetryWait, ExecutionStatusRunning),
               (ExecutionStatusRunning, ExecutionStatusRunning),
               (ExecutionStatusRunning, ExecutionStatusRetryWait),
               (ExecutionStatusRunning, ExecutionStatusSuccess),
               (ExecutionStatusRunning, ExecutionStatusFailed)}"

text \<open>An Execution keeps what it was created with; an attempt is counted exactly when a run
  starts.\<close>

definition execution_step :: "TimerExecution \<Rightarrow> TimerExecution \<Rightarrow> bool" where
  "execution_step e e' \<longleftrightarrow>
     te_ID e' = te_ID e \<and>
     (e' = e \<or>
      te_TimerID e' = te_TimerID e \<and> te_ScheduledAt e' = te_ScheduledAt e \<and>
      te_RequestSnapshot e' = te_RequestSnapshot e \<and> te_MaxAttempts e' = te_MaxAttempts e \<and>
      execution_next (te_Status e) (te_Status e') \<and>
      (te_Attempt e' = te_Attempt e \<and> (te_Status e' = ExecutionStatusRunning \<longrightarrow> te_Status e = ExecutionStatusRunning) \<or>
       te_Attempt e' = te_Attempt e + 1 \<and> te_Status e' = ExecutionStatusRunning))"

definition executions_step :: "db \<Rightarrow> db \<Rightarrow> bool" where
  "executions_step d d' \<longleftrightarrow>
     (\<forall>e \<in> set (executions d).
        (\<exists>e' \<in> set (executions d'). execution_step e e') \<or>
        terminal_status (te_Status e) \<and> (\<forall>e' \<in> set (executions d'). te_ID e' \<noteq> te_ID e))"

definition timer_step :: "TimerDefinition \<Rightarrow> TimerDefinition \<Rightarrow> bool" where
  "timer_step t t' \<longleftrightarrow>
     td_ID t' = td_ID t \<and>
     (t' = t \<or>
      td_App t' = td_App t \<and> td_Name t' = td_Name t \<and> td_CronExpr t' = td_CronExpr t \<and>
      td_CallbackURL t' = td_CallbackURL t \<and> td_CallbackMethod t' = td_CallbackMethod t \<and>
      td_CallbackBody t' = td_CallbackBody t \<and> td_CallbackHeaders t' = td_CallbackHeaders t \<and>
      td_MisfirePolicy t' = td_MisfirePolicy t \<and> td_MaxCatchUp t' = td_MaxCatchUp t \<and>
      td_Version t' = td_Version t + 1 \<and>
      (allowed_transition (td_Status t) (td_Status t') \<or>
       td_Status t = TimerStatusActive \<and> td_Status t' = TimerStatusActive))"

definition timers_step :: "db \<Rightarrow> db \<Rightarrow> bool" where
  "timers_step d d' \<longleftrightarrow> (\<forall>t \<in> set (timers d). \<exists>t' \<in> set (timers d'). timer_step t t')"

lemma execution_step_refl [simp]: "execution_step e e"
  by (simp add: execution_step_def)

lemma timer_step_refl [simp]: "timer_step t t"
  by (simp add: timer_step_def)

lemma executions_step_same: "set (executions d) \<subseteq> set (executions d') \<Longrightarrow> executions_step d d'"
  unfolding executions_step_def using execution_step_refl by blast

lemma timers_step_same: "set (timers d) \<subseteq> set (timers d') \<Longrightarrow> timers_step d d'"
  unfolding timers_step_def using timer_step_refl by blast

lemma executions_step_update:
  assumes "\<And>r. r \<in> set (executions d) \<Longrightarrow> P r \<Longrightarrow> execution_step r (g r)"
    and "executions d' = update_rows P g (executions d)"
  shows "executions_step d d'"
  unfolding executions_step_def assms(2)
proof (intro ballI disjI1)
  fix e assume e: "e \<in> set (executions d)"
  have "execution_step e (if P e then g e else e)" using assms(1) [OF e] by simp
  with update_rows_image [OF e, of P g] show "\<exists>e' \<in> set (update_rows P g (executions d)). execution_step e e'"
    by blast
qed

lemma timers_step_update:
  assumes "\<And>r. r \<in> set (timers d) \<Longrightarrow> P r \<Longrightarrow> timer_step r (g r)"
    and "timers d' = update_rows P g (timers d)"
  shows "timers_step d d'"
  unfolding timers_step_def assms(2)
proof
  fix t assume t: "t \<in> set (timers d)"
  have "timer_step t (if P t then g t else t)" using assms(1) [OF t] by simp
  with update_rows_image [OF t, of P g] show "\<exists>t' \<in> set (update_rows P g (timers d)). timer_step t t'"
    by blast
qed

subsection \<open>The operations\<close>

text \<open>An operation either leaves the database alone or, when its UPDATE commits, rewrites rows of
  its table.\<close>

lemma update_executions_state:
  obtains "snd (transaction (update_executions P f) ses d) = d"
  | u where "snd (transaction (update_executions P f) ses d) =
      put_executions (update_rows P (\<lambda>r. touch_execution u (f r)) (executions d)) d"
proof (cases "transaction (update_executions P f) ses d")
  case (Pair r d')
  show ?thesis
  proof (cases r)
    case (Inl e)
    with Pair that(1) transaction_error [of "update_executions P f" ses d e d'] show ?thesis by simp
  next
    case (Inr n)
    with Pair that(2) ex.update_effect [of P f ses d n d'] show ?thesis by (metis snd_conv)
  qed
qed

lemma executions_step_transaction:
  assumes "\<And>r u. P r \<Longrightarrow> execution_step r (touch_execution u (f r))"
  shows "executions_step d (snd (transaction (update_executions P f) ses d)) \<and>
    timers_step d (snd (transaction (update_executions P f) ses d))"
proof (rule update_executions_state [of P f ses d])
  assume "snd (transaction (update_executions P f) ses d) = d"
  then show ?thesis by (simp add: executions_step_same timers_step_same)
next
  fix u assume u: "snd (transaction (update_executions P f) ses d) =
      put_executions (update_rows P (\<lambda>r. touch_execution u (f r)) (executions d)) d"
  show ?thesis
    unfolding u
    by (rule conjI, rule executions_step_update [OF assms])
       (simp_all add: put_executions_def timers_step_same)
qed

lemma update_timers_state:
  obtains "snd (transaction (update_timers P f) ses d) = d"
  | u where "snd (transaction (update_timers P f) ses d) =
      put_timers (update_rows P (\<lambda>r. touch_timer u (f r)) (timers d)) d"
proof (cases "transaction (update_timers P f) ses d")
  case (Pair r d')
  show ?thesis
  proof (cases r)
    case (Inl e)
    with Pair that(1) transaction_error [of "update_timers P f" ses d e d'] show ?thesis by simp
  next
    case (Inr n)
    with Pair that(2) tm.update_effect [of P f ses d n d'] show ?thesis by (metis snd_conv)
  qed
qed

lemma timers_step_transaction:
  assumes "\<And>r u. P r \<Longrightarrow> r \<in> set (timers d) \<Longrightarrow> timer_step r (touch_timer u (f r))"
  shows "executions_step d (snd (transaction (update_timers P f) ses d)) \<and>
    timers_step d (snd (transaction (update_timers P f) ses d))"
proof (rule update_timers_state [of P f ses d])
  assume "snd (transaction (update_timers P f) ses d) = d"
  then show ?thesis by (simp add: executions_step_same timers_step_same)
next
  fix u assume u: "snd (transaction (update_timers P f) ses d) =
      put_timers (update_rows P (\<lambda>r. touch_timer u (f r)) (timers d)) d"
  show ?thesis
    unfolding u
    by (rule conjI, simp add: put_timers_def executions_step_same,
        rule timers_step_update [where P = P and g = "\<lambda>r. touch_timer u (f r)"])
       (simp_all add: assms put_timers_def)
qed

lemma timerRepo_UpdateScheduleState_state:
  "snd (timerRepo_UpdateScheduleState i from to next ses d) =
     snd (transaction (update_timers (timer_in_state i from) (set_schedule_state to next)) ses d)"
  by (simp add: timerRepo_UpdateScheduleState_def op_wrap_def split: prod.splits sum.splits)

lemma timerRepo_Delete_state:
  "snd (timerRepo_Delete i ses d) =
     snd (transaction (update_timers (visible_timer i) delete_timer_row) ses d)"
  by (simp add: timerRepo_Delete_def op_wrap_def split: prod.splits sum.splits)

lemma timer_rows_step:
  assumes "timer_row_ok r"
  shows "visible_timer i r \<Longrightarrow> timer_step r (touch_timer u (delete_timer_row r))"
    and "timer_in_state i TimerStatusInactive r \<Longrightarrow>
      timer_step r (touch_timer u (set_schedule_state TimerStatusActive (Some next) r))"
    and "timer_in_state i TimerStatusActive r \<Longrightarrow>
      timer_step r (touch_timer u (set_schedule_state TimerStatusInactive None r))"
    and "td_Status r = TimerStatusActive \<Longrightarrow> timer_step r (touch_timer u (advance_timer n r))"
  using assms
  by (auto simp: timer_step_def timer_row_ok_def visible_timer_def delete_timer_row_def touch_timer_def
      timer_in_state_def set_schedule_state_def allowed_transition_def advance_timer_def)

lemma execution_rows_step:
  shows "executable now r \<Longrightarrow> execution_step r (touch_execution u (start_attempt owner token now until r))"
    and "holds_lease i owner token r \<Longrightarrow> execution_step r (touch_execution u (renew_lease until r))"
    and "holds_lease i owner token r \<Longrightarrow> execution_step r (touch_execution u (succeed_execution at code body ms r))"
    and "holds_lease i owner token r \<Longrightarrow>
      execution_step r (touch_execution u (fail_execution b at code body msg ms retry r))"
    and "recoverable now staleBefore r \<Longrightarrow> execution_step r (touch_execution u (recover_row now r))"
  by (auto simp: execution_step_def execution_next_def executable_def holds_lease_def recoverable_def
      execution_row_defs Let_def recover_row_def give_up_def release_lease_def mark_enqueued_def)

lemma schedule_rel_steps:
  assumes "db_ok d" "schedule_rel d now nexts ks res d'"
    and "\<And>t. t \<in> set (timers d) \<Longrightarrow> td_ID t \<in> fst ` set nexts \<Longrightarrow> td_Status t = TimerStatusActive"
  shows "executions_step d d' \<and> timers_step d d'"
proof
  show "executions_step d d'"
    using assms(2) by (intro executions_step_same) (auto simp: schedule_rel_def batch_news_def)
  show "timers_step d d'"
    unfolding timers_step_def
  proof
    fix t assume t: "t \<in> set (timers d)"
    have "list_all2 (advanced nexts) (timers d) (timers d')" using assms(2) by (simp add: schedule_rel_def)
    from this t obtain t' where t': "t' \<in> set (timers d')" "advanced nexts t t'" by (rule list_all2_partner)
    have "timer_step t t'"
    proof (cases "map_of nexts (td_ID t)")
      case None
      with t'(2) show ?thesis by (simp add: advanced_def)
    next
      case (Some n)
      then have "td_ID t \<in> fst ` set nexts" by (force dest: map_of_SomeD)
      with Some t'(2) assms(3) [OF t] timer_rows_step(4) [OF db_okD(4) [OF assms(1) t]] show ?thesis
        by (auto simp: advanced_def)
    qed
    with t'(1) show "\<exists>t' \<in> set (timers d'). timer_step t t'" by blast
  qed
qed

lemma ScheduleDueBatch_steps:
  assumes "db_ok d"
  shows "executions_step d (snd (ScheduleDueBatch now n resolve ses d)) \<and>
    timers_step d (snd (ScheduleDueBatch now n resolve ses d))"
proof (cases "ScheduleDueBatch now n resolve ses d")
  case (Pair r d')
  show ?thesis
  proof (cases r)
    case (Inl e)
    with Pair ScheduleDueBatch_error have "d' = d" by blast
    with Pair show ?thesis by (simp add: executions_step_same timers_step_same)
  next
    case (Inr res)
    let ?ts = "batch_timers ses now n d"
    have active: "td_Status t = TimerStatusActive"
      if "t \<in> set (timers d)" "td_ID t \<in> fst ` set (batch_nexts resolve now ?ts)" for t
    proof -
      from that(2) obtain x where x: "x \<in> set ?ts" "td_ID t = td_ID x"
        by (auto simp: batch_nexts_def timer_next_def)
      with batch_timers_props(2) [OF assms x(1)] timer_by_id [OF assms that(1)] have "t = x" by blast
      with batch_timers_props(2) [OF assms x(1)] show ?thesis by (simp add: due_timer_def)
    qed
    from schedule_rel_steps [OF assms ScheduleDueBatch_result(2) [OF assms Pair [unfolded Inr]] active] Pair
    show ?thesis by simp
  qed
qed

lemma failed_rel_tables:
  assumes "failed_rel x owner token retry at f retryAt d res d'"
  obtains u where "executions d' = update_rows (holds_lease (te_ID x) owner token)
      (\<lambda>r. touch_execution u (f r)) (executions d)" and "timers d' = timers d"
proof -
  from assms obtain u d1 where d1: "d1 = put_executions (update_rows (holds_lease (te_ID x) owner token)
      (\<lambda>r. touch_execution u (f r)) (executions d)) d"
    and d': "d' = d1 \<or> (\<exists>o'. d' = bump_outbox (put_outbox (outbox d1 @ [o']) d1))"
    unfolding failed_rel_def Let_def by (auto split: if_splits)
  from d' have "executions d' = executions d1" "timers d' = timers d1"
    by (auto simp: put_outbox_def bump_outbox_def)
  with d1 that [of u] show ?thesis by (simp add: put_executions_def)
qed

lemma CompleteFailure_steps:
  assumes "db_ok d"
  shows "executions_step d (snd (executionRepo_CompleteFailure x owner token at code body msg ms retryAt retryable ses d)) \<and>
    timers_step d (snd (executionRepo_CompleteFailure x owner token at code body msg ms retryAt retryable ses d))"
proof (cases "executionRepo_CompleteFailure x owner token at code body msg ms retryAt retryable ses d")
  case (Pair r d')
  show ?thesis
  proof (cases r)
    case (Inl e)
    with Pair CompleteFailure_error have "d' = d" by blast
    with Pair show ?thesis by (simp add: executions_step_same timers_step_same)
  next
    case (Inr res)
    let ?retry = "retryable \<and> te_Attempt x < te_MaxAttempts x"
    from CompleteFailure_Inr [OF Pair [unfolded Inr] assms refl] obtain u where
      "executions d' = update_rows (holds_lease (te_ID x) owner token)
         (\<lambda>r. touch_execution u (fail_execution ?retry at code body msg ms retryAt r)) (executions d)"
      "timers d' = timers d"
      by (rule failed_rel_tables)
    moreover from this(1) have "executions_step d d'"
      by (rule executions_step_update [rotated]) (rule execution_rows_step(4))
    ultimately show ?thesis using Pair by (simp add: timers_step_same)
  qed
qed

lemma RecoverBatch_steps:
  assumes "db_ok d"
  shows "executions_step d (snd (recoveryRepo_RecoverBatch now staleBefore n ses d)) \<and>
    timers_step d (snd (recoveryRepo_RecoverBatch now staleBefore n ses d))"
proof (cases "recoveryRepo_RecoverBatch now staleBefore n ses d")
  case (Pair r d')
  show ?thesis
  proof (cases r)
    case (Inl e)
    with Pair RecoverBatch_error have "d' = d" by blast
    with Pair show ?thesis by (simp add: executions_step_same timers_step_same)
  next
    case (Inr res)
    let ?xs = "recovery_batch ses now staleBefore n d"
    from RecoverBatch_result [OF assms Pair [unfolded Inr]]
    have rel: "list_all2 (recovered now (te_ID ` set ?xs)) (executions d) (executions d')"
      and tm: "timers d' = timers d" by (simp_all add: recovery_done_def recovery_state_def)
    have "executions_step d d'"
      unfolding executions_step_def
    proof (intro ballI disjI1)
      fix e assume e: "e \<in> set (executions d)"
      from rel e obtain e' where e': "e' \<in> set (executions d')" "recovered now (te_ID ` set ?xs) e e'"
        by (rule list_all2_partner)
      have "execution_step e e'"
      proof (cases "te_ID e \<in> te_ID ` set ?xs")
        case True
        then obtain x where x: "x \<in> set ?xs" "te_ID e = te_ID x" by blast
        with recovery_batch_props(2) [OF assms x(1)] execution_by_id [OF assms e]
        have "recoverable now staleBefore e" by metis
        with e'(2) True execution_rows_step(5) show ?thesis by (auto simp: recovered_def)
      qed (use e'(2) in \<open>simp add: recovered_def\<close>)
      with e'(1) show "\<exists>e' \<in> set (executions d'). execution_step e e'" by blast
    qed
    with tm Pair show ?thesis by (simp add: timers_step_same)
  qed
qed

lemma Cleanup_steps:
  assumes "db_ok d"
  shows "executions_step d (snd (recoveryRepo_Cleanup outboxBefore executionBefore n ses d)) \<and>
    timers_step d (snd (recoveryRepo_Cleanup outboxBefore executionBefore n ses d))"
proof (cases "recoveryRepo_Cleanup outboxBefore executionBefore n ses d")
  case (Pair r d')
  show ?thesis
  proof (cases r)
    case (Inl e)
    with Pair Cleanup_error have "d' = d" by blast
    with Pair show ?thesis by (simp add: executions_step_same timers_step_same)
  next
    case (Inr res)
    from Cleanup_result [OF assms Pair [unfolded Inr]] obtain d1 where
      d1: "d1 = put_outbox (delete_rows (nat n) (old_event outboxBefore) (outbox d)) d"
      and d': "d' = put_executions (delete_rows (nat n) (old_execution executionBefore d1) (executions d)) d1"
      by blast
    let ?E = "delete_rows (nat n) (old_execution executionBefore d1) (executions d)"
    have E: "executions d' = ?E" "timers d' = timers d"
      by (simp_all add: d' d1 put_executions_def put_outbox_def)
    have "executions_step d d'"
      unfolding executions_step_def E
    proof
      fix e assume e: "e \<in> set (executions d)"
      show "(\<exists>e' \<in> set ?E. execution_step e e') \<or>
          terminal_status (te_Status e) \<and> (\<forall>e' \<in> set ?E. te_ID e' \<noteq> te_ID e)"
      proof (cases "e \<in> set ?E")
        case True
        then show ?thesis using execution_step_refl by blast
      next
        case False
        with e have "old_execution executionBefore d1 e" by (rule delete_rows_gone)
        then have "terminal_status (te_Status e)" by (auto simp: old_execution_def)
        moreover have "te_ID e' \<noteq> te_ID e" if "e' \<in> set ?E" for e'
        proof
          assume "te_ID e' = te_ID e"
          moreover have "e' \<in> set (executions d)" using that by (rule subsetD [OF set_delete_rows])
          ultimately have "e' = e" using execution_by_id [OF assms _ e] by blast
          with that False show False by simp
        qed
        ultimately show ?thesis by blast
      qed
    qed
    with E Pair show ?thesis by (simp add: timers_step_same)
  qed
qed

lemma outbox_op_steps:
  assumes "executions d' = executions d" "timers d' = timers d"
  shows "executions_step d d' \<and> timers_step d d'"
  using assms by (simp add: executions_step_same timers_step_same)

lemma claim_events_tables:
  "executions (snd (outboxRepo_ClaimBatch owner now n ttl ses d)) = executions d \<and>
   timers (snd (outboxRepo_ClaimBatch owner now n ttl ses d)) = timers d"
proof (cases "outboxRepo_ClaimBatch owner now n ttl ses d")
  case (Pair r d')
  then show ?thesis
    using ClaimBatch_error [of owner now n ttl ses d] ClaimBatch_result [of owner now n ttl ses d]
    by (cases r) (auto simp: claim_rel_def put_outbox_def)
qed

lemma mark_tables:
  "executions (snd (transaction (update_outbox P f) ses d)) = executions d \<and>
   timers (snd (transaction (update_outbox P f) ses d)) = timers d"
  by (rule update_state [of P f ses d]) (simp_all add: put_outbox_def)

text \<open>Every step moves every row along its state machine.\<close>

lemma sys_step_rows:
  assumes "sys_step d d'" "db_ok d"
  shows "executions_step d d' \<and> timers_step d d'"
  using assms
proof (induction rule: sys_step.induct)
  case (create_timer t d ses)
  have "set (timers d) \<subseteq> set (timers (snd (timerRepo_Create t ses d))) \<and>
      executions (snd (timerRepo_Create t ses d)) = executions d"
    by (auto simp: timerRepo_Create_def op_wrap_def transaction_def insert_stmt_def statement_def
        put_timers_def bump_timers_def Let_def split: prod.splits sum.splits option.splits if_splits)
  then show ?case by (simp add: executions_step_same timers_step_same)
next
  case (delete_timer d i ses)
  show ?case
    unfolding timerRepo_Delete_state
    by (rule timers_step_transaction) (simp add: timer_rows_step(1) db_okD(4) [OF delete_timer.prems])
next
  case (activate_timer d i "next" ses)
  show ?case
    unfolding timerRepo_UpdateScheduleState_state
    by (rule timers_step_transaction) (simp add: timer_rows_step(2) db_okD(4) [OF activate_timer.prems])
next
  case (deactivate_timer d i ses)
  show ?case
    unfolding timerRepo_UpdateScheduleState_state
    by (rule timers_step_transaction) (simp add: timer_rows_step(3) db_okD(4) [OF deactivate_timer.prems])
next
  case (publish_event d ev owner msg at ses)
  show ?case
    unfolding outboxRepo_MarkPublished_def expect_one_state op_wrap_state
    by (rule outbox_op_steps) (simp_all add: mark_tables)
next
  case (fail_event d ev owner err at ses)
  show ?case
    unfolding outboxRepo_MarkFailed_def expect_one_state op_wrap_state
    by (rule outbox_op_steps) (simp_all add: mark_tables)
next
  case (claim_execution token d i owner now ttl ses)
  show ?case
    unfolding claim_update_def op_wrap_state
    by (rule executions_step_transaction) (simp add: execution_rows_step(1))
next
  case (heartbeat d i owner token until ses)
  show ?case
    unfolding executionRepo_Heartbeat_def one_row_state op_wrap_state
    by (rule executions_step_transaction) (rule execution_rows_step(2))
next
  case (complete_success d i owner token at code body ms ses)
  show ?case
    unfolding executionRepo_CompleteSuccess_def one_row_state op_wrap_state
    by (rule executions_step_transaction) (rule execution_rows_step(3))
qed (simp_all add: ScheduleDueBatch_steps CompleteFailure_steps RecoverBatch_steps Cleanup_steps
      claim_events_tables outbox_op_steps)

text \<open>A terminal Execution is never changed: it stays as it is or is deleted.\<close>

lemma execution_step_terminal: "execution_step e e' \<Longrightarrow> terminal_status (te_Status e) \<Longrightarrow> e' = e"
  by (auto simp: execution_step_def execution_next_def)

lemma timer_step_deleted: "timer_step t t' \<Longrightarrow> td_Status t = TimerStatusDeleted \<Longrightarrow> t' = t"
  by (auto simp: timer_step_def allowed_transition_def)

end
