(* ===== verification/Sample_Data.thy ===== *)
theory Sample_Data
  imports System
begin

text \<open>
  A small concrete database: one ACTIVE Timer that is due, one Execution in each of PENDING, RUNNING
  and SUCCESS, and two events, one of them published.  The witnesses of the properties evaluate the
  operations on it.  A second database is reached step by step from the empty one: a Timer is created,
  activated and scheduled, and its Execution is claimed and completed.
\<close>

definition sample_timer :: TimerDefinition where
  "sample_timer = \<lparr>td_ID = 1, td_App = ''app'', td_Name = ''job'', td_CronExpr = ''* * * * *'',
     td_CallbackURL = ''http://example.com/cb'', td_CallbackMethod = ''POST'', td_CallbackBody = [],
     td_CallbackHeaders = [], td_Status = TimerStatusActive, td_NextFireAt = Some 100,
     td_MisfirePolicy = MisfirePolicyFireOnce, td_MaxCatchUp = 10, td_Version = 1,
     td_CreatedAt = 1, td_UpdatedAt = 1\<rparr>"

definition sample_snapshot :: CallbackSnapshot where
  "sample_snapshot = \<lparr>cs_URL = ''http://example.com/cb'', cs_Method = ''POST'', cs_Body = [],
     cs_Headers = []\<rparr>"

definition pending_sample :: TimerExecution where
  "pending_sample = \<lparr>te_ID = 1, te_TimerID = 1, te_ScheduledAt = 50,
     te_Status = ExecutionStatusPending, te_Attempt = 0, te_MaxAttempts = 3, te_NextAttemptAt = None,
     te_LeaseOwner = [], te_LeaseUntil = None, te_RunToken = [], te_LastEnqueuedAt = Some 50,
     te_RequestSnapshot = marshal_snapshot sample_snapshot, te_StartedAt = None,
     te_FinishedAt = None, te_ResponseCode = 0, te_ResponseBody = [], te_ErrorMessage = [],
     te_DurationMS = 0, te_CreatedAt = 50, te_UpdatedAt = 50\<rparr>"

definition running_sample :: TimerExecution where
  "running_sample = pending_sample\<lparr>te_ID := 2, te_ScheduledAt := 60,
     te_Status := ExecutionStatusRunning, te_Attempt := 1, te_LeaseOwner := ''w1'',
     te_LeaseUntil := Some 200, te_RunToken := ''tok'', te_StartedAt := Some 90\<rparr>"

definition success_sample :: TimerExecution where
  "success_sample = pending_sample\<lparr>te_ID := 3, te_ScheduledAt := 70,
     te_Status := ExecutionStatusSuccess, te_Attempt := 1, te_FinishedAt := Some 80,
     te_ResponseCode := 200\<rparr>"

definition ready_sample :: "int \<Rightarrow> int \<Rightarrow> OutboxEvent" where
  "ready_sample k i = \<lparr>oe_ID = k, oe_EventID = ready_event_id i,
     oe_AggregateType = OutboxAggregateTimerExecution, oe_AggregateID = i,
     oe_EventType = OutboxEventExecutionReady, oe_Payload = JNull, oe_AvailableAt = 50,
     oe_PublishedAt = None, oe_PublishedMessageID = [], oe_Attempts = 0, oe_NextAttemptAt = None,
     oe_ClaimOwner = [], oe_ClaimUntil = None, oe_LastError = [], oe_CreatedAt = 50,
     oe_UpdatedAt = 50\<rparr>"

definition published_sample :: OutboxEvent where
  "published_sample = (ready_sample 2 2)\<lparr>oe_PublishedAt := Some 55,
     oe_PublishedMessageID := ''1-0'', oe_Attempts := 1\<rparr>"

definition sample_db :: db where
  "sample_db = \<lparr>timers = [sample_timer],
     executions = [pending_sample, running_sample, success_sample],
     outbox = [ready_sample 1 1, published_sample],
     timer_seq = 2, execution_seq = 4, outbox_seq = 3\<rparr>"

lemmas sample_defs = sample_timer_def pending_sample_def running_sample_def success_sample_def
  ready_sample_def published_sample_def

lemma sample_db_rows [simp]:
  "timers sample_db = [sample_timer]"
  "executions sample_db = [pending_sample, running_sample, success_sample]"
  "outbox sample_db = [ready_sample 1 1, published_sample]"
  "timer_seq sample_db = 2" "execution_seq sample_db = 4" "outbox_seq sample_db = 3"
  by (simp_all add: sample_db_def)

lemma sample_db_ok [simp]: "db_ok sample_db"
  unfolding db_ok_defs
  by (simp add: sample_defs table_ok_def timer_row_ok_def execution_row_ok_def outbox_row_ok_def
      event_of_def schedule_key_def)

section \<open>Evaluating an operation\<close>

lemma quiet_simps [simp]:
  "ses_fault (quiet_session t) n = None" "ses_clock (quiet_session t) n = t"
  "\<not> ses_timer_locked (quiet_session t) i" "\<not> ses_execution_locked (quiet_session t) i"
  "\<not> ses_outbox_locked (quiet_session t) i"
  by (simp_all add: quiet_session_def)

lemma event_id_fits [simp]:
  "in_int64 i \<Longrightarrow> varchar 64 (ready_event_id i)"
  "in_int64 i \<Longrightarrow> in_int64 a \<Longrightarrow> varchar 64 (retry_event_id i a)"
  "in_int64 i \<Longrightarrow> in_int64 a \<Longrightarrow> varchar 64 (recovery_event_id i a)"
  by (auto intro: varcharI event_id_lengths)

lemmas run_defs = transaction_def op_wrap_def tx_bind_def tx_wrap_def tx_return_def statement_def
  insert_stmt_def update_stmt_def select_stmt_def insert_ignore_stmt_def update_rows_def
  changed_rows_def map_err_def Let_def put_timers_def bump_timers_def put_executions_def
  bump_executions_def put_outbox_def bump_outbox_def create_timer_row_def create_execution_row_def
  create_outbox_row_def touch_timer_def touch_execution_def touch_outbox_def varcharI
  text_column_def timer_fits_def execution_fits_def outbox_fits_def same_schedule_def
  same_event_def in_int64_def int64_min_def int64_max_def list_take_def empty_db_def

lemmas event_defs = ready_event_def new_event_def newExecutionOutboxEvent_def retry_event_def
  recovery_event_def OutboxAggregateTimerExecution_def OutboxEventExecutionReady_def
  OutboxEventExecutionRetry_def OutboxEventExecutionRecovery_def

section \<open>A reachable history\<close>

definition new_sample :: TimerDefinition where
  "new_sample = sample_timer\<lparr>td_ID := 0, td_Status := TimerStatusInactive, td_NextFireAt := None\<rparr>"

definition stage_timer :: "TimerStatus \<Rightarrow> time option \<Rightarrow> int \<Rightarrow> time \<Rightarrow> TimerDefinition" where
  "stage_timer st at v u =
     sample_timer\<lparr>td_Status := st, td_NextFireAt := at, td_Version := v, td_CreatedAt := 5,
       td_UpdatedAt := u\<rparr>"

definition stage1 :: db where
  "stage1 = empty_db\<lparr>timers := [stage_timer TimerStatusInactive None 1 5], timer_seq := 2\<rparr>"

definition stage2 :: db where
  "stage2 = stage1\<lparr>timers := [stage_timer TimerStatusActive (Some 10) 2 6]\<rparr>"

definition stage_execution :: TimerExecution where
  "stage_execution =
     create_execution_row 1 15 (pending_execution 1 15 (marshal_snapshot sample_snapshot) 10)"

definition stage3 :: db where
  "stage3 = stage2\<lparr>timers := [stage_timer TimerStatusActive (Some 100) 3 15],
     executions := [stage_execution], execution_seq := 2,
     outbox := [create_outbox_row 1 15 (ready_event 1 15)], outbox_seq := 2\<rparr>"

definition stage4 :: db where
  "stage4 = stage3\<lparr>executions :=
     [touch_execution 20 (start_attempt ''w'' ''t'' 20 30 stage_execution)]\<rparr>"

definition stage5 :: db where
  "stage5 = stage4\<lparr>executions := [touch_execution 25 (succeed_execution 25 200 [] 1
     (start_attempt ''w'' ''t'' 20 30 stage_execution))]\<rparr>"

lemmas stage_defs = stage_timer_def sample_timer_def sample_snapshot_def new_sample_def
  stage_execution_def stage1_def stage2_def stage3_def stage4_def stage5_def

lemma stage1_run:
  "timerRepo_Create new_sample (quiet_session 5) empty_db =
     (Inr (stage_timer TimerStatusInactive None 1 5), stage1)"
  by (simp add: run_defs timerRepo_Create_def timer_defaults_def stage_defs)

lemma stage2_run:
  "timerRepo_UpdateScheduleState 1 TimerStatusInactive TimerStatusActive (Some 10)
     (quiet_session 6) stage1 = (Inr (), stage2)"
  by (simp add: timerRepo_UpdateScheduleState_def run_defs stage_defs timer_in_state_def
      set_schedule_state_def)

lemma stage3_run:
  "ScheduleDueBatch 15 10 (\<lambda>_ _. Inr ([10], 100)) (quiet_session 15) stage2 =
     (Inr \<lparr>sb_Timers = 1, sb_Executions = 1, sb_Duplicates = 0\<rparr>, stage3)"
  by (simp add: ScheduleDueBatch_def schedule_timer_def create_occurrence_def run_defs stage_defs
      due_timer_def by_next_fire_def IsZero_def zero_time_def buildRequestSnapshot_def
      same_version_def advance_timer_def pending_execution_def event_defs no_batch_def)

lemma stage4_run:
  "claim_update 1 ''w'' ''t'' 20 10 (quiet_session 20) stage3 = (Inr 1, stage4)"
  by (simp add: claim_update_def run_defs stage_defs start_attempt_def executable_def
      pending_execution_def time_add_def wrap64_def)

lemma stage5_run:
  "executionRepo_CompleteSuccess 1 ''w'' ''t'' 25 200 [] 1 (quiet_session 25) stage4 =
     (Inr True, stage5)"
  by (simp add: executionRepo_CompleteSuccess_def one_row_def run_defs stage_defs start_attempt_def
      succeed_execution_def holds_lease_def pending_execution_def)

lemma stages_reachable:
  "reachable stage1" "reachable stage2" "reachable stage3" "reachable stage4" "reachable stage5"
proof -
  note step = reachable_step
  have "td_Status new_sample = TimerStatusInactive" "td_NextFireAt new_sample = None"
    by (simp_all add: new_sample_def)
  from step [OF reachable_empty create_timer [OF this, of empty_db "quiet_session 5"]]
  show r1: "reachable stage1" by (simp add: stage1_run)
  show r2: "reachable stage2"
    using step [OF r1 activate_timer [of stage1 1 10 "quiet_session 6"]] by (simp add: stage2_run)
  show r3: "reachable stage3"
    using step [OF r2 schedule_batch [of stage2 15 10 "\<lambda>_ _. Inr ([10], 100)" "quiet_session 15"]]
    by (simp add: stage3_run)
  show r4: "reachable stage4"
    using step [OF r3 claim_execution [of "''t''" stage3 1 "''w''" 20 10 "quiet_session 20"]]
    by (simp add: stage4_run)
  show "reachable stage5"
    using step [OF r4 complete_success [of stage4 1 "''w''" "''t''" 25 200 "[]" 1 "quiet_session 25"]]
    by (simp add: stage5_run)
qed

end
