(* ===== verification/Schedule_Properties.thy ===== *)
theory Schedule_Properties
  imports Sample_Data Config
begin

text \<open>
  What a Scheduler round promises: which occurrences a due Timer gets (the misfire policies of
  \<^verbatim>\<open>service/scheduler.go\<close>), what \<^verbatim>\<open>ScheduleDueBatch\<close> of
  \<^verbatim>\<open>repository/scheduler_repo.go\<close> writes for them, and that an operation that reports an
  error writes nothing.
\<close>

section \<open>A batch on the reachable sample\<close>

lemma batch_result:
  assumes "db_ok d" "ScheduleDueBatch now n resolve ses d = (Inr res, d')"
  obtains news evs where
    "batch_news d now (batch_keys resolve now (batch_timers ses now n d)) res d' news evs"
    and "db_ok d'" and "sb_Timers res = int (length (batch_timers ses now n d))"
    and "list_all2 (advanced (batch_nexts resolve now (batch_timers ses now n d))) (timers d) (timers d')"
  using ScheduleDueBatch_result(2) [OF assms] unfolding schedule_rel_def batch_nexts_def by auto

lemma batch_key:
  assumes "t \<in> set ts" "resolve t now = Inr (occs, next)" "at \<in> set occs"
  shows "(td_ID t, at) \<in> set (batch_keys resolve now ts)"
  using assms by (force simp: batch_keys_def timer_keys_def resolved_def)

definition sample_scheduler :: SchedulerConfig where
  "sample_scheduler = \<lparr>sc_PollIntervalMS = 1000, sc_BatchSize = 100, sc_MisfireGraceSeconds = 30,
     sc_DefaultMaxCatchUp = 10\<rparr>"

definition sample_resolve :: resolver where
  "sample_resolve = resolveTimer (periodic_cron 30) sample_scheduler"

lemmas resolve_defs = resolveTimer_def NextTriggerTime_def CronParser_Parse_def periodic_cron_def
  IsZero_def zero_time_def sample_scheduler_def seconds_def nanos_per_second_def time_sub_def wrap64_def
  int64_max_def int64_min_def

abbreviation due_stage :: TimerDefinition where
  "due_stage \<equiv> stage_timer TimerStatusActive (Some 10) 2 6"

lemma sample_resolve_run: "sample_resolve due_stage 15 = Inr ([10], 30)"
  by (simp add: sample_resolve_def resolve_defs stage_timer_def sample_timer_def)

lemma stage2_rows: "timers stage2 = [due_stage]" "execution_seq stage2 = 1"
  by (simp_all add: stage2_def stage1_def empty_db_def)

lemma sample_batch: "batch_timers (quiet_session 15) 15 10 stage2 = [due_stage]"
  by (simp add: batch_timers_def stage2_def due_timer_def by_next_fire_def list_take_def stage_timer_def)

definition scheduled_stage :: db where
  "scheduled_stage = stage3\<lparr>timers := [stage_timer TimerStatusActive (Some 30) 3 15]\<rparr>"

definition one_scheduled :: ScheduleBatchResult where
  "one_scheduled = \<lparr>sb_Timers = 1, sb_Executions = 1, sb_Duplicates = 0\<rparr>"

lemma scheduled_stage_run:
  "ScheduleDueBatch 15 10 sample_resolve (quiet_session 15) stage2 = (Inr one_scheduled, scheduled_stage)"
  by (simp add: ScheduleDueBatch_def schedule_timer_def create_occurrence_def run_defs stage_defs
      due_timer_def by_next_fire_def IsZero_def zero_time_def buildRequestSnapshot_def one_scheduled_def
      same_version_def advance_timer_def pending_execution_def event_defs no_batch_def scheduled_stage_def
      sample_resolve_run [unfolded stage_defs, simplified])

lemma stage_consistent: "db_ok stage1" "db_ok stage2" "db_ok stage3" "db_ok stage4" "db_ok stage5"
  using stages_reachable by (blast intro: reachable_ok)+

section \<open>Scheduling\<close>

lemma batch_occurrences:
  assumes "db_ok d" "ScheduleDueBatch now n resolve ses d = (Inr res, d')"
    and "t \<in> set (batch_timers ses now n d)" "resolve t now = Inr (occs, next)" "at \<in> set occs"
  shows "\<exists>e \<in> set (executions d'). schedule_key e = (td_ID t, at)"
proof -
  obtain news evs where
    b: "batch_news d now (batch_keys resolve now (batch_timers ses now n d)) res d' news evs"
    by (rule batch_result [OF assms(1,2)])
  have "(td_ID t, at) \<in> schedule_key ` set (executions d) \<union>
      set (new_keys (map schedule_key (executions d)) (batch_keys resolve now (batch_timers ses now n d)))"
    using batch_key [of t "batch_timers ses now n d" resolve now occs "next" at] assms(3-5)
    by (simp add: set_new_keys)
  also have "\<dots> = schedule_key ` set (executions d')"
    using b unfolding batch_news_def by (metis image_Un set_append set_map)
  finally show ?thesis by (metis imageE)
qed

lemma one_execution:
  assumes "db_ok d" "\<exists>e \<in> set (executions d). schedule_key e = (i, at)"
  shows "\<exists>!e. e \<in> set (executions d) \<and> te_TimerID e = i \<and> te_ScheduledAt e = at"
proof -
  have "inj_on schedule_key (set (executions d))" using assms(1) by (simp add: db_ok_defs distinct_map)
  with assms(2) show ?thesis by (auto simp: schedule_key_def inj_on_def)
qed

text \<open>C2: Exactly one Execution per occurrence.  After a Scheduler batch that succeeds, every
  occurrence that the misfire policy resolved for a Timer of the batch has exactly one Execution,
  whether the batch inserted it or an earlier round had, and every Execution that was there is still
  there, unchanged.\<close>

theorem every_occurrence_scheduled_once:
  assumes "db_ok d" "ScheduleDueBatch now n resolve ses d = (Inr res, d')"
    and "t \<in> set (batch_timers ses now n d)" "resolve t now = Inr (occs, next)" "at \<in> set occs"
  shows "(\<exists>!e. e \<in> set (executions d') \<and> te_TimerID e = td_ID t \<and> te_ScheduledAt e = at) \<and>
    set (executions d) \<subseteq> set (executions d')"
proof -
  from ScheduleDueBatch_ok [OF assms(1,2)] have ok: "db_ok d'" .
  obtain news evs where "batch_news d now (batch_keys resolve now (batch_timers ses now n d)) res d' news evs"
    by (rule batch_result [OF assms(1,2)])
  then have "set (executions d) \<subseteq> set (executions d')" by (simp add: batch_news_def)
  with one_execution [OF ok batch_occurrences [OF assms]] show ?thesis by blast
qed

theorem every_occurrence_scheduled_once_witness:
  "(\<exists>!e. e \<in> set (executions scheduled_stage) \<and> te_TimerID e = 1 \<and> te_ScheduledAt e = 10) \<and>
    set (executions stage2) \<subseteq> set (executions scheduled_stage)"
  using every_occurrence_scheduled_once [OF stage_consistent(2) scheduled_stage_run, of due_stage "[10]" 30 10]
  by (simp add: sample_batch sample_resolve_run) (simp add: stage_timer_def sample_timer_def)

text \<open>The Executions of a batch and their events.\<close>

lemma batch_announces:
  assumes "db_ok d" "ScheduleDueBatch now n resolve ses d = (Inr res, d')"
    and "e \<in> set (executions d')" "e \<notin> set (executions d)"
  shows "te_Status e = ExecutionStatusPending \<and> te_Attempt e = 0 \<and> te_MaxAttempts e = 3 \<and>
    (\<exists>t \<in> set (timers d). te_TimerID e = td_ID t \<and> buildRequestSnapshot t = Inr (te_RequestSnapshot e)) \<and>
    (\<exists>!o'. o' \<in> set (outbox d') \<and> oe_AggregateID o' = te_ID e) \<and>
    (\<exists>o' \<in> set (outbox d') - set (outbox d). oe_AggregateID o' = te_ID e \<and>
       oe_EventID o' = ready_event_id (te_ID e) \<and> oe_EventType o' = OutboxEventExecutionReady \<and>
       claimable now o')"
proof -
  obtain news evs where
    b: "batch_news d now (batch_keys resolve now (batch_timers ses now n d)) res d' news evs" and ok: "db_ok d'"
    by (rule batch_result [OF assms(1,2)])
  have ex: "executions d' = executions d @ news" and ob: "outbox d' = outbox d @ evs"
    and evs: "list_all2 (ready_for now) news evs" using b by (auto simp: batch_news_def)
  from assms(3,4) ex have e: "e \<in> set news" by simp
  with b obtain i u t snapshot where t: "t \<in> set (timers d)" "buildRequestSnapshot t = Inr snapshot"
    "e = create_execution_row i u (pending_execution (td_ID t) now snapshot (te_ScheduledAt e))"
    unfolding batch_news_def fresh_execution_def by metis
  obtain o' where o': "o' \<in> set evs" "ready_for now e o'" by (rule list_all2_partner [OF evs e])
  have "x = o'" if x: "x \<in> set (outbox d')" "oe_AggregateID x = te_ID e" for x
  proof -
    have dist: "distinct (map te_ID (executions d @ news))" using db_ok_distinct(2) [OF ok] ex by simp
    have "x \<notin> set (outbox d)"
    proof
      assume "x \<in> set (outbox d)"
      with assms(1) obtain e0 where "e0 \<in> set (executions d)" "event_of e0 x" by (auto simp: db_ok_defs)
      with x(2) e dist show False by (force simp: event_of_def)
    qed
    with x(1) ob have "x \<in> set evs" by simp
    with evs have "list_all2 (\<lambda>o' e. ready_for now e o') evs news" by (simp add: list_all2_conv_all_nth)
    from this \<open>x \<in> set evs\<close> obtain e1 where e1: "e1 \<in> set news" "ready_for now e1 x"
      by (rule list_all2_partner)
    then have "te_ID e1 = te_ID e" using x(2)
      by (auto simp: ready_for_def create_outbox_row_def ready_event_def new_event_def)
    with dist e e1(1) have "e1 = e" by (auto simp: distinct_map inj_on_def)
    with e1(2) o'(2) have "oe_EventID x = oe_EventID o'"
      by (auto simp: ready_for_def create_outbox_row_def ready_event_def new_event_def)
    moreover have "inj_on oe_EventID (set (outbox d'))"
      using db_ok_distinct(4) [OF ok] by (simp add: distinct_map)
    ultimately show ?thesis using x(1) o'(1) ob by (auto simp: inj_on_def)
  qed
  moreover have row: "oe_AggregateID o' = te_ID e" "oe_EventID o' = ready_event_id (te_ID e)"
    "oe_EventType o' = OutboxEventExecutionReady" "claimable now o'"
    using o'(2) by (auto simp: ready_for_def create_outbox_row_def event_defs claimable_def)
  moreover have "o' \<notin> set (outbox d)"
    using db_ok_distinct(3) [OF ok] o'(1) ob by (auto simp: distinct_map)
  moreover have "te_Status e = ExecutionStatusPending \<and> te_Attempt e = 0 \<and> te_MaxAttempts e = 3 \<and>
      te_TimerID e = td_ID t \<and> te_RequestSnapshot e = snapshot"
    by (subst t(3), subst (2) t(3), subst (3) t(3), subst (4) t(3), subst (5) t(3))
      (simp add: create_execution_row_def pending_execution_def)
  ultimately show ?thesis using t(1,2) o'(1) ob by auto
qed

text \<open>C13: Every Execution that a batch creates is announced.  It starts PENDING at attempt 0 with
  3 attempts allowed and the snapshot of a Timer's callback, and the batch added exactly one event for
  it, of type READY, with the identifier derived from the Execution, claimable at once.\<close>

theorem new_executions_announced:
  assumes "db_ok d" "ScheduleDueBatch now n resolve ses d = (Inr res, d')"
    and "e \<in> set (executions d')" "e \<notin> set (executions d)"
  shows "te_Status e = ExecutionStatusPending \<and> te_Attempt e = 0 \<and> te_MaxAttempts e = 3 \<and>
    (\<exists>t \<in> set (timers d). te_TimerID e = td_ID t \<and> buildRequestSnapshot t = Inr (te_RequestSnapshot e)) \<and>
    (\<exists>!o'. o' \<in> set (outbox d') \<and> oe_AggregateID o' = te_ID e) \<and>
    (\<exists>o' \<in> set (outbox d') - set (outbox d). oe_AggregateID o' = te_ID e \<and>
       oe_EventID o' = ready_event_id (te_ID e) \<and> oe_EventType o' = OutboxEventExecutionReady \<and>
       claimable now o')"
  by (rule batch_announces [OF assms])

theorem new_executions_announced_witness:
  "stage_execution \<in> set (executions scheduled_stage) \<and>
    te_Status stage_execution = ExecutionStatusPending \<and>
    (\<exists>o' \<in> set (outbox scheduled_stage) - set (outbox stage2).
       oe_EventID o' = ready_event_id 1 \<and> claimable 15 o')"
proof -
  have e: "stage_execution \<in> set (executions scheduled_stage)" "stage_execution \<notin> set (executions stage2)"
    "te_ID stage_execution = 1"
    by (simp_all add: scheduled_stage_def stage3_def stage2_def stage1_def empty_db_def
        stage_execution_def create_execution_row_def)
  from new_executions_announced [OF stage_consistent(2) scheduled_stage_run e(1,2)] e show ?thesis by auto
qed

text \<open>What a batch reports is what it did.  It takes the due Timers that no other transaction has
  locked, earliest next trigger time first, at most the batch size; the Executions it reports are the
  rows it added, one per event added; and Executions and duplicates together are the occurrences that
  were resolved.\<close>

lemma batch_counts:
  assumes "db_ok d" "ScheduleDueBatch now n resolve ses d = (Inr res, d')"
  shows "sb_Timers res = int (length (batch_timers ses now n d)) \<and>
    sb_Executions res = int (length (executions d')) - int (length (executions d)) \<and>
    sb_Executions res = int (length (outbox d')) - int (length (outbox d)) \<and>
    sb_Executions res + sb_Duplicates res =
      (\<Sum>t\<leftarrow>batch_timers ses now n d. int (length (fst (resolved resolve now t)))) \<and>
    (n < 0 \<or> sb_Timers res \<le> n) \<and> 0 \<le> sb_Duplicates res"
proof -
  let ?b = "batch_timers ses now n d"
  obtain news evs where b: "batch_news d now (batch_keys resolve now ?b) res d' news evs"
    and timers: "sb_Timers res = int (length ?b)"
    by (rule batch_result [OF assms])
  have keys: "int (length (batch_keys resolve now ts)) = (\<Sum>t\<leftarrow>ts. int (length (fst (resolved resolve now t))))"
    for ts by (induction ts) (simp_all add: batch_keys_def timer_keys_def)
  have "int (length news) \<le> int (length (batch_keys resolve now ?b))"
    using b length_new_keys unfolding batch_news_def by (metis length_map of_nat_le_iff)
  moreover have "n < 0 \<or> int (length ?b) \<le> n" by (auto simp: batch_timers_def list_take_def)
  ultimately show ?thesis
    using b timers list_all2_lengthD [of "ready_for now" news evs] by (auto simp: batch_news_def keys)
qed

text \<open>What the batch makes of a Timer: its own Timers are advanced to the resolved time, the others stay.\<close>

lemma advanced_member:
  assumes "db_ok d" "t \<in> set (batch_timers ses now n d)" "resolve t now = Inr (occs, new)"
    and "advanced (batch_nexts resolve now (batch_timers ses now n d)) t t'"
  shows "\<exists>u. t' = touch_timer u (advance_timer new t)"
proof -
  let ?nexts = "batch_nexts resolve now (batch_timers ses now n d)"
  have "map_of ?nexts (td_ID t) = Some new"
  proof (rule map_of_is_SomeI)
    show "distinct (map fst ?nexts)"
      using batch_timers_props(1) [OF assms(1)] by (simp add: batch_nexts_def timer_next_def comp_def)
    show "(td_ID t, new) \<in> set ?nexts"
      using assms(2,3) by (force simp: batch_nexts_def timer_next_def resolved_def)
  qed
  with assms(4) show ?thesis by (simp add: advanced_def)
qed

lemma advanced_other:
  assumes "db_ok d" "t \<in> set (timers d)" "t \<notin> set (batch_timers ses now n d)"
    and "advanced (batch_nexts resolve now (batch_timers ses now n d)) t t'"
  shows "t' = t"
proof -
  have "td_ID t \<notin> td_ID ` set (batch_timers ses now n d)"
    using timer_by_id [OF assms(1) _ assms(2)] batch_timers_props(2) [OF assms(1)] assms(3) by (metis imageE)
  then have "td_ID t \<notin> fst ` set (batch_nexts resolve now (batch_timers ses now n d))"
    by (auto simp: batch_nexts_def timer_next_def)
  with assms(4) show ?thesis by (simp add: advanced_pending)
qed

text \<open>C23: A Timer of the batch moves on, and only such a Timer changes.  With a schedule library whose
  next trigger time is later than the time it is asked about, and a normalised configuration, a batch
  leaves every Timer it took ACTIVE with a strictly later next trigger time and its version raised by
  one, and every other Timer as it was.\<close>

theorem batch_advances_timers:
  assumes "cron_lib_ok lib" "scheduler_config_ok cfg" "db_ok d"
    and "ScheduleDueBatch now n (resolveTimer lib cfg) ses d = (Inr res, d')"
  shows "list_all2 (\<lambda>t t'.
      if t \<in> set (batch_timers ses now n d)
      then td_ID t' = td_ID t \<and> td_Status t' = TimerStatusActive \<and> td_Version t' = td_Version t + 1 \<and>
        (\<exists>old new. td_NextFireAt t = Some old \<and> td_NextFireAt t' = Some new \<and> old < new)
      else t' = t) (timers d) (timers d')"
proof -
  let ?b = "batch_timers ses now n d" and ?r = "resolveTimer lib cfg"
  have "list_all2 (advanced (batch_nexts ?r now ?b)) (timers d) (timers d')"
    by (rule batch_result [OF assms(3,4)])
  then show ?thesis
  proof (rule list.rel_mono_strong)
    fix t t' assume t: "t \<in> set (timers d)" and a: "advanced (batch_nexts ?r now ?b) t t'"
    show "if t \<in> set ?b
        then td_ID t' = td_ID t \<and> td_Status t' = TimerStatusActive \<and> td_Version t' = td_Version t + 1 \<and>
          (\<exists>old new. td_NextFireAt t = Some old \<and> td_NextFireAt t' = Some new \<and> old < new)
        else t' = t"
    proof (cases "t \<in> set ?b")
      case True
      from batch_timers_props(2) [OF assms(3) True] obtain old where
        old: "td_Status t = TimerStatusActive" "td_NextFireAt t = Some old" "old \<le> now"
        by (auto simp: due_timer_def split: option.splits)
      from ScheduleDueBatch_result(1) [OF assms(3,4)] True obtain occs new where
        r: "?r t now = Inr (occs, new)" by (auto simp: timer_done_def)
      from resolveTimer_progress [OF assms(1,2) old(2,3) r] have "old < new" by simp
      with advanced_member [of d t, OF assms(3) True r a] True old show ?thesis
        by (auto simp: touch_timer_def advance_timer_def)
    qed (use advanced_other [OF assms(3) t _ a] in simp)
  qed
qed

lemma sample_scheduler_ok: "scheduler_config_ok sample_scheduler"
  by (simp add: scheduler_config_ok_def sample_scheduler_def)

theorem batch_advances_timers_witness:
  "list_all2 (\<lambda>t t'. td_ID t' = td_ID t \<and> td_Version t' = td_Version t + 1) (timers stage2)
     (timers scheduled_stage)"
  by (rule list.rel_mono_strong [OF batch_advances_timers [OF periodic_cron_ok [of 30, simplified]
        sample_scheduler_ok stage_consistent(2) scheduled_stage_run [unfolded sample_resolve_def]]])
    (simp add: sample_batch stage2_rows)

text \<open>C24: A batch that meets no fault succeeds.  When no statement fails, every Timer of the batch has a
  valid cron expression and valid stored headers and fits its columns, and the key counter has room for
  the occurrences, \<^verbatim>\<open>ScheduleDueBatch\<close> returns a result.\<close>

theorem batch_without_fault_succeeds:
  assumes "faultless ses" "db_ok d"
    and "\<And>t. t \<in> set (batch_timers ses now n d) \<Longrightarrow> timer_done resolve now t \<and> timer_fits t"
    and "execution_seq d + int (length (batch_keys resolve now (batch_timers ses now n d))) \<le> int64_max"
  shows "\<exists>res d'. ScheduleDueBatch now n resolve ses d = (Inr res, d')"
  using ScheduleDueBatch_succeeds [OF assms] by metis

theorem batch_without_fault_succeeds_witness:
  "\<exists>res d'. ScheduleDueBatch 15 10 sample_resolve (quiet_session 15) stage2 = (Inr res, d')"
proof (rule batch_without_fault_succeeds [OF _ stage_consistent(2)])
  have "buildRequestSnapshot due_stage = Inr (marshal_snapshot sample_snapshot)"
    by (simp add: buildRequestSnapshot_def stage_timer_def sample_timer_def sample_snapshot_def)
  then show "timer_done sample_resolve 15 t \<and> timer_fits t"
    if "t \<in> set (batch_timers (quiet_session 15) 15 10 stage2)" for t
    using that sample_resolve_run
    by (auto simp: sample_batch timer_done_def IsZero_def zero_time_def)
      (simp add: timer_fits_def varcharI text_column_def stage_timer_def sample_timer_def)
qed (simp_all add: faultless_def sample_batch batch_keys_def timer_keys_def resolved_def
    sample_resolve_run stage2_rows int64_max_def)

section \<open>Which occurrences a Timer gets\<close>

text \<open>C17: CATCH_UP runs the missed occurrences, one by one.  The occurrences resolved for a CATCH_UP
  Timer are its scheduled time and the trigger times that follow it, in order and with none left out;
  none is in the future, there are at most the Timer's limit of them, and only that limit stops the
  replay early: otherwise the next trigger time is later than now.\<close>

theorem catch_up_runs_missed_fires:
  assumes "td_MisfirePolicy t = MisfirePolicyCatchUp" "td_NextFireAt t = Some current"
    and "resolveTimer lib cfg t now = Inr (occs, next)"
  shows "(\<forall>i < length occs. nth_fire (NextTriggerTime lib (td_CronExpr t)) i current = Inr (occs ! i)) \<and>
    nth_fire (NextTriggerTime lib (td_CronExpr t)) (length occs) current = Inr next \<and>
    (\<forall>at \<in> set occs. at \<le> now) \<and> int (length occs) \<le> catch_up_limit cfg t \<and>
    (now < next \<or> int (length occs) = catch_up_limit cfg t)"
  using resolveTimer_catch_up [OF assms] by (simp add: fires_def)

definition catch_up_sample :: TimerDefinition where
  "catch_up_sample = sample_timer\<lparr>td_MisfirePolicy := MisfirePolicyCatchUp, td_MaxCatchUp := 3\<rparr>"

lemma catch_up_run: "sample_resolve catch_up_sample 145 = Inr ([100, 120], 150)"
  by (simp add: sample_resolve_def resolve_defs catch_up_sample_def sample_timer_def catch_up.simps)

lemma catch_up_capped: "sample_resolve catch_up_sample 1000 = Inr ([100, 120, 150], 180)"
  by (simp add: sample_resolve_def resolve_defs catch_up_sample_def sample_timer_def catch_up.simps)

theorem catch_up_runs_missed_fires_witness:
  "nth_fire (NextTriggerTime (periodic_cron 30) ''* * * * *'') 2 100 = Inr 150 \<and>
   nth_fire (NextTriggerTime (periodic_cron 30) ''* * * * *'') 3 100 = Inr 180"
  using catch_up_runs_missed_fires [OF _ _ catch_up_run [unfolded sample_resolve_def]]
    catch_up_runs_missed_fires [OF _ _ catch_up_capped [unfolded sample_resolve_def]]
  by (simp add: catch_up_sample_def sample_timer_def numeral_eq_Suc)

text \<open>C29: The other misfire policies.  A Timer that is late by at most the grace period runs once, at
  its scheduled time, and its next trigger time follows that time.  A Timer that is later runs once
  under FIRE_ONCE (or no policy) and not at all under SKIP, and its next trigger time follows now.\<close>

theorem misfire_policies:
  assumes "td_NextFireAt t = Some current" "td_MisfirePolicy t \<noteq> MisfirePolicyCatchUp"
    and "resolveTimer lib cfg t now = Inr (occs, next)"
  shows "if time_sub now current \<le> seconds (sc_MisfireGraceSeconds cfg)
    then occs = [current] \<and> NextTriggerTime lib (td_CronExpr t) current = Inr next
    else occs = (if td_MisfirePolicy t = MisfirePolicySkip then [] else [current]) \<and>
      NextTriggerTime lib (td_CronExpr t) now = Inr next"
  using assms
  by (auto simp: resolveTimer_def Let_def split: sum.splits if_splits MisfirePolicy.splits)

definition late_cron :: "unit cron_lib" where
  "late_cron = periodic_cron (40 * 10 ^ 9)"

definition skip_sample :: TimerDefinition where
  "skip_sample = sample_timer\<lparr>td_MisfirePolicy := MisfirePolicySkip\<rparr>"

lemma skip_run: "resolveTimer late_cron sample_scheduler skip_sample (50 * 10 ^ 9) = Inr ([], 80 * 10 ^ 9)"
  by (simp add: late_cron_def resolve_defs skip_sample_def sample_timer_def)

theorem misfire_policies_witness:
  "NextTriggerTime late_cron ''* * * * *'' (50 * 10 ^ 9) = Inr (80 * 10 ^ 9)"
  using misfire_policies [OF _ _ skip_run]
  by (simp add: skip_sample_def sample_timer_def sample_scheduler_def seconds_def nanos_per_second_def
      time_sub_def wrap64_def int64_max_def int64_min_def)

text \<open>Occurrences are due and in order.  Whatever the policy, the occurrences of a due Timer and the
  next trigger time are strictly increasing, no occurrence is before the scheduled time or after now, and
  the next trigger time is later than the scheduled one.\<close>

lemma occurrences_ordered_and_due:
  assumes "cron_lib_ok lib" "scheduler_config_ok cfg" "td_NextFireAt t = Some current" "current \<le> now"
    and "resolveTimer lib cfg t now = Inr (occs, next)"
  shows "sorted_wrt (<) (occs @ [next]) \<and> (\<forall>at \<in> set occs. current \<le> at \<and> at \<le> now) \<and> current < next"
  by (rule resolveTimer_progress [OF assms])

section \<open>Errors write nothing\<close>

lemma result_or_same: "(\<And>e d'. p = (Inl e, d') \<Longrightarrow> d' = d) \<Longrightarrow> (\<exists>a. fst p = Inr a) \<or> snd p = d"
  by (cases p; cases "fst p") auto

text \<open>An operation that reports an error has changed nothing.  A Scheduler batch, a claim of
  events, a failed callback's record, a recovery batch and a cleanup either return a result or leave the
  database exactly as they found it, wherever in the transaction the fault struck.\<close>

lemma failed_operations_change_nothing:
  "((\<exists>res. fst (ScheduleDueBatch now n resolve ses d) = Inr res) \<or>
      snd (ScheduleDueBatch now n resolve ses d) = d) \<and>
   ((\<exists>evs. fst (outboxRepo_ClaimBatch owner now n ttl ses d) = Inr evs) \<or>
      snd (outboxRepo_ClaimBatch owner now n ttl ses d) = d) \<and>
   ((\<exists>b. fst (executionRepo_CompleteFailure x owner token at code body msg ms retryAt retryable ses d) = Inr b) \<or>
      snd (executionRepo_CompleteFailure x owner token at code body msg ms retryAt retryable ses d) = d) \<and>
   ((\<exists>res. fst (recoveryRepo_RecoverBatch now staleBefore n ses d) = Inr res) \<or>
      snd (recoveryRepo_RecoverBatch now staleBefore n ses d) = d) \<and>
   ((\<exists>res. fst (recoveryRepo_Cleanup outboxBefore executionBefore n ses d) = Inr res) \<or>
      snd (recoveryRepo_Cleanup outboxBefore executionBefore n ses d) = d)"
  by (intro conjI result_or_same)
    (erule ScheduleDueBatch_error ClaimBatch_error CompleteFailure_error RecoverBatch_error Cleanup_error)+

end
