(* ===== verification/Storage_Properties.thy ===== *)
theory Storage_Properties
  imports Schedule_Properties
begin

text \<open>
  What the repositories of \<^verbatim>\<open>internal/repository/\<close> promise to concurrent instances: claims
  of events and of Executions are exclusive, results are recorded only by the run that holds the lease,
  recovery gives every stuck Execution an event or an end, and cleanup removes only history.
\<close>

section \<open>Operations on the samples\<close>

definition claimed_stage :: db where
  "claimed_stage = stage3\<lparr>outbox :=
     [touch_outbox 20 (claim_event ''a'' 30 (create_outbox_row 1 15 (ready_event 1 15)))]\<rparr>"

lemma claimed_stage_run:
  "outboxRepo_ClaimBatch ''a'' 20 10 10 (quiet_session 20) stage3 =
     (Inr [claim_event ''a'' 30 (create_outbox_row 1 15 (ready_event 1 15))], claimed_stage)"
  by (simp add: outboxRepo_ClaimBatch_def run_defs stage_defs event_defs claimable_def claim_event_def
      time_add_def wrap64_def claimed_stage_def)

lemma second_claim_run:
  "\<exists>events' d''. outboxRepo_ClaimBatch ''b'' 30 10 10 (quiet_session 30) claimed_stage = (Inr events', d'')"
  by (simp add: outboxRepo_ClaimBatch_def run_defs stage_defs event_defs claimable_def claim_event_def
      claimed_stage_def)

lemma claimed_stage_ok: "db_ok claimed_stage"
  using ClaimBatch_ok [OF stage_consistent(3), of "''a''" 20 10 10 "quiet_session 20"]
  by (simp add: claimed_stage_run)

definition published_stage :: db where
  "published_stage = claimed_stage\<lparr>outbox := map (\<lambda>e. touch_outbox 25 (publish_event ''1-0'' 25 e))
     (outbox claimed_stage)\<rparr>"

lemma published_stage_run:
  "outboxRepo_MarkPublished (ready_event_id 1) ''a'' ''1-0'' 25 (quiet_session 25) claimed_stage =
     (Inr (), published_stage)"
  by (simp add: outboxRepo_MarkPublished_def expect_one_def run_defs claimed_stage_def published_stage_def
      stage_defs event_defs claim_event_def publish_event_def held_event_def)

definition running_stage :: TimerExecution where
  "running_stage = touch_execution 20 (start_attempt ''w'' ''t'' 20 30 stage_execution)"

lemma running_stage_row:
  "running_stage \<in> set (executions stage4)" "holds_lease (te_ID running_stage) ''w'' ''t'' running_stage"
  "te_ID running_stage = 1"
  by (simp_all add: stage4_def running_stage_def holds_lease_def start_attempt_def touch_execution_def
      stage_execution_def create_execution_row_def)

lemma failed_stage_run:
  "\<exists>d'. executionRepo_CompleteFailure running_stage ''w'' ''t'' 25 500 [] ''boom'' 5 100 True
     (quiet_session 25) stage4 = (Inr (True, True), d')"
  by (simp add: executionRepo_CompleteFailure_def run_defs stage_defs start_attempt_def holds_lease_def
      fail_execution_def pending_execution_def event_defs running_stage_def)

definition worn_sample :: TimerExecution where
  "worn_sample = running_sample\<lparr>te_Attempt := 3\<rparr>"

definition worn_db :: db where
  "worn_db = sample_db\<lparr>executions := [pending_sample, worn_sample, success_sample]\<rparr>"

lemma worn_db_ok: "db_ok worn_db"
  unfolding db_ok_defs
  by (simp add: worn_db_def worn_sample_def sample_defs table_ok_def timer_row_ok_def execution_row_ok_def
      outbox_row_ok_def event_of_def schedule_key_def)

lemma worn_run: "\<exists>d'. claim_update 2 ''w2'' ''t2'' 300 10 (quiet_session 300) worn_db = (Inr 1, d')"
  by (simp add: claim_update_def run_defs worn_db_def worn_sample_def sample_defs start_attempt_def
      executable_def time_add_def)

lemma sample_recovery: "recovery_batch (quiet_session 300) 300 100 10 sample_db = [pending_sample, running_sample]"
  by (simp add: recovery_batch_def by_scheduled_at_def sample_defs recoverable_def stale_def before_def
      list_take_def)

lemma recovery_run:
  "\<exists>res d'. recoveryRepo_RecoverBatch 300 100 10 (quiet_session 300) sample_db = (Inr res, d')"
  by (simp add: recoveryRepo_RecoverBatch_def recover_execution_def reenqueue_def recovery_event_def
      newExecutionOutboxEvent_def run_defs recoverable_def stale_def before_def by_scheduled_at_def
      sample_defs same_run_def release_lease_def mark_enqueued_def event_defs no_recovery_def recovery_event_id_inject)

lemma cleanup_run: "\<exists>res d'. recoveryRepo_Cleanup 100 100 10 (quiet_session 300) sample_db = (Inr res, d')"
  by (simp add: recoveryRepo_Cleanup_def run_defs delete_stmt_def old_event_def
      old_execution_def before_def sample_defs)

section \<open>The outbox\<close>

text \<open>C21: Two Dispatchers never hold the same event.  When one instance has claimed a batch, a second
  claim made before the first one's deadline gets none of its events.\<close>

theorem outbox_claims_exclusive:
  assumes "db_ok d" "owner \<noteq> []"
    and "outboxRepo_ClaimBatch owner now limit ttl ses d = (Inr events, d')"
    and "outboxRepo_ClaimBatch owner' now' limit' ttl' ses' d' = (Inr events', d'')"
    and "now' \<le> time_add now ttl"
  shows "oe_ID ` set events \<inter> oe_ID ` set events' = {}"
proof -
  have events': "events' = map (claim_event owner' (time_add now' ttl')) (claim_candidates ses' now' limit' d')"
    using ClaimBatch_result [OF assms(4)] by (simp add: claim_rel_def)
  have "oe_ID e \<noteq> oe_ID e'" if e: "e \<in> set events" and e': "e' \<in> set events'" for e e'
  proof -
    from e' obtain x where "x \<in> set (claim_candidates ses' now' limit' d')" "oe_ID x = oe_ID e'"
      by (auto simp: events' claim_event_def)
    with claim_candidates_props(1,2) claimed_not_claimable [OF assms(1-3) e assms(5)]
    show ?thesis by metis
  qed
  then show ?thesis by auto
qed

theorem outbox_claims_exclusive_witness:
  "\<exists>events' d''. outboxRepo_ClaimBatch ''b'' 30 10 10 (quiet_session 30) claimed_stage = (Inr events', d'') \<and>
     1 \<notin> oe_ID ` set events'"
proof -
  obtain events' d'' where
    run: "outboxRepo_ClaimBatch ''b'' 30 10 10 (quiet_session 30) claimed_stage = (Inr events', d'')"
    using second_claim_run by blast
  from outbox_claims_exclusive [OF stage_consistent(3) _ claimed_stage_run run] run show ?thesis
    by (simp add: time_add_def wrap64_def claim_event_def create_outbox_row_def)
qed

lemma update_outbox_nobody:
  "(\<And>r. r \<in> set (outbox d) \<Longrightarrow> \<not> P r) \<Longrightarrow> update_rows P g (outbox d) = outbox d"
  by (simp add: update_rows_def map_idI)

lemma expect_one_error:
  assumes "db_ok d" "expect_one err (op_wrap ctx (transaction (update_outbox P f))) ses d = (Inl e, d')"
    and P: "\<And>r. P r \<Longrightarrow> oe_EventID r = ev" "\<And>u r. oe_Attempts (touch_outbox u (f r)) \<noteq> oe_Attempts r"
  shows "outbox d' = outbox d"
proof -
  obtain x where t: "transaction (update_outbox P f) ses d = (x, d')"
    using assms(2) by (cases "transaction (update_outbox P f) ses d")
      (auto simp: expect_one_def op_wrap_def split: prod.splits sum.splits)
  show ?thesis
  proof (cases x)
    case (Inl e')
    with t transaction_error have "d' = d" by blast
    then show ?thesis by simp
  next
    case (Inr n)
    from ob.update_effect [OF t [unfolded Inr]] obtain u where
      d': "d' = put_outbox (update_rows P (\<lambda>r. touch_outbox u (f r)) (outbox d)) d"
      and n: "n = changed_rows P (\<lambda>r. touch_outbox u (f r)) (outbox d)" by metis
    have "n \<noteq> 1"
    proof
      assume "n = 1"
      with t Inr have "expect_one err (op_wrap ctx (transaction (update_outbox P f))) ses d = (Inr (), d')"
        by (simp add: expect_one_Inr op_wrap_Inr)
      with assms(2) show False by simp
    qed
    with n one_row_outbox [OF assms(1) P(1), where g = "\<lambda>r. touch_outbox u (f r)"] P(2)
    have "\<not> (\<exists>r \<in> set (outbox d). P r)" by metis
    with update_outbox_nobody show ?thesis by (simp add: d' put_outbox_def) blast
  qed
qed

lemma update_one_event:
  assumes "db_ok d" "e \<in> set (outbox d)" "held_event ev owner e"
  shows "update_rows (held_event ev owner) g (outbox d) = map (\<lambda>x. if x = e then g x else x) (outbox d)"
  unfolding update_rows_def
proof (rule map_cong [OF refl])
  fix x assume "x \<in> set (outbox d)"
  with held_unique [OF assms] assms(3) have "held_event ev owner x \<longleftrightarrow> x = e" by metis
  then show "(if held_event ev owner x then g x else x) = (if x = e then g x else x)" by simp
qed

text \<open>Only the holder of a claim records a publication.  \<^verbatim>\<open>MarkPublished\<close> succeeds
  exactly by updating the one unpublished event that the owner has claimed; when it reports an error
  the outbox is unchanged.\<close>

lemma publication_fenced:
  assumes "db_ok d" "outboxRepo_MarkPublished ev owner msg at ses d = (r, d')"
  shows "(case r of
      Inr _ \<Rightarrow> \<exists>e \<in> set (outbox d). held_event ev owner e \<and>
        (\<exists>u. outbox d' = map (\<lambda>x. if x = e then touch_outbox u (publish_event msg at x) else x) (outbox d))
    | Inl _ \<Rightarrow> outbox d' = outbox d)"
proof (cases r)
  case (Inr x)
  from MarkPublished_Inr [OF assms(1) assms(2) [unfolded Inr]] obtain u e where
    d': "d' = put_outbox (update_rows (held_event ev owner) (\<lambda>r. touch_outbox u (publish_event msg at r)) (outbox d)) d"
    and e: "e \<in> set (outbox d)" "held_event ev owner e" by metis
  then have "outbox d' = map (\<lambda>x. if x = e then touch_outbox u (publish_event msg at x) else x) (outbox d)"
    by (simp add: put_outbox_def update_one_event [OF assms(1) e])
  with Inr e show ?thesis by auto
next
  case (Inl err)
  have "outbox d' = outbox d"
    by (rule expect_one_error [OF assms(1) assms(2) [unfolded Inl outboxRepo_MarkPublished_def], of ev])
       (simp_all add: held_event_def publish_event_def touch_outbox_def)
  with Inl show ?thesis by simp
qed

lemma publication_failure_fenced:
  assumes "db_ok d" "outboxRepo_MarkFailed ev owner err at ses d = (r, d')"
  shows "(case r of
      Inr _ \<Rightarrow> \<exists>e \<in> set (outbox d). held_event ev owner e \<and>
        (\<exists>u. outbox d' = map (\<lambda>x. if x = e then touch_outbox u (fail_event err at x) else x) (outbox d))
    | Inl _ \<Rightarrow> outbox d' = outbox d)"
proof (cases r)
  case (Inr x)
  from MarkFailed_Inr [OF assms(1) assms(2) [unfolded Inr]] obtain u e where
    d': "d' = put_outbox (update_rows (held_event ev owner) (\<lambda>r. touch_outbox u (fail_event err at r)) (outbox d)) d"
    and e: "e \<in> set (outbox d)" "held_event ev owner e" by metis
  then have "outbox d' = map (\<lambda>x. if x = e then touch_outbox u (fail_event err at x) else x) (outbox d)"
    by (simp add: put_outbox_def update_one_event [OF assms(1) e])
  with Inr e show ?thesis by auto
next
  case (Inl err')
  have "outbox d' = outbox d"
    by (rule expect_one_error [OF assms(1) assms(2) [unfolded Inl outboxRepo_MarkFailed_def], of ev])
       (simp_all add: held_event_def fail_event_def touch_outbox_def)
  with Inl show ?thesis by simp
qed

section \<open>Executions\<close>

text \<open>Claiming an Execution.  The claim affects one row exactly when the Execution exists and is
  PENDING, RETRY_WAIT and due, or RUNNING with an expired lease; then that row alone becomes RUNNING with
  the owner's lease, a new token and one more attempt, and nothing else in the database changes.\<close>

lemma claim_iff_executable:
  assumes "db_ok d" "claim_update i owner token now ttl ses d = (Inr n, d')"
  shows "(n = 1 \<longleftrightarrow> (\<exists>e \<in> set (executions d). te_ID e = i \<and> executable now e)) \<and>
    (\<exists>u. executions d' = map (\<lambda>e. if te_ID e = i \<and> executable now e
        then touch_execution u (start_attempt owner token now (time_add now ttl) e) else e) (executions d)) \<and>
    outbox d' = outbox d \<and> timers d' = timers d"
proof -
  from claim_update_Inr [OF assms(2,1)] obtain u where
    "d' = put_executions (update_rows (\<lambda>e. te_ID e = i \<and> executable now e)
      (\<lambda>r. touch_execution u (start_attempt owner token now (time_add now ttl) r)) (executions d)) d"
    "n = 1 \<longleftrightarrow> (\<exists>e \<in> set (executions d). te_ID e = i \<and> executable now e)" .
  then show ?thesis by (auto simp: put_executions_def update_rows_def)
qed

text \<open>The Execution after a claim that succeeded.\<close>

lemma claimed_row_state:
  assumes "db_ok d" "claim_update i owner token now ttl ses d = (Inr 1, d')" "e \<in> set (executions d')" "te_ID e = i"
  shows "te_Status e = ExecutionStatusRunning \<and> te_LeaseOwner e = owner \<and> te_RunToken e = token \<and>
    te_LeaseUntil e = Some (time_add now ttl)"
proof -
  from claim_update_Inr [OF assms(2,1)] obtain u where
    d': "d' = put_executions (update_rows (\<lambda>e. te_ID e = i \<and> executable now e)
      (\<lambda>r. touch_execution u (start_attempt owner token now (time_add now ttl) r)) (executions d)) d"
    and "\<exists>e \<in> set (executions d). te_ID e = i \<and> executable now e" by blast
  then obtain x where x: "x \<in> set (executions d)" "te_ID x = i" "executable now x" by blast
  from assms(3) d' obtain y where y: "y \<in> set (executions d)"
    "e = (if te_ID y = i \<and> executable now y
          then touch_execution u (start_attempt owner token now (time_add now ttl) y) else y)"
    by (auto simp: put_executions_def update_rows_def)
  then have "te_ID y = i" using assms(4) by (auto simp: touch_execution_def start_attempt_def split: if_splits)
  with execution_by_id [OF assms(1) y(1) x(1)] x(2,3) y(2) show ?thesis
    by (simp add: touch_execution_def start_attempt_def)
qed

text \<open>C11: At most one Worker runs an Execution.  After a claim that succeeded, no other claim of the
  same Execution succeeds, or changes anything, before the lease has run out.\<close>

theorem execution_claims_exclusive:
  assumes "db_ok d" "token \<noteq> []" "claim_update i owner token now ttl ses d = (Inr 1, d')"
    and "claim_update i owner' token' now' ttl' ses' d' = (Inr n, d'')" "now' \<le> time_add now ttl"
  shows "n \<noteq> 1 \<and> d'' = d'"
proof -
  have "db_ok d'" using claim_update_ok [OF assms(1,2), of i owner now ttl ses] assms(3) by simp
  from claim_update_Inr [OF assms(4) this] obtain u where
    d'': "d'' = put_executions (update_rows (\<lambda>e. te_ID e = i \<and> executable now' e)
      (\<lambda>r. touch_execution u (start_attempt owner' token' now' (time_add now' ttl') r)) (executions d')) d'"
    and n: "n = 1 \<longleftrightarrow> (\<exists>e \<in> set (executions d'). te_ID e = i \<and> executable now' e)" .
  have none: "\<not> (te_ID e = i \<and> executable now' e)" if "e \<in> set (executions d')" for e
    using claimed_row_state [OF assms(1,3) that] assms(5) by (auto simp: executable_def)
  with n d'' update_nobody [of d' "\<lambda>e. te_ID e = i \<and> executable now' e"] show ?thesis by metis
qed

theorem execution_claims_exclusive_witness:
  "claim_update 1 ''v'' ''u'' 25 10 (quiet_session 25) stage4 = (Inr 0, stage4)"
proof -
  have run: "claim_update 1 ''v'' ''u'' 25 10 (quiet_session 25) stage4 =
      (Inr 0, snd (claim_update 1 ''v'' ''u'' 25 10 (quiet_session 25) stage4))"
    by (simp add: claim_update_def run_defs stage_defs start_attempt_def executable_def)
  from execution_claims_exclusive [OF stage_consistent(3) _ stage4_run run] run show ?thesis
    by (simp add: time_add_def wrap64_def)
qed

lemma nobody_holds:
  assumes "db_ok d" "claim_update i owner token now ttl ses d = (Inr 1, d')" "token' \<noteq> token \<or> owner' \<noteq> owner"
    and "r \<in> set (executions d')"
  shows "\<not> holds_lease i owner' token' r"
  using claimed_row_state [OF assms(1,2,4)] assms(3) by (auto simp: holds_lease_def)

lemma one_row_nobody:
  assumes "\<And>r. r \<in> set (executions d) \<Longrightarrow> \<not> P r"
    and "one_row (op_wrap ctx (transaction (update_executions P f))) ses d = (r, d')"
  shows "d' = d \<and> r \<noteq> Inr True"
proof -
  obtain x where t: "transaction (update_executions P f) ses d = (x, d')"
    using assms(2) by (cases "transaction (update_executions P f) ses d")
      (auto simp: one_row_def op_wrap_def split: prod.splits sum.splits)
  show ?thesis
  proof (cases x)
    case (Inl e)
    with t transaction_error have "d' = d" by blast
    with t Inl assms(2) show ?thesis by (auto simp: one_row_def op_wrap_def)
  next
    case (Inr n)
    from ex.update_effect [OF t [unfolded Inr]] obtain u where
      d': "d' = put_executions (update_rows P (\<lambda>r. touch_execution u (f r)) (executions d)) d"
      and n: "n = changed_rows P (\<lambda>r. touch_execution u (f r)) (executions d)" by metis
    have "n = 0" using assms(1) by (simp add: n changed_rows_def)
    with t Inr assms(2) have "r = Inr False" by (auto simp: one_row_def op_wrap_def)
    with d' update_nobody [OF assms(1)] show ?thesis by simp
  qed
qed

text \<open>C12: A run that lost its Execution can record nothing.  Once another Worker has claimed the
  Execution, completing it successfully, failing it or renewing its lease with the earlier owner or
  token changes nothing and does not report an update.\<close>

theorem stale_attempt_rejected:
  assumes "db_ok d" "token \<noteq> []" "claim_update i owner token now ttl ses d = (Inr 1, d')"
    and "token' \<noteq> token \<or> owner' \<noteq> owner" "te_ID x = i"
    and "executionRepo_CompleteSuccess i owner' token' at code body ms ses' d' = (r1, d1)"
    and "executionRepo_Heartbeat i owner' token' until ses' d' = (r2, d2)"
    and "executionRepo_CompleteFailure x owner' token' at code body msg ms retryAt retryable ses' d' = (r3, d3)"
  shows "d1 = d' \<and> r1 \<noteq> Inr True \<and> d2 = d' \<and> r2 \<noteq> Inr True \<and> d3 = d' \<and> (\<forall>b. r3 \<noteq> Inr (True, b))"
proof -
  have none: "\<not> holds_lease i owner' token' r" if "r \<in> set (executions d')" for r
    by (rule nobody_holds [OF assms(1,3,4) that])
  have ok: "db_ok d'" using claim_update_ok [OF assms(1,2), of i owner now ttl ses] assms(3) by simp
  have "d3 = d' \<and> (\<forall>b. r3 \<noteq> Inr (True, b))"
  proof (cases r3)
    case (Inl e)
    with assms(8) CompleteFailure_error show ?thesis by blast
  next
    case (Inr res)
    from CompleteFailure_Inr [OF assms(8) [unfolded Inr] ok refl]
    obtain u g where "\<not> fst res" "d3 = put_executions (update_rows (holds_lease i owner' token') (\<lambda>r. touch_execution u (g r)) (executions d')) d'"
      unfolding failed_rel_def using none assms(5) by (auto split: if_splits)
    with update_nobody [OF none] Inr show ?thesis by (cases res) auto
  qed
  with one_row_nobody [OF none assms(6) [unfolded executionRepo_CompleteSuccess_def]]
    one_row_nobody [OF none assms(7) [unfolded executionRepo_Heartbeat_def]]
  show ?thesis by blast
qed

theorem stale_attempt_rejected_witness:
  "snd (executionRepo_CompleteSuccess 1 ''v'' ''u'' 25 200 [] 1 (quiet_session 25) stage4) = stage4 \<and>
   snd (executionRepo_Heartbeat 1 ''v'' ''u'' 90 (quiet_session 25) stage4) = stage4 \<and>
   snd (executionRepo_CompleteFailure stage_execution ''v'' ''u'' 25 500 [] ''boom'' 1 90 True
     (quiet_session 25) stage4) = stage4"
  using stale_attempt_rejected [OF stage_consistent(3) _ stage4_run _ _ surjective_pairing surjective_pairing
      surjective_pairing, where token' = "''u''" and owner' = "''v''" and x = stage_execution]
  by (simp add: stage_execution_def create_execution_row_def)

text \<open>Recording a success.  \<^verbatim>\<open>CompleteSuccess\<close> reports an update exactly when the run
  still holds the Execution's lease, and then changes that row alone: it becomes SUCCESS and its lease is
  released.\<close>

lemma success_recorded_once:
  assumes "db_ok d" "executionRepo_CompleteSuccess i owner token at code body ms ses d = (Inr b, d')"
  shows "(b \<longleftrightarrow> (\<exists>e \<in> set (executions d). holds_lease i owner token e)) \<and>
    (\<exists>u. executions d' = map (\<lambda>e. if holds_lease i owner token e
        then touch_execution u (succeed_execution at code body ms e) else e) (executions d)) \<and>
    outbox d' = outbox d \<and> timers d' = timers d"
proof -
  from CompleteSuccess_Inr [OF assms(2,1)] obtain u where
    "d' = put_executions (update_rows (holds_lease i owner token)
      (\<lambda>r. touch_execution u (succeed_execution at code body ms r)) (executions d)) d"
    "b \<longleftrightarrow> (\<exists>e \<in> set (executions d). holds_lease i owner token e)" .
  then show ?thesis by (auto simp: put_executions_def update_rows_def)
qed

text \<open>Recording a failure.  A run that still holds the lease either schedules a retry, when the
  failure is retryable and attempts are left, together with one RETRY event that becomes claimable at the
  retry time, or makes the Execution FAILED for good and adds no event.\<close>

lemma failure_retried_or_final:
  assumes "db_ok d" "e \<in> set (executions d)" "holds_lease (te_ID e) owner token e"
    and "executionRepo_CompleteFailure e owner token at code body msg ms retryAt retryable ses d =
      (Inr (updated, retried), d')"
  shows "updated \<and> (retried \<longleftrightarrow> retryable \<and> te_Attempt e < te_MaxAttempts e) \<and>
    (\<exists>e' \<in> set (executions d'). te_ID e' = te_ID e \<and> te_Attempt e' = te_Attempt e \<and> te_LeaseUntil e' = None \<and>
       te_Status e' = (if retried then ExecutionStatusRetryWait else ExecutionStatusFailed) \<and>
       te_NextAttemptAt e' = (if retried then Some retryAt else None)) \<and>
    (if retried then \<exists>o'. outbox d' = outbox d @ [o'] \<and> oe_AggregateID o' = te_ID e \<and>
       oe_EventID o' = retry_event_id (te_ID e) (te_Attempt e) \<and>
       oe_EventType o' = OutboxEventExecutionRetry \<and> claimable retryAt o'
     else outbox d' = outbox d)"
proof -
  let ?retry = "retryable \<and> te_Attempt e < te_MaxAttempts e"
  let ?f = "fail_execution ?retry at code body msg ms retryAt"
  from CompleteFailure_Inr [OF assms(4,1) refl] have rel:
    "failed_rel e owner token ?retry at ?f retryAt d (updated, retried) d'" .
  then have up: "updated" "retried = ?retry"
    using assms(2,3) unfolding failed_rel_def by auto
  from failed_rel_tables [OF rel] obtain u where
    ex: "executions d' = update_rows (holds_lease (te_ID e) owner token) (\<lambda>r. touch_execution u (?f r)) (executions d)" .
  have "(if holds_lease (te_ID e) owner token e then touch_execution u (?f e) else e) \<in> set (executions d')"
    unfolding ex by (rule update_rows_image [OF assms(2)])
  then have row: "touch_execution u (?f e) \<in> set (executions d')" using assms(3) by simp
  have "if retried then \<exists>o'. outbox d' = outbox d @ [o'] \<and> oe_AggregateID o' = te_ID e \<and>
       oe_EventID o' = retry_event_id (te_ID e) (te_Attempt e) \<and>
       oe_EventType o' = OutboxEventExecutionRetry \<and> claimable retryAt o'
     else outbox d' = outbox d"
    using rel up unfolding failed_rel_def
    by (auto simp: Let_def put_outbox_def bump_outbox_def put_executions_def create_outbox_row_def
        retry_event_def newExecutionOutboxEvent_def new_event_def claimable_def)
  with up row show ?thesis
    by (auto simp: touch_execution_def fail_execution_def Let_def intro!: bexI [OF _ row])
qed

text \<open>C38: What a column refuses can never be recorded.  The columns \<^verbatim>\<open>response_body\<close> and
  \<^verbatim>\<open>error_message\<close> are TEXT in UTF-8: they take 65535 bytes of well-formed text.  When the body of a
  response is longer, or is not UTF-8, both the success and the failure of a run that holds the lease are refused with
  an error and the Execution stays as it is, RUNNING; so is a failure whose error message does not fit.  The
  Worker checks neither: \<^verbatim>\<open>max_response_bytes\<close> allows up to 1 MiB by default, a body is taken as the server
  sends it, and the truncation of an error message counts bytes, so that it can end within a character.\<close>

theorem unstorable_response_never_recorded:
  assumes "db_ok d" "e \<in> set (executions d)" "holds_lease i owner token e"
    and "\<not> text_column body \<or> \<not> text_column msg"
  shows "(\<not> text_column body \<longrightarrow>
      (\<exists>err. executionRepo_CompleteSuccess i owner token at code body ms ses d = (Inl err, d))) \<and>
    (\<exists>err. executionRepo_CompleteFailure e owner token at code body msg ms retryAt retryable ses d = (Inl err, d))"
proof (intro conjI impI)
  have i: "i = te_ID e" using assms(3) by (simp add: holds_lease_def)
  have upd: "\<exists>err n. update_executions (holds_lease i owner token) f ses (0, d) = (Inl err, n, d)"
    if "\<And>u. \<not> execution_fits (touch_execution u (f e))" for f
    using that assms(2,3)
    by (auto simp: update_stmt_def statement_def Let_def list_all_iff split: option.splits)
  show "\<exists>err. executionRepo_CompleteSuccess i owner token at code body ms ses d = (Inl err, d)"
    if "\<not> text_column body"
  proof -
    have "\<not> execution_fits (touch_execution u (succeed_execution at code body ms e))" for u
      using that by (auto simp: execution_fits_def touch_execution_def succeed_execution_def)
    from upd [of "succeed_execution at code body ms", OF this] show ?thesis
      by (auto simp: executionRepo_CompleteSuccess_def one_row_def op_wrap_def transaction_def)
  qed
  have "\<not> execution_fits (touch_execution u (fail_execution b at code body msg ms retryAt e))" for u b
    using assms(4) by (auto simp: execution_fits_def touch_execution_def fail_execution_def Let_def)
  from upd [of "fail_execution (retryable \<and> te_Attempt e < te_MaxAttempts e) at code body msg ms retryAt", OF this]
  show "\<exists>err. executionRepo_CompleteFailure e owner token at code body msg ms retryAt retryable ses d = (Inl err, d)"
    by (fastforce simp: executionRepo_CompleteFailure_def op_wrap_def transaction_def tx_bind_def Let_def i)
qed

lemma replicated_text: "text_column (replicate n CHR ''x'') \<longleftrightarrow> n \<le> 65535"
proof -
  have "ascii (replicate n CHR ''x'')" by (induction n) simp_all
  then show ?thesis by (simp add: text_column_def)
qed

lemma not_text: "\<not> text_column [CHR 0xFF]"
  by (simp add: text_column_def valid_utf8.simps(2))

theorem unstorable_response_never_recorded_witness:
  "(\<exists>err. executionRepo_CompleteSuccess 1 ''w'' ''t'' 25 200 (replicate 65536 CHR ''x'') 5
     (quiet_session 25) stage4 = (Inl err, stage4)) \<and>
   (\<exists>err. executionRepo_CompleteSuccess 1 ''w'' ''t'' 25 200 [CHR 0xFF] 5
     (quiet_session 25) stage4 = (Inl err, stage4))"
  using unstorable_response_never_recorded [OF stage_consistent(4) running_stage_row(1,2),
      of "replicate 65536 CHR ''x''" "[]"]
    unstorable_response_never_recorded [OF stage_consistent(4) running_stage_row(1,2), of "[CHR 0xFF]" "[]"]
    running_stage_row(3) not_text by (simp add: replicated_text)

text \<open>C39: The attempt limit does not bind a claim.  A RUNNING Execution on its last attempt whose
  lease has expired can be claimed once more, and then has more attempts than its maximum.\<close>

theorem expired_last_attempt_claimed_again:
  assumes "db_ok d" "e \<in> set (executions d)" "te_ID e = i" "te_Status e = ExecutionStatusRunning" "te_LeaseUntil e = Some t" "t < now"
    and "te_Attempt e = te_MaxAttempts e" "claim_update i owner token now ttl ses d = (Inr n, d')"
  shows "n = 1 \<and> (\<exists>e' \<in> set (executions d'). te_ID e' = i \<and> te_MaxAttempts e' < te_Attempt e')"
proof -
  have ex: "te_ID e = i \<and> executable now e" using assms(3-6) by (simp add: executable_def)
  from claim_update_Inr [OF assms(8,1)] obtain u where
    d': "d' = put_executions (update_rows (\<lambda>e. te_ID e = i \<and> executable now e)
      (\<lambda>r. touch_execution u (start_attempt owner token now (time_add now ttl) r)) (executions d)) d"
    and n: "n = 1 \<longleftrightarrow> (\<exists>e \<in> set (executions d). te_ID e = i \<and> executable now e)" .
  from update_rows_image [OF assms(2), of "\<lambda>e. te_ID e = i \<and> executable now e"
    "\<lambda>r. touch_execution u (start_attempt owner token now (time_add now ttl) r)"] ex
  have row: "touch_execution u (start_attempt owner token now (time_add now ttl) e) \<in> set (executions d')"
    by (simp add: d' put_executions_def)
  have "n = 1" unfolding n using ex assms(2) by blast
  with row ex assms(7) show ?thesis
    by (intro conjI bexI [OF _ row]) (simp_all add: touch_execution_def start_attempt_def)
qed

theorem expired_last_attempt_claimed_again_witness:
  "\<exists>d'. claim_update 2 ''w2'' ''t2'' 300 10 (quiet_session 300) worn_db = (Inr 1, d') \<and>
     (\<exists>e' \<in> set (executions d'). te_ID e' = 2 \<and> te_MaxAttempts e' < te_Attempt e')"
proof -
  have row: "worn_sample \<in> set (executions worn_db)" "te_ID worn_sample = 2"
    "te_Status worn_sample = ExecutionStatusRunning" "te_LeaseUntil worn_sample = Some 200"
    "te_Attempt worn_sample = te_MaxAttempts worn_sample"
    by (simp_all add: worn_db_def worn_sample_def running_sample_def pending_sample_def)
  from worn_run obtain d' where
    run: "claim_update 2 ''w2'' ''t2'' 300 10 (quiet_session 300) worn_db = (Inr 1, d')" by blast
  from expired_last_attempt_claimed_again [OF worn_db_ok row(1-4) _ row(5) run] run show ?thesis
    by auto
qed

lemma recovery_row:
  assumes "db_ok d" "recoveryRepo_RecoverBatch now staleBefore limit ses d = (Inr res, d')" "e \<in> set (executions d)"
  obtains e' where "e' \<in> set (executions d')"
    and "recovered now (te_ID ` set (recovery_batch ses now staleBefore limit d)) e e'"
proof -
  from RecoverBatch_result [OF assms(1,2)]
  have "list_all2 (recovered now (te_ID ` set (recovery_batch ses now staleBefore limit d))) (executions d) (executions d')"
    by (simp add: recovery_done_def recovery_state_def)
  from this assms(3) that show ?thesis by (rule list_all2_partner)
qed

lemma recovery_outcome:
  assumes "db_ok d" "recoveryRepo_RecoverBatch now staleBefore limit ses d = (Inr res, d')"
    and "x \<in> set (recovery_batch ses now staleBefore limit d)"
  shows "\<exists>x' \<in> set (executions d'). te_ID x' = te_ID x \<and>
    (if te_Status x = ExecutionStatusRunning \<and> te_MaxAttempts x \<le> te_Attempt x
     then te_Status x' = ExecutionStatusFailed \<and> te_FinishedAt x' = Some now
     else te_Status x' = (if te_Status x = ExecutionStatusRunning then ExecutionStatusRetryWait else te_Status x) \<and>
       executable now x' \<and> te_LastEnqueuedAt x' = Some now \<and>
       (\<exists>o' \<in> set (outbox d') - set (outbox d). oe_AggregateID o' = te_ID x \<and>
         oe_EventID o' = recovery_event_id (te_ID x) now \<and> claimable now o'))"
proof -
  let ?b = "recovery_batch ses now staleBefore limit d"
  from recovery_batch_props(2) [OF assms(1,3)] have x: "x \<in> set (executions d)" "recoverable now staleBefore x" by auto
  from recovery_row [OF assms(1,2) x(1)] obtain x' where
    x': "x' \<in> set (executions d')" "recovered now (te_ID ` set ?b) x x'" .
  with assms(3) obtain u where e': "x' = touch_execution u (recover_row now x)" by (auto simp: recovered_def)
  from RecoverBatch_result [OF assms(1,2)] obtain evs where
    evs: "outbox d' = outbox d @ evs" "list_all2 (recovery_for now) (filter (\<lambda>x. \<not> exhausted x) ?b) evs"
    and ok: "db_ok d'" by (auto simp: recovery_done_def recovery_state_def)
  have dist: "distinct (outbox d')" using db_ok_distinct(3) [OF ok] by (simp add: distinct_map)
  have ev: "\<exists>o' \<in> set (outbox d') - set (outbox d). oe_AggregateID o' = te_ID x \<and>
         oe_EventID o' = recovery_event_id (te_ID x) now \<and> claimable now o'"
    if "\<not> exhausted x"
  proof -
    have "x \<in> set (filter (\<lambda>x. \<not> exhausted x) ?b)" using that assms(3) by simp
    from evs(2) this obtain o' where o': "o' \<in> set evs" "recovery_for now x o'" by (rule list_all2_partner)
    with dist evs(1) have "o' \<in> set (outbox d') - set (outbox d)" by auto
    moreover have "oe_AggregateID o' = te_ID x \<and>
         oe_EventID o' = recovery_event_id (te_ID x) now \<and> claimable now o'"
      using o'(2) by (auto simp: recovery_for_def create_outbox_row_def event_defs claimable_def)
    ultimately show ?thesis by blast
  qed
  show ?thesis
  proof (rule bexI [OF _ x'(1)])
    show "te_ID x' = te_ID x \<and>
      (if te_Status x = ExecutionStatusRunning \<and> te_MaxAttempts x \<le> te_Attempt x
       then te_Status x' = ExecutionStatusFailed \<and> te_FinishedAt x' = Some now
       else te_Status x' = (if te_Status x = ExecutionStatusRunning then ExecutionStatusRetryWait else te_Status x) \<and>
         executable now x' \<and> te_LastEnqueuedAt x' = Some now \<and>
         (\<exists>o' \<in> set (outbox d') - set (outbox d). oe_AggregateID o' = te_ID x \<and>
         oe_EventID o' = recovery_event_id (te_ID x) now \<and> claimable now o'))"
      using ev x(2) by (auto simp: e' touch_execution_def recover_row_def give_up_def release_lease_def
          mark_enqueued_def exhausted_def recoverable_def executable_def split: option.splits)
  qed
qed

text \<open>C15: Recovery loses no Execution.  Every Execution of a recovery batch either becomes FAILED,
  when it was RUNNING on its last attempt, or is executable again and has a new event, claimable at
  once.\<close>

theorem recovery_reenqueues_or_fails:
  assumes "db_ok d" "recoveryRepo_RecoverBatch now staleBefore limit ses d = (Inr res, d')"
    and "x \<in> set (recovery_batch ses now staleBefore limit d)"
  shows "\<exists>x' \<in> set (executions d'). te_ID x' = te_ID x \<and>
    (if te_Status x = ExecutionStatusRunning \<and> te_MaxAttempts x \<le> te_Attempt x
     then te_Status x' = ExecutionStatusFailed \<and> te_FinishedAt x' = Some now
     else te_Status x' = (if te_Status x = ExecutionStatusRunning then ExecutionStatusRetryWait else te_Status x) \<and>
       executable now x' \<and> te_LastEnqueuedAt x' = Some now \<and>
       (\<exists>o' \<in> set (outbox d') - set (outbox d). oe_AggregateID o' = te_ID x \<and> claimable now o'))"
  using recovery_outcome [OF assms] by (auto split: if_splits)

theorem recovery_reenqueues_or_fails_witness:
  "\<exists>res d'. recoveryRepo_RecoverBatch 300 100 10 (quiet_session 300) sample_db = (Inr res, d') \<and>
     (\<exists>x' \<in> set (executions d'). te_ID x' = 2 \<and> te_Status x' = ExecutionStatusRetryWait \<and> executable 300 x')"
proof -
  from recovery_run obtain res d' where
    run: "recoveryRepo_RecoverBatch 300 100 10 (quiet_session 300) sample_db = (Inr res, d')" by blast
  have row: "running_sample \<in> set (recovery_batch (quiet_session 300) 300 100 10 sample_db)"
    "te_ID running_sample = 2" "te_Status running_sample = ExecutionStatusRunning"
    "\<not> te_MaxAttempts running_sample \<le> te_Attempt running_sample"
    by (simp_all add: sample_recovery running_sample_def pending_sample_def)
  from recovery_reenqueues_or_fails [OF sample_db_ok run row(1)] row run show ?thesis by auto
qed

text \<open>What recovery reports is what it did: the events it added, the RUNNING Executions it took, and
  the Executions it gave up.\<close>

lemma recovery_counts_exact:
  assumes "db_ok d" "recoveryRepo_RecoverBatch now staleBefore limit ses d = (Inr res, d')"
  shows "rr_Reenqueued res = int (length (outbox d')) - int (length (outbox d)) \<and>
    rr_ExpiredLeases res = int (length (filter (\<lambda>x. te_Status x = ExecutionStatusRunning)
       (recovery_batch ses now staleBefore limit d))) \<and>
    rr_FinalFailures res = int (length (filter exhausted (recovery_batch ses now staleBefore limit d)))"
  using RecoverBatch_result [OF assms]
  by (auto simp: recovery_done_def recovery_state_def recovery_counts_def dest: list_all2_lengthD)

text \<open>One recovery batch suffices when it is large enough: if no row is locked and the limit covers
  the recoverable Executions, none is recoverable afterwards.\<close>

lemma recovery_leaves_nothing_behind:
  assumes "db_ok d" "recoveryRepo_RecoverBatch now staleBefore limit ses d = (Inr res, d')"
    and "\<And>i. \<not> ses_execution_locked ses i" "staleBefore \<le> now"
    and "int (length (filter (recoverable now staleBefore) (executions d))) \<le> limit"
    and "e' \<in> set (executions d')"
  shows "\<not> recoverable now staleBefore e'"
proof -
  let ?b = "recovery_batch ses now staleBefore limit d"
  have b: "set ?b = {e \<in> set (executions d). recoverable now staleBefore e}"
    using assms(3,5) by (auto simp: recovery_batch_def by_scheduled_at_def list_take_def)
  from RecoverBatch_result [OF assms(1,2)]
  have "list_all2 (recovered now (te_ID ` set ?b)) (executions d) (executions d')"
    by (simp add: recovery_done_def recovery_state_def)
  then have "list_all2 (\<lambda>y x. recovered now (te_ID ` set ?b) x y) (executions d') (executions d)"
    by (simp add: list_all2_conv_all_nth)
  from this assms(6) obtain e where e: "e \<in> set (executions d)" "recovered now (te_ID ` set ?b) e e'"
    by (rule list_all2_partner)
  show ?thesis
  proof (cases "te_ID e \<in> te_ID ` set ?b")
    case True
    with e(2) obtain u where "e' = touch_execution u (recover_row now e)" by (auto simp: recovered_def)
    moreover from True obtain x where "x \<in> set ?b" "te_ID x = te_ID e" by auto
    with execution_by_id [OF assms(1) _ e(1)] b have "recoverable now staleBefore e" by auto
    ultimately show ?thesis using assms(4)
      by (auto simp: touch_execution_def recover_row_def give_up_def release_lease_def
          mark_enqueued_def recoverable_def stale_def before_def)
  next
    case False
    with e have "e' = e" "e \<notin> set ?b" by (auto simp: recovered_def)
    with e(1) b show ?thesis by simp
  qed
qed

text \<open>C28: Cleanup deletes only history.  The events it deletes were published before the cut-off, the
  Executions it deletes are terminal, finished before the cut-off and have no event left; it creates and
  changes no row, leaves the Timers alone, and deletes at most the limit of each kind.\<close>

theorem cleanup_deletes_only_history:
  assumes "db_ok d" "recoveryRepo_Cleanup outboxBefore executionBefore limit ses d = (Inr res, d')"
  shows "(\<forall>o' \<in> set (outbox d) - set (outbox d'). before outboxBefore (oe_PublishedAt o')) \<and>
    (\<forall>e \<in> set (executions d) - set (executions d'). IsTerminal e \<and> before executionBefore (te_FinishedAt e) \<and>
       (\<forall>o' \<in> set (outbox d'). oe_AggregateID o' \<noteq> te_ID e)) \<and>
    set (outbox d') \<subseteq> set (outbox d) \<and> set (executions d') \<subseteq> set (executions d) \<and> timers d' = timers d \<and>
    cu_OutboxEvents res \<le> limit \<and> cu_Executions res \<le> limit"
proof -
  from Cleanup_result [OF assms] obtain d1 where
    d1: "d1 = put_outbox (delete_rows (nat limit) (old_event outboxBefore) (outbox d)) d"
    and d': "d' = put_executions (delete_rows (nat limit) (old_execution executionBefore d1) (executions d)) d1"
    and n: "cu_OutboxEvents res = int (length (outbox d)) - int (length (outbox d'))"
      "cu_Executions res = int (length (executions d)) - int (length (executions d'))"
    and "0 \<le> limit" "db_ok d'" by metis
  have ob: "outbox d' = delete_rows (nat limit) (old_event outboxBefore) (outbox d)"
    and ex: "executions d' = delete_rows (nat limit) (old_execution executionBefore d1) (executions d)"
    and tm: "timers d' = timers d" and same: "outbox d1 = outbox d'"
    by (simp_all add: d' d1 put_executions_def put_outbox_def)
  have "old_event outboxBefore o'" if "o' \<in> set (outbox d) - set (outbox d')" for o'
    using that delete_rows_gone unfolding ob by (metis DiffE)
  moreover have "old_execution executionBefore d1 e" if "e \<in> set (executions d) - set (executions d')" for e
    using that delete_rows_gone unfolding ex by (metis DiffE)
  moreover have "oe_AggregateType o' = OutboxAggregateTimerExecution" if "o' \<in> set (outbox d')" for o'
    using that \<open>db_ok d'\<close> by (simp add: db_ok_defs)
  moreover have "cu_OutboxEvents res \<le> limit" "cu_Executions res \<le> limit"
    using length_delete_rows(1) [of "outbox d" "nat limit" "old_event outboxBefore"]
      length_delete_rows(1) [of "executions d" "nat limit" "old_execution executionBefore d1"] \<open>0 \<le> limit\<close>
    by (simp_all add: n ob ex)
  ultimately show ?thesis
    using set_delete_rows [of "nat limit" "old_event outboxBefore" "outbox d"]
      set_delete_rows [of "nat limit" "old_execution executionBefore d1" "executions d"] tm
    by (auto simp: ob [symmetric] ex [symmetric] old_event_def old_execution_def list_ex_iff same IsTerminal_def
        terminal_status_def)
qed

theorem cleanup_deletes_only_history_witness:
  "\<exists>res d'. recoveryRepo_Cleanup 100 100 10 (quiet_session 300) sample_db = (Inr res, d') \<and>
     pending_sample \<in> set (executions d') \<and> ready_sample 1 1 \<in> set (outbox d')"
proof -
  from cleanup_run obtain res d' where
    run: "recoveryRepo_Cleanup 100 100 10 (quiet_session 300) sample_db = (Inr res, d')" by blast
  have "\<not> IsTerminal pending_sample" "\<not> before 100 (oe_PublishedAt (ready_sample 1 1))"
    by (simp_all add: IsTerminal_def pending_sample_def ready_sample_def before_def)
  with cleanup_deletes_only_history [OF sample_db_ok run] have
    "pending_sample \<in> set (executions d')" "ready_sample 1 1 \<in> set (outbox d')" by auto
  with run show ?thesis by blast
qed

end
