(* ===== verification/Service_Properties.thy ===== *)
theory Service_Properties
  imports Storage_Properties
begin

text \<open>
  What the services of \<^verbatim>\<open>internal/service/\<close> promise on top of the repositories: when a Worker
  acknowledges, when a Dispatcher records a publication, how long retries wait, and what the Timer
  service's operations do.
\<close>

section \<open>Sample configurations\<close>

definition sample_worker_cfg :: WorkerConfig where
  "sample_worker_cfg = \<lparr>wc_PoolSize = 100, wc_ReadCount = 50, wc_ReadBlockMS = 2000,
     wc_LeaseTTLSeconds = 60, wc_HeartbeatSeconds = 20, wc_ReclaimIdleSeconds = 90,
     wc_ReclaimIntervalSeconds = 30, wc_HTTPTimeoutSeconds = 10, wc_MaxResponseBytes = 1048576,
     wc_RetryBaseSeconds = 1, wc_RetryMaxSeconds = 60\<rparr>"

definition sample_outbox_cfg :: OutboxConfig where
  "sample_outbox_cfg = \<lparr>oc_PollIntervalMS = 200, oc_BatchSize = 100, oc_ClaimTTLSeconds = 30,
     oc_MaxBackoffSeconds = 30, oc_Stream = ''ready'', oc_ConsumerGroup = ''workers'', oc_StreamMaxLen = 0\<rparr>"

definition sample_net :: net_lib where
  "sample_net = \<lparr>
     nl_ParseURL = (\<lambda>u. if u = ''http://10.0.0.1/cb'' then Inr \<lparr>up_Scheme = ''http'', up_Hostname = ''10.0.0.1'', up_User = False\<rparr>
        else Inr \<lparr>up_Scheme = ''http'', up_Hostname = ''example.com'', up_User = False\<rparr>),
     nl_ParseIP = (\<lambda>h. if h = ''10.0.0.1'' then Some [10, 0, 0, 1] else None),
     nl_SplitHostPort = (\<lambda>a. Inr (a, ''80'')), nl_LookupIP = (\<lambda>h. Inr [[93, 184, 216, 34]]),
     nl_IPString = (\<lambda>_. ''ip''), nl_NewRequest = (\<lambda>_ _. None),
     nl_Address = (\<lambda>u. if u = ''http://10.0.0.1/cb'' then ''10.0.0.1'' else ''example.com''),
     nl_Redirected = (\<lambda>request _. request)\<rparr>"

definition sample_env :: "unit timer_env" where
  "sample_env = \<lparr>tv_cron = periodic_cron 30, tv_net = sample_net, tv_DefaultMaxCatchUp = 10,
     tv_AllowPrivateCallbacks = False\<rparr>"

definition sample_list :: TimerDefinitionListRequest where
  "sample_list = \<lparr>lr_Page = 1, lr_PageSize = 10, lr_App = ''app'', lr_Status = TimerStatusOther [],
     lr_Keyword = []\<rparr>"

section \<open>A message is acknowledged only when its Execution needs it no longer\<close>

definition settled :: "int \<Rightarrow> db \<Rightarrow> bool" where
  "settled i d \<longleftrightarrow> (\<forall>e \<in> set (executions d). te_ID e = i \<longrightarrow>
     IsTerminal e \<or> te_Status e = ExecutionStatusRetryWait)"

lemma settled_update:
  assumes "db_ok d" "executions d' = update_rows P g (executions d)"
    and "x \<in> set (executions d)" "P x" "te_ID x = i" "\<And>e. te_ID (g e) = te_ID e"
    and "\<And>e. IsTerminal (g e) \<or> te_Status (g e) = ExecutionStatusRetryWait"
  shows "settled i d'"
  unfolding settled_def
proof (intro ballI impI)
  fix e assume e: "e \<in> set (executions d')" "te_ID e = i"
  then obtain y where y: "y \<in> set (executions d)" "e = (if P y then g y else y)"
    by (auto simp: assms(2) update_rows_def)
  with e(2) assms(6) have "te_ID y = i" by (simp split: if_splits)
  with execution_by_id [OF assms(1) y(1) assms(3)] assms(4,5) y(2) have "e = g x" by simp
  with assms(7) show "IsTerminal e \<or> te_Status e = ExecutionStatusRetryWait" by simp
qed

lemma settled_success:
  assumes "db_ok d" "executionRepo_CompleteSuccess i owner token at code body ms ses d = (Inr True, d')"
  shows "settled i d'"
proof -
  from CompleteSuccess_Inr [OF assms(2,1)] obtain u x where
    d': "d' = put_executions (update_rows (holds_lease i owner token)
      (\<lambda>r. touch_execution u (succeed_execution at code body ms r)) (executions d)) d"
    and x: "x \<in> set (executions d)" "holds_lease i owner token x" by metis
  then have ex: "executions d' = update_rows (holds_lease i owner token)
      (\<lambda>r. touch_execution u (succeed_execution at code body ms r)) (executions d)"
    by (simp add: put_executions_def)
  show ?thesis
    by (rule settled_update [OF assms(1) ex x])
       (use x in \<open>auto simp: holds_lease_def IsTerminal_def execution_row_defs\<close>)
qed

lemma settled_failure:
  assumes "db_ok d" "executionRepo_CompleteFailure x owner token at code body msg ms retryAt retryable ses d = (Inr (True, b), d')"
  shows "settled (te_ID x) d'"
proof -
  let ?retry = "retryable \<and> te_Attempt x < te_MaxAttempts x"
  from CompleteFailure_Inr [OF assms(2,1) refl] have rel:
    "failed_rel x owner token ?retry at (fail_execution ?retry at code body msg ms retryAt) retryAt d (True, b) d'" .
  then obtain e where e: "e \<in> set (executions d)" "holds_lease (te_ID x) owner token e"
    unfolding failed_rel_def by auto
  from failed_rel_tables [OF rel] obtain u where
    d': "executions d' = update_rows (holds_lease (te_ID x) owner token)
      (\<lambda>r. touch_execution u (fail_execution ?retry at code body msg ms retryAt r)) (executions d)" .
  show ?thesis
    by (rule settled_update [OF assms(1) d' e])
       (use e in \<open>auto simp: holds_lease_def IsTerminal_def execution_row_defs Let_def\<close>)
qed

lemma claim_read_row:
  assumes "claim_read i ses d = (Inr r, d')" "db_ok d"
  shows "d' = d" and "r = None \<Longrightarrow> settled i d"
    and "r = Some e \<Longrightarrow> te_ID e = i \<and> (IsTerminal e \<or> te_Status e = ExecutionStatusRetryWait \<longrightarrow> settled i d)"
proof -
  have r: "r = first_row (filter (\<lambda>e. te_ID e = i) (executions d)) \<and> d' = d"
    using assms by (auto simp: claim_read_def op_wrap_Inr dest!: query_read_Inr)
  then show "d' = d" by simp
  show "settled i d" if "r = None"
  proof -
    from that r have "filter (\<lambda>e. te_ID e = i) (executions d) = []" by (simp add: first_row_None)
    then show ?thesis unfolding filter_empty_conv settled_def by blast
  qed
  show "te_ID e = i \<and> (IsTerminal e \<or> te_Status e = ExecutionStatusRetryWait \<longrightarrow> settled i d)" if "r = Some e"
  proof -
    from that r first_row_filter [of "\<lambda>e. te_ID e = i" "executions d" e]
    have e: "e \<in> set (executions d)" "te_ID e = i" by auto
    have "settled i d" if "IsTerminal e \<or> te_Status e = ExecutionStatusRetryWait"
      unfolding settled_def
    proof (intro ballI impI)
      fix x assume "x \<in> set (executions d)" "te_ID x = i"
      with execution_by_id [OF assms(2) _ e(1)] e(2) have "x = e" by simp
      with that show "IsTerminal x \<or> te_Status x = ExecutionStatusRetryWait" by simp
    qed
    with e show ?thesis by blast
  qed
qed

lemma alone_ok: "world_alone w \<Longrightarrow> db_ok (w_db w)"
  by (simp add: world_alone_def world_ok_def)

lemma Claim_alone:
  assumes "world_alone w" "token \<noteq> []" "executionRepo_Claim i owner token now ttl w = (Inr (r, c), w')"
  shows "world_alone w'" and "r = None \<Longrightarrow> settled i (w_db w')"
    and "r = Some e \<Longrightarrow> te_ID e = i \<and>
      (IsTerminal e \<or> te_Status e = ExecutionStatusRetryWait \<longrightarrow> settled i (w_db w'))"
proof -
  obtain x w1 where u: "call (claim_update i owner token now ttl) w = (x, w1)" by force
  with assms(3) obtain n where "x = Inr n"
    by (cases x) (auto simp: executionRepo_Claim_def split: prod.splits sum.splits)
  note a1 = alone_call [OF assms(1) u]
  have w1: "world_alone w1" by (rule a1(1)) (simp add: claim_update_ok assms(2))
  obtain y w2 where c: "call (claim_read i) w1 = (y, w2)" by force
  from assms(3) u \<open>x = Inr n\<close> c have y: "y = Inr r \<and> w' = w2"
    by (auto simp: executionRepo_Claim_def split: sum.splits option.splits)
  note a2 = alone_call [OF w1 c]
  have w2: "world_alone w2" by (rule a2(1)) (simp add: claim_read_state)
  from a2(2) claim_read_state obtain ses where "claim_read i ses (w_db w1) = (y, w_db w2)" by metis
  with y have rd: "claim_read i ses (w_db w1) = (Inr r, w_db w2)" by simp
  note row = claim_read_row [OF rd alone_ok [OF w1]]
  show "world_alone w'" using w2 y by simp
  show "r = None \<Longrightarrow> settled i (w_db w')" using row(1,2) y by simp
  show "r = Some e \<Longrightarrow> te_ID e = i \<and>
      (IsTerminal e \<or> te_Status e = ExecutionStatusRetryWait \<longrightarrow> settled i (w_db w'))"
    using row(1,3) y by simp
qed

lemma heartbeat_alone:
  assumes "sw_repo w = world_execution_repo" "world_alone s"
  shows "world_alone (snd (heartbeat w i token ticks s))"
  using assms
proof (induction ticks arbitrary: s)
  case (Cons t ticks)
  obtain r s' where h: "er_Heartbeat (sw_repo w) i (sw_consumerID w) token
      (time_add t (seconds (wc_LeaseTTLSeconds (sw_workerCfg w)))) s = (r, s')" by force
  with Cons.prems have c: "call (executionRepo_Heartbeat i (sw_consumerID w) token
      (time_add t (seconds (wc_LeaseTTLSeconds (sw_workerCfg w))))) s = (r, s')"
    by (simp add: world_execution_repo_def)
  have "world_alone s'" by (rule alone_call(1) [OF Cons.prems(2) c]) (rule Heartbeat_ok)
  with h Cons.IH [OF Cons.prems(1)] show ?case
    by (auto split: sum.splits bool.splits)
qed simp

lemma finishSuccess_settles:
  assumes "sw_repo w = world_execution_repo" "world_alone s"
    and "finishSuccess w m x token t0 t1 code body (rep, q, s) = (rep', q', s')" "q' \<noteq> q"
  shows "settled (te_ID x) (w_db s')"
proof -
  let ?op = "executionRepo_CompleteSuccess (te_ID x) (sw_consumerID w) token t1 code body
      (Milliseconds (time_sub t1 t0))"
  obtain r s1 where c: "call ?op s = (r, s1)" by force
  with assms(1,3,4) have r: "r = Inr True" "s' = s1"
    by (auto simp: finishSuccess_def world_execution_repo_def worker_ack_def Let_def
        split: sum.splits if_splits prod.splits)
  from alone_call(2) [OF assms(2) c] CompleteSuccess_ok obtain ses where
    "?op ses (w_db s) = (r, w_db s1)" by blast
  with r settled_success [OF alone_ok [OF assms(2)]] show ?thesis by blast
qed

lemma finishFailure_settles:
  assumes "sw_repo w = world_execution_repo" "world_alone s"
    and "finishFailure w m x token t0 t1 code body err retryable (rep, q, s) = (rep', q', s')" "q' \<noteq> q"
  shows "settled (te_ID x) (w_db s')"
proof -
  let ?op = "executionRepo_CompleteFailure x (sw_consumerID w) token t1 code body
      (truncateWorkerError err) (Milliseconds (time_sub t1 t0))
      (time_add t1 (retryBackoff (sw_workerCfg w) (te_Attempt x))) retryable"
  obtain r s1 where c: "call ?op s = (r, s1)" by force
  with assms(1,3,4) obtain b where r: "r = Inr (True, b)" "s' = s1"
    by (auto simp: finishFailure_def world_execution_repo_def worker_ack_def Let_def
        split: sum.splits if_splits prod.splits)
  from alone_call(2) [OF assms(2) c] CompleteFailure_ok obtain ses where
    "?op ses (w_db s) = (r, w_db s1)" by blast
  with r settled_failure [OF alone_ok [OF assms(2)]] show ?thesis by blast
qed

lemma run_attempt_settles:
  assumes "sw_repo w = world_execution_repo" "world_alone s"
    and "run_attempt w m env x token (rep, q, s) = (rep', q', s')" "q' \<noteq> q"
  shows "settled (te_ID x) (w_db s')"
proof (cases "unmarshal_snapshot (te_RequestSnapshot x)")
  case (Inl e)
  with assms(3) have "finishFailure w m x token (ae_startedAt env) (ae_finishedAt env) 0 []
      (wrap_err ''decode callback snapshot'' e) False (rep, q, s) = (rep', q', s')"
    by (simp add: run_attempt_def)
  from finishFailure_settles [OF assms(1,2) this assms(4)] show ?thesis .
next
  case (Inr snapshot)
  obtain lost s1 where h: "heartbeat w (te_ID x) token (ae_heartbeats env) s = (lost, s1)" by force
  with heartbeat_alone [OF assms(1,2), of "te_ID x" token "ae_heartbeats env"]
  have s1: "world_alone s1" by simp
  obtain code body err where cb: "ae_callback env snapshot (te_ID x) = (code, body, err)"
    by (rule prod_cases3)
  show ?thesis
  proof (cases lost)
    case True
    with assms(3,4) Inr h cb show ?thesis by (simp add: run_attempt_def)
  next
    case False
    show ?thesis
    proof (cases err)
      case None
      with assms(3) Inr h cb False have "finishSuccess w m x token (ae_startedAt env)
          (ae_finishedAt env) code body (rep, q, s1) = (rep', q', s')"
        by (simp add: run_attempt_def)
      from finishSuccess_settles [OF assms(1) s1 this assms(4)] show ?thesis .
    next
      case (Some e)
      with assms(3) Inr h cb False have "finishFailure w m x token (ae_startedAt env)
          (ae_finishedAt env) code body e (isRetryableCallbackFailure code) (rep, q, s1) = (rep', q', s')"
        by (simp add: run_attempt_def)
      from finishFailure_settles [OF assms(1) s1 this assms(4)] show ?thesis .
    qed
  qed
qed


definition counting_stream :: "nat workerStream" where
  "counting_stream = \<lparr>ws_ReadNew = (\<lambda>_ _ _ _ _ q. (Inr [], q)), ws_AutoClaim = (\<lambda>_ _ _ _ _ _ q. (Inr ([], []), q)),
     ws_Ack = (\<lambda>_ _ _ q. (Inr (), q + 1)), ws_PendingCount = (\<lambda>_ _ q. (Inr 0, q))\<rparr>"

definition sample_worker :: "(nat, world) StreamWorker" where
  "sample_worker = \<lparr>sw_repo = world_execution_repo, sw_stream = counting_stream,
     sw_workerCfg = sample_worker_cfg, sw_outboxCfg = sample_outbox_cfg, sw_consumerID = ''w''\<rparr>"

definition sample_attempt :: attempt_env where
  "sample_attempt = \<lparr>ae_rand = Inr (\<lambda>_. 0), ae_startedAt = 20, ae_heartbeats = [], ae_finishedAt = 25,
     ae_callback = (\<lambda>_ _. (200, [], None))\<rparr>"

definition sample_message :: StreamMessage where
  "sample_message = \<lparr>sm_ID = ''1-0'', sm_EventID = ready_event_id 1, sm_EventType = OutboxEventExecutionReady,
     sm_ExecutionID = 1, sm_Payload = [], sm_DecodeError = []\<rparr>"


text \<open>C14: An event is marked published only after the stream has it.  Every event that a
  Dispatcher's round leaves marked as published either was so before or has been accepted by the stream.\<close>

theorem published_only_after_stream:
  assumes "world_alone s" "owner \<noteq> []" "logs_publications publish log"
    and "dispatchOnce world_outbox_repo publish cfg owner u (rep, p, s) = (rep', p', s')"
  shows "published_ids (w_db s') \<subseteq> published_ids (w_db s) \<union> log p'"
  using world_outbox_alone.dispatchOnce_pubs [OF _ assms(2,3,4)] assms(1) by simp

definition logging_publisher :: "string set publisher" where
  "logging_publisher = (\<lambda>stream maxLen e p. (Inr ''1-0'', insert (oe_EventID e) p))"

definition sample_round :: dispatch_round where
  "sample_round = \<lparr>du_now = 20, du_done = (\<lambda>_. False), du_clock = (\<lambda>_. 21)\<rparr>"

theorem published_only_after_stream_witness:
  "\<exists>rep' p' s'. dispatchOnce world_outbox_repo logging_publisher sample_outbox_cfg ''a'' sample_round
      (NewReporter, {}, lone_world 20 stage3) = (rep', p', s') \<and> published_ids (w_db s') \<subseteq> p'"
proof -
  obtain rep' p' s' where run: "dispatchOnce world_outbox_repo logging_publisher sample_outbox_cfg ''a''
      sample_round (NewReporter, {}, lone_world 20 stage3) = (rep', p', s')" by (rule prod_cases3)
  have "logs_publications logging_publisher (\<lambda>p. p)"
    by (auto simp: logs_publications_def logging_publisher_def)
  moreover have "world_alone (lone_world 20 stage3)"
    using stage_consistent(3) by (simp add: world_alone_def lone_world_def world_ok_def)
  moreover have "published_ids (w_db (lone_world 20 stage3)) = {}"
    by (simp add: published_ids_def lone_world_def stage3_def create_outbox_row_def ready_event_def new_event_def)
  ultimately show ?thesis
    using published_only_after_stream [OF _ _ _ run, of "\<lambda>p. p"] run by auto
qed

lemma capped_doubling_mono:
  fixes m :: int
  assumes "0 \<le> b" "k \<le> l"
  shows "min m (b * 2 ^ k) \<le> min m (b * 2 ^ l)"
proof -
  have "b * 2 ^ k \<le> b * 2 ^ l"
    using assms by (intro mult_left_mono power_increasing) auto
  then show ?thesis by linarith
qed

definition backoff_exponent :: "int \<Rightarrow> nat" where
  "backoff_exponent attempt = nat (min 30 (max 0 (attempt - 1)))"

lemma backoff_exponent_mono: "attempt \<le> attempt' \<Longrightarrow> backoff_exponent attempt \<le> backoff_exponent attempt'"
  unfolding backoff_exponent_def by (intro nat_mono) auto

text \<open>Publication retry delays.  The delay before an event is published again is at least one
  second, never decreases with the number of failures and never exceeds the configured maximum (nor
  \<open>2 ^ 30\<close> seconds).\<close>

lemma dispatcher_backoff_bounds:
  assumes "1 \<le> maxSeconds" "attempt \<le> attempt'"
  shows "nanos_per_second \<le> dispatcher_backoff maxSeconds attempt \<and>
    dispatcher_backoff maxSeconds attempt \<le> dispatcher_backoff maxSeconds attempt' \<and>
    dispatcher_backoff maxSeconds attempt' \<le> min maxSeconds (2 ^ 30) * nanos_per_second"
proof -
  have eq: "dispatcher_backoff maxSeconds a = min maxSeconds (1 * 2 ^ backoff_exponent a) * nanos_per_second" for a
    unfolding dispatcher_backoff_seconds [OF assms(1)] backoff_exponent_def by simp
  have "backoff_exponent attempt' \<le> 30" by (simp add: backoff_exponent_def)
  from capped_doubling_mono [of 1 _ _ maxSeconds, OF _ backoff_exponent_mono [OF assms(2)]]
    capped_doubling_mono [of 1 _ _ maxSeconds, OF _ this] assms(1)
  show ?thesis unfolding eq nanos_per_second_def by auto
qed

lemma retryBackoff_seconds:
  assumes "1 \<le> wc_RetryBaseSeconds cfg" "wc_RetryBaseSeconds cfg \<le> 2 ^ 32"
    and "1 \<le> wc_RetryMaxSeconds cfg" "wc_RetryMaxSeconds cfg \<le> 9223372036"
  shows "retryBackoff cfg attempt =
    min (wc_RetryMaxSeconds cfg) (wc_RetryBaseSeconds cfg * 2 ^ backoff_exponent attempt) * nanos_per_second"
proof -
  let ?e = "backoff_exponent attempt" and ?b = "wc_RetryBaseSeconds cfg"
  have e: "nat (if 30 < (if attempt < 1 then 1 else attempt) - 1 then 30
      else (if attempt < 1 then 1 else attempt) - 1) = ?e"
    by (auto simp: backoff_exponent_def)
  have "?e \<le> 30" by (simp add: backoff_exponent_def)
  then have "(2::int) ^ ?e \<le> 2 ^ 30" by (rule power_increasing) simp
  with assms(1,2) have "?b * 2 ^ ?e \<le> 2 ^ 32 * 2 ^ 30" by (intro mult_mono) auto
  moreover have "0 < ?b * 2 ^ ?e" using assms(1) by simp
  ultimately have w: "wrap64 (?b * 2 ^ ?e) = ?b * 2 ^ ?e"
    by (intro wrap64_id) (simp add: in_int64_def int64_min_def int64_max_def)
  have "retryBackoff cfg attempt = seconds (min (wc_RetryMaxSeconds cfg) (?b * 2 ^ ?e))"
    unfolding retryBackoff_def Let_def e w by (simp add: min_def)
  also have "\<dots> = min (wc_RetryMaxSeconds cfg) (?b * 2 ^ ?e) * nanos_per_second"
    using assms(3,4) \<open>0 < ?b * 2 ^ ?e\<close> by (intro seconds_exact) auto
  finally show ?thesis .
qed

text \<open>C35: Retry delays.  With a configuration within the range of the clock, the delay before the next
  attempt is at least one second, never decreases with the attempt number and never exceeds the configured
  maximum.\<close>

theorem retryBackoff_bounds:
  assumes "1 \<le> wc_RetryBaseSeconds cfg" "wc_RetryBaseSeconds cfg \<le> 2 ^ 32"
    and "1 \<le> wc_RetryMaxSeconds cfg" "wc_RetryMaxSeconds cfg \<le> 9223372036" "attempt \<le> attempt'"
  shows "nanos_per_second \<le> retryBackoff cfg attempt \<and>
    retryBackoff cfg attempt \<le> retryBackoff cfg attempt' \<and>
    retryBackoff cfg attempt' \<le> wc_RetryMaxSeconds cfg * nanos_per_second"
proof -
  let ?b = "wc_RetryBaseSeconds cfg" and ?m = "wc_RetryMaxSeconds cfg"
  have "min ?m (?b * 2 ^ backoff_exponent attempt) \<le> min ?m (?b * 2 ^ backoff_exponent attempt')"
    using assms(1) by (intro capped_doubling_mono backoff_exponent_mono [OF assms(5)]) simp
  moreover have "0 < ?b * 2 ^ backoff_exponent attempt" using assms(1) by simp
  then have "1 \<le> ?b * 2 ^ backoff_exponent attempt" by linarith
  ultimately show ?thesis
    unfolding retryBackoff_seconds [OF assms(1-4)] nanos_per_second_def using assms(1,3) by auto
qed

theorem retryBackoff_bounds_witness:
  "nanos_per_second \<le> retryBackoff sample_worker_cfg 1 \<and>
   retryBackoff sample_worker_cfg 1 \<le> retryBackoff sample_worker_cfg 7 \<and>
   retryBackoff sample_worker_cfg 7 \<le> 60 * nanos_per_second"
  using retryBackoff_bounds [of sample_worker_cfg 1 7]
  by (simp add: sample_worker_cfg_def)

section \<open>Error messages\<close>

text \<open>The truncation counts bytes: a message that a column takes can be cut within a character, and is
  then refused.\<close>

lemma truncation_splits_character:
  "\<exists>message. text_column message \<and> \<not> text_column (truncateWorkerError message)"
proof -
  define accents :: "nat \<Rightarrow> string" where "accents n = concat (replicate n [CHR 0xC3, CHR 0xA9])" for n
  have step: "accents (Suc n) = [CHR 0xC3, CHR 0xA9] @ accents n" for n by (simp add: accents_def)
  have len: "length (accents n) = 2 * n" for n by (induction n) (simp_all add: step, simp add: accents_def)
  have valid: "valid_utf8 (accents n @ s) \<longleftrightarrow> valid_utf8 s" for n s
    by (induction n) (simp_all add: step valid_utf8.simps(2) trailing_byte_def, simp add: accents_def)
  have split: "accents 1025 = accents 1022 @ [CHR 0xC3, CHR 0xA9] @ accents 2"
    unfolding accents_def by (simp flip: replicate_add concat_append add: numeral_eq_Suc)
  have "accents 2 = [CHR 0xC3, CHR 0xA9, CHR 0xC3, CHR 0xA9]" "accents 1022 = [CHR 0xC3, CHR 0xA9] @ accents 1021"
    using step [of 1021] by (simp_all add: accents_def numeral_eq_Suc)
  then have "TrimSpace (accents 1025) = accents 1025"
    by (simp add: split TrimSpace_def is_space_def)
  then have "truncate_error (accents 1025) = accents 1022 @ [CHR 0xC3] @ ''...''"
    by (simp add: truncate_error_def Let_def len split)
  moreover have "\<not> valid_utf8 (accents 1022 @ [CHR 0xC3] @ ''...'')"
    unfolding valid by (simp add: valid_utf8.simps(2) trailing_byte_def)
  moreover have "text_column (accents 1025)"
    using valid [of 1025 "[]"] by (simp add: text_column_def len)
  ultimately show ?thesis by (auto simp: text_column_def truncateWorkerError_def)
qed

section \<open>Timers\<close>


lemma alone_timer_update:
  assumes "world_alone s" "call (timerRepo_UpdateScheduleState i from to next) s = (Inr (), s')"
    and "from \<noteq> to"
  obtains u where "timers (w_db s') = map (\<lambda>t. if timer_in_state i from t
      then touch_timer u (set_schedule_state to next t) else t) (timers (w_db s))"
    and "\<exists>t \<in> set (timers (w_db s)). timer_in_state i from t"
proof -
  obtain ses where ses: "timerRepo_UpdateScheduleState i from to next ses (w_db s) = (Inr (), w_db s')"
    using assms(1,2) by (auto simp: call_def world_alone_def split: prod.splits)
  then obtain n where n: "transaction (update_timers (timer_in_state i from) (set_schedule_state to next)) ses (w_db s) = (Inr n, w_db s')"
    "n \<noteq> 0"
    by (auto simp: timerRepo_UpdateScheduleState_def op_wrap_def map_err_def split: prod.splits sum.splits if_splits)
  have "db_ok (w_db s)" using assms(1) by (simp add: world_alone_def world_ok_def)
  moreover have "touch_timer u (set_schedule_state to next r) \<noteq> r" for u r
    by (auto simp: touch_timer_def set_schedule_state_def dest: arg_cong [where f = td_Version])
  ultimately obtain u where
    "w_db s' = put_timers (update_rows (timer_in_state i from) (\<lambda>r. touch_timer u (set_schedule_state to next r)) (timers (w_db s))) (w_db s)"
    "n = 0 \<longleftrightarrow> (\<forall>r \<in> set (timers (w_db s)). \<not> timer_in_state i from r)"
    using update_timers_effect [OF n(1), of i] by (metis timer_in_state_def)
  with n(2) that [of u] show ?thesis by (auto simp: put_timers_def update_rows_def)
qed

lemma GetByID_alone:
  assumes "world_alone s" "call (timerRepo_GetByID i) s = (Inr (Some t), s')"
  shows "world_alone s' \<and> w_db s' = w_db s \<and> t \<in> set (timers (w_db s)) \<and> td_ID t = i"
proof -
  obtain ses where ses: "timerRepo_GetByID i ses (w_db s) = (Inr (Some t), w_db s')"
    using assms by (auto simp: call_def world_alone_def split: prod.splits)
  moreover have "world_alone s'"
    by (rule alone_call(1) [OF assms]) (metis timerRepo_GetByID_state prod.collapse)
  ultimately show ?thesis
    using timerRepo_GetByID_state [OF ses] timerRepo_GetByID_row [OF ses] by (auto simp: visible_timer_def)
qed



text \<open>Listing Timers.  Without interference \<^verbatim>\<open>List\<close> returns the requested page of the
  filtered rows, newest first, at most a page long, with the number of all such rows and the number of those
  that are ACTIVE and INACTIVE.\<close>

lemma list_returns_requested_page:
  assumes "world_alone s" "TimerService_List world_timer_repo req s = (Inr p, s')"
  shows "(let rq = list_defaults req; rows = filter (timer_list_filter rq) (timers (w_db s)) in
    lp_Total p = int (length rows) \<and>
    lp_Items p = sql_page (page_offset (lr_Page rq) (lr_PageSize rq)) (lr_PageSize rq) (newest_first rows) \<and>
    int (length (lp_Items p)) \<le> lp_PageSize p \<and>
    ls_Active (lp_Stats p) = int (length (filter (\<lambda>t. td_Status t = TimerStatusActive) rows)) \<and>
    ls_Inactive (lp_Stats p) = int (length (filter (\<lambda>t. td_Status t = TimerStatusInactive) rows)))"
proof -
  let ?rq = "list_defaults req"
  obtain items n s1 counts where l: "timerRepo_List ?rq s = (Inr (items, n), s1)"
    and c: "call (timerRepo_CountListByStatus ?rq) s1 = (Inr counts, s')"
    and p: "lp_Total p = n" "lp_Items p = items"
      "ls_Active (lp_Stats p) = count_of counts TimerStatusActive"
      "ls_Inactive (lp_Stats p) = count_of counts TimerStatusInactive"
    using assms(2) by (auto simp: TimerService_List_def world_timer_repo_def Let_def split: prod.splits sum.splits)
  have alone: "w_interfere s k d = d" for k d using assms(1) by (simp add: world_alone_def)
  have s1: "w_db s1 = w_db s \<and> w_interfere s1 = w_interfere s"
  proof -
    have "snd (list_count ?rq ses d) = d" "snd (list_find ?rq ses d) = d" for ses d
      by (rule list_queries_state)+
    with l show ?thesis
      by (auto simp: timerRepo_List_def call_def alone split: prod.splits sum.splits) (metis snd_conv)+
  qed
  have "counts = group_counts td_Status (filter (timer_list_filter ?rq) (timers (w_db s)))"
    using c s1 alone
    by (auto simp: call_def timerRepo_CountListByStatus_def op_wrap_Inr split: prod.splits dest!: query_read_Inr)
  with p timerRepo_List_alone [OF alone l] world_timers.List_page(2) [OF assms(2)] show ?thesis
    by (simp add: Let_def filter_filter)
qed

end
