(* ===== verification/Boundary_Properties.thy ===== *)
theory Boundary_Properties
  imports Service_Properties Redis_Stream
begin

text \<open>
  What crosses the program's boundaries: the callback requests of \<^verbatim>\<open>pkg/callback\<close> and the
  networks they may reach, the round trips of a Timer's callback through the stored snapshot and of an event
  through the Redis stream, trimming, and the configuration file.
\<close>

lemmas address_defs = isPrivateAddress_def IsLoopback_def IsPrivate_def IsLinkLocalUnicast_def
  IsLinkLocalMulticast_def IsUnspecified_def IsMulticast_def To4_def ip_equal_def v4_in_v6_prefix_def

lemma replicates: "replicate 4 x = [x, x, x, x]" "replicate 10 x = [x, x, x, x, x, x, x, x, x, x]"
  "replicate 12 x = [x, x, x, x, x, x, x, x, x, x, x, x]"
  by (simp_all add: numeral_eq_Suc)

section \<open>Callbacks\<close>


definition redirecting_network :: network where
  "redirecting_network = (\<lambda>dest request.
     if rq_URL request = ''http://example.com/cb'' then RedirectTo ''http://10.0.0.1/cb''
     else Answer \<lparr>rs_StatusCode = 200, rs_Body = [], rs_BodyError = None\<rparr>)"


text \<open>The redirect to a private address is refused after one connection.\<close>

lemma redirect_refused:
  "client_Do sample_net redirecting_network (cl_httpClient (NewClient sample_net 0 0 False)) 0
     \<lparr>rq_Method = ''POST'', rq_URL = ''http://example.com/cb'', rq_Body = None, rq_Header = []\<rparr> =
   Some (Inl ''callback URL must not target a private or loopback address'',
     [(''http://example.com/cb'', [93, 184, 216, 34])])"
  by (subst client_Do.simps)
     (simp add: NewClient_def redirecting_network_def CheckRedirect_def ValidateURL_def DialContext_def
       sample_net_def address_defs replicates)

lemma map_of_header_set:
  "ordered_keys h \<Longrightarrow> map_of (header_set k v h) = (map_of h)(canonical_header k \<mapsto> v)"
  by (simp add: header_set_def map_of_map_put)

lemma build_headers_map:
  "map_of (build_headers hs i) =
     (map_of (set_headers hs (header_set ''User-Agent'' ''ChronoFlow/1.0''
                (header_set ''Content-Type'' ''application/json'' []))))
       (''Idempotency-Key'' \<mapsto> ''chronoflow-execution-'' @ show_int i,
        ''X-Chronoflow-Execution-Id'' \<mapsto> show_int i)"
proof -
  let ?h = "set_headers hs (header_set ''User-Agent'' ''ChronoFlow/1.0''
                (header_set ''Content-Type'' ''application/json'' []))"
  have "ordered_keys ?h"
    by (intro ordered_set_headers ordered_header_set) simp
  note h = this ordered_header_set [OF this]
  show ?thesis
    unfolding build_headers_def Let_def map_of_header_set [OF h(1)] map_of_header_set [OF h(2)] canonical_stable ..
qed

text \<open>Every callback carries its Execution's identity.  Whatever headers the Timer configures, the
  request's \<^verbatim>\<open>Idempotency-Key\<close> and \<^verbatim>\<open>X-ChronoFlow-Execution-ID\<close> are those of the
  Execution, so the headers of two requests with the same configuration agree exactly when they are for the
  same Execution.\<close>

lemma callback_identified_by_execution:
  "map_of (build_headers hs i) ''Idempotency-Key'' = Some (''chronoflow-execution-'' @ show_int i) \<and>
   map_of (build_headers hs i) ''X-Chronoflow-Execution-Id'' = Some (show_int i) \<and>
   (build_headers hs i = build_headers hs j \<longleftrightarrow> i = j)"
proof -
  have k: "map_of (build_headers hs i) ''Idempotency-Key'' = Some (''chronoflow-execution-'' @ show_int i)"
    "map_of (build_headers hs i) ''X-Chronoflow-Execution-Id'' = Some (show_int i)" for i
    by (simp_all add: build_headers_map)
  have "i = j" if "build_headers hs i = build_headers hs j"
  proof -
    have "Some (show_int i) = Some (show_int j)"
      by (rule trans [OF k(2) [of i, symmetric] trans [OF _ k(2) [of j]]]) (simp only: that)
    then show ?thesis by simp
  qed
  with k show ?thesis by blast
qed

text \<open>What a callback returns.  The recorded body is never longer than the configured maximum, and a
  result without error comes from a URL that passed the validation and a response with a 2xx status, whose
  status and body are recorded as they are.\<close>

lemma callback_result_bounded:
  assumes "0 \<le> cl_maxResponseBody c" "Execute net c network snapshot hs i = (code, body, err)"
  shows "int (length body) \<le> cl_maxResponseBody c \<and>
    (err = None \<longrightarrow> 200 \<le> code \<and> code < 300 \<and> ValidateURL net (cs_URL snapshot) (cl_allowPrivate c) = Inr () \<and>
       (\<exists>response. client_exchange net network (cl_httpClient c) (callback_request snapshot hs i) = Inr response \<and>
          body = rs_Body response \<and> code = rs_StatusCode response))"
proof (cases "ValidateURL net (cs_URL snapshot) (cl_allowPrivate c)")
  case (Inl e)
  with assms show ?thesis by (auto simp: Execute_def)
next
  case (Inr u)
  show ?thesis
  proof (cases "nl_NewRequest net (cs_Method snapshot) (cs_URL snapshot)")
    case (Some e)
    with assms Inr show ?thesis by (auto simp: Execute_def)
  next
    case None
    show ?thesis
    proof (cases "client_exchange net network (cl_httpClient c) (callback_request snapshot hs i)")
      case (Inl e)
      with assms Inr None show ?thesis by (auto simp: Execute_def)
    next
      case r: (Inr response)
      with assms(2) Inr None have "read_response c response = (code, body, err)" by (simp add: Execute_def)
      with read_response_bound [OF this assms(1)] read_response_success [of c response code body] r Inr
      show ?thesis by auto
    qed
  qed
qed

section \<open>What a Worker sends is what the Timer said\<close>

text \<open>C22: What a Worker sends is what the Timer said.  For every accepted Timer, the request snapshot
  that the Scheduler stores with an Execution decodes in the Worker to exactly the URL, method, body and
  headers of the creation request.\<close>

theorem callback_survives_storage:
  assumes "prepare_definition env now req = Inr t" "\<And>h. cr_CallbackHeaders req = Some h \<Longrightarrow> ordered_keys h"
  shows "\<exists>snapshot. buildRequestSnapshot t = Inr snapshot \<and>
    unmarshal_snapshot snapshot = Inr \<lparr>cs_URL = cr_CallbackURL req, cs_Method = cr_CallbackMethod req,
      cs_Body = cr_CallbackBody req,
      cs_Headers = (case cr_CallbackHeaders req of None \<Rightarrow> [] | Some h \<Rightarrow> h)\<rparr>"
proof -
  let ?h = "case cr_CallbackHeaders req of None \<Rightarrow> [] | Some h \<Rightarrow> h"
  let ?json = "case cr_CallbackHeaders req of None \<Rightarrow> ''{}'' | Some h \<Rightarrow> marshal_string_map h"
  let ?c = "\<lparr>cs_URL = cr_CallbackURL req, cs_Method = cr_CallbackMethod req,
      cs_Body = cr_CallbackBody req, cs_Headers = ?h\<rparr>"
  have t: "td_CallbackURL t = cr_CallbackURL req" "td_CallbackMethod t = cr_CallbackMethod req"
    "td_CallbackBody t = cr_CallbackBody req" "td_CallbackHeaders t = ?json"
    using assms(1)
    by (auto simp: prepare_definition_def new_definition_def Let_def split: sum.splits if_splits)
  have ord: "ordered_keys ?h" using assms(2) by (simp split: option.splits)
  have "?json = marshal_string_map ?h"
    by (simp add: marshal_string_map_def split: option.splits)
  moreover have "marshal_string_map m \<noteq> []" for m by (simp add: marshal_string_map_def)
  ultimately have "buildRequestSnapshot t = Inr (marshal_snapshot ?c)"
    using unmarshal_marshal_string_map [OF ord] by (simp add: buildRequestSnapshot_def t)
  moreover have "unmarshal_snapshot (marshal_snapshot ?c) = Inr ?c"
    by (rule unmarshal_marshal_snapshot) (simp add: ord)
  ultimately show ?thesis by blast
qed

definition sample_request :: CreateTimerDefinitionRequest where
  "sample_request = \<lparr>cr_App = ''app'', cr_Name = ''job'', cr_CronExpr = ''* * * * *'',
     cr_CallbackURL = ''http://example.com/cb'', cr_CallbackMethod = ''POST'', cr_CallbackBody = ''{}'',
     cr_CallbackHeaders = Some [(''X-A'', ''1'')], cr_MisfirePolicy = MisfirePolicySkip, cr_MaxCatchUp = 0\<rparr>"

theorem callback_survives_storage_witness:
  "\<exists>t snapshot. prepare_definition sample_env 6 sample_request = Inr t \<and> buildRequestSnapshot t = Inr snapshot \<and>
     unmarshal_snapshot snapshot = Inr \<lparr>cs_URL = ''http://example.com/cb'', cs_Method = ''POST'',
       cs_Body = ''{}'', cs_Headers = [(''X-A'', ''1'')]\<rparr>"
proof -
  have "\<exists>t. prepare_definition sample_env 6 sample_request = Inr t"
    by (simp add: prepare_definition_def sample_env_def sample_request_def resolve_defs ValidateCronExpr_def
        ValidateURL_def sample_net_def known_policy_def EqualFold_def ToLower_def lower_char_def)
  then obtain t where t: "prepare_definition sample_env 6 sample_request = Inr t" by blast
  from callback_survives_storage [OF t] t show ?thesis by (simp add: sample_request_def)
qed

text \<open>C32: An event survives the stream.  What the Dispatcher publishes for an event, read back from the
  stream, decodes without error to the same event identifier, type, Execution and payload.\<close>

theorem published_event_decoded:
  assumes "in_int64 (oe_AggregateID event)"
  shows "decodeMessages [\<lparr>xm_ID = i, xm_Values = stored (event_values print event)\<rparr>] =
     [\<lparr>sm_ID = i, sm_EventID = oe_EventID event, sm_EventType = oe_EventType event,
      sm_ExecutionID = oe_AggregateID event, sm_Payload = print (oe_Payload event), sm_DecodeError = []\<rparr>]"
  by (simp add: decodeMessages_def decode_published [OF assms])

theorem published_event_decoded_witness:
  "sm_ExecutionID (hd (decodeMessages [\<lparr>xm_ID = ''1-0'',
     xm_Values = stored (event_values (\<lambda>_. ''{}'') (ready_sample 1 1))\<rparr>])) = 1"
  using published_event_decoded [of "ready_sample 1 1" "''1-0''" "\<lambda>_. ''{}''"]
  by (simp add: ready_sample_def in_int64_def int64_min_def int64_max_def)


text \<open>A Redis that keeps the entries of a stream and those that are pending.\<close>

definition least_id :: "entry_id list \<Rightarrow> entry_id \<Rightarrow> entry_id" where
  "least_id ps p = fold (\<lambda>i j. if id_le i j then i else j) ps p"

lemma least_id_least: "least_id ps p \<in> insert p (set ps) \<and> (\<forall>j \<in> insert p (set ps). id_le (least_id ps p) j)"
proof (induction ps arbitrary: p)
  case (Cons i ps)
  from Cons [of "if id_le i p then i else p"] show ?case
    unfolding least_id_def by (auto simp: id_le_def split: if_splits)
qed (simp add: least_id_def id_le_def)

definition trim_sample_redis :: "(entry_id list \<times> entry_id list) redis_client" where
  "trim_sample_redis = \<lparr>rc_XReadGroup = (\<lambda>_ _ _ _ _ q. (Inr None, q)), rc_XAutoClaim = (\<lambda>_ _ _ _ _ _ q. (Inr None, q)),
     rc_XAck = (\<lambda>_ _ _ q. (Inr 1, q)),
     rc_XPending = (\<lambda>_ _ (es, ps). (Inr \<lparr>xp_Count = int (length ps),
        xp_Lower = (case ps of [] \<Rightarrow> [] | p # ps \<Rightarrow> id_text (least_id ps p))\<rparr>, (es, ps))),
     rc_XTrimMinID = (\<lambda>_ minID (es, ps).
        case parse_stream_id minID of (ms, k) \<Rightarrow>
          let es' = filter (id_le (nat ms, nat k)) es
          in (Inr (int (length es) - int (length es')), (es', ps))),
     rc_XGroupCreateMkStream = (\<lambda>_ _ _ q. (None, q)), rc_XAdd = (\<lambda>_ _ _ q. (Inr ''1-0'', q))\<rparr>"

lemma trim_sample_documented: "redis_stream_documented trim_sample_redis stream grp fst snd"
  unfolding redis_stream_documented_def
proof (intro conjI allI impI)
  fix q :: "entry_id list \<times> entry_id list" and p q'
  assume "rc_XPending trim_sample_redis stream grp q = (Inr p, q')"
  then have p: "q' = q" "p = \<lparr>xp_Count = int (length (snd q)),
      xp_Lower = (case snd q of [] \<Rightarrow> [] | p # ps \<Rightarrow> id_text (least_id ps p))\<rparr>"
    by (auto simp: trim_sample_redis_def split: prod.splits)
  then show "fst q' = fst q" "snd q' = snd q" "xp_Count p = int (length (snd q))" by simp_all
  assume "snd q \<noteq> []"
  then obtain i ps where q: "snd q = i # ps" by (cases "snd q") auto
  from least_id_least [of ps i] show "\<exists>i \<in> set (snd q). xp_Lower p = id_text i \<and> (\<forall>j \<in> set (snd q). id_le i j)"
    by (intro bexI [of _ "least_id ps i"]) (simp_all add: p q)
next
  fix q :: "entry_id list \<times> entry_id list" and m n q'
  assume "id_fits m \<and> rc_XTrimMinID trim_sample_redis stream (id_text m) q = (Inr n, q')"
  then show "fst q' = filter (id_le m) (fst q)" "snd q' = snd q" "n = int (length (fst q)) - int (length (fst q'))"
    by (auto simp: trim_sample_redis_def id_fits_def id_text_def parse_stream_id_printed Let_def split: prod.splits)
qed

lemma trim_sample_returns: "\<exists>n q'. TrimAcknowledgedBefore trim_sample_redis stream grp cutoff q = (Inr n, q')"
  by (cases q) (simp add: TrimAcknowledgedBefore_def trim_sample_redis_def Let_def split_def)


text \<open>A configuration that loads is usable.  After normalisation every interval, batch size, limit
  and name that the services rely on is in range, and the database settings are those that were read; with
  neither a file nor environment variables the result is the table of defaults.\<close>

lemma loaded_config_sane:
  assumes "Load read unmarshal = Inr cfg'"
    and "\<And>cfg. unmarshal setDefaults = Inr cfg \<Longrightarrow> in_int64 (wc_HeartbeatSeconds (cf_Worker cfg) * 2)"
  shows "scheduler_config_ok (cf_Scheduler cfg') \<and> outbox_config_ok (cf_Outbox cfg') \<and>
    worker_config_ok (cf_Worker cfg') \<and> recovery_config_ok (cf_Recovery cfg') \<and>
    1 \<le> rt_ShutdownTimeoutSeconds (cf_Runtime cfg') \<and>
    (\<exists>cfg. unmarshal setDefaults = Inr cfg \<and> cf_Database cfg' = cf_Database cfg) \<and>
    Load (Some ConfigFileNotFoundError) Inr = Inr setDefaults"
proof -
  from assms(1) obtain cfg where cfg: "unmarshal setDefaults = Inr cfg" "cfg' = normalize cfg"
    by (auto simp: Load_def split: sum.splits option.splits read_error.splits)
  have "worker_config_ok (cf_Worker cfg')"
    using cfg assms(2) by (simp add: normalize_def normalizeWorkerConfig_ok)
  moreover have "Load (Some ConfigFileNotFoundError) Inr = Inr setDefaults"
    by (simp add: Load_def normalize_defaults)
  ultimately show ?thesis
    using cfg by (simp add: normalize_def normalizeSchedulerConfig_ok normalizeOutboxConfig_ok
        normalizeRecoveryConfig_ok normalizeRuntimeConfig_def at_least_def)
qed

definition sample_config :: Config where
  "sample_config = \<lparr>
     cf_Server = \<lparr>sv_Port = 8080, sv_Mode = ''release''\<rparr>,
     cf_Runtime = \<lparr>rt_ShutdownTimeoutSeconds = 0\<rparr>,
     cf_Database = \<lparr>dc_DSN = ''dsn'', dc_MaxOpenConns = 50, dc_MaxIdleConns = 10,
       dc_ConnMaxLifetime = 3600, dc_LogLevel = ''warn''\<rparr>,
     cf_Migrations = \<lparr>mg_Path = []\<rparr>,
     cf_Redis = \<lparr>rd_Addr = ''localhost:6379'', rd_Password = [], rd_DB = 0\<rparr>,
     cf_Scheduler = sample_scheduler\<lparr>sc_BatchSize := 0\<rparr>, cf_Outbox = sample_outbox_cfg,
     cf_Worker = sample_worker_cfg\<lparr>wc_HeartbeatSeconds := 50\<rparr>,
     cf_Recovery = \<lparr>rc_Enabled = True, rc_ScanIntervalSeconds = 0, rc_BatchSize = 0,
       rc_PendingStaleSeconds = 0, rc_CleanupIntervalMinutes = 0, rc_OutboxRetentionDays = 0,
       rc_ExecutionRetentionDays = 0, rc_StreamRetentionHours = 0\<rparr>,
     cf_Security = \<lparr>sy_APIKey = ''secret'', sy_AllowedOrigins = [], sy_AllowPrivateCallbacks = False,
       sy_MaxRequestBytes = 0\<rparr>,
     cf_Monitoring = \<lparr>mo_PrometheusURL = [], mo_GrafanaURL = []\<rparr>,
     cf_Log = \<lparr>lg_Level = ''info'', lg_Format = ''json'', lg_Output = ''stdout'', lg_FilePath = []\<rparr>\<rparr>"

end
