(* ===== verification/Execution_Query.thy ===== *)
theory Execution_Query
  imports Timer_Repo
begin

text \<open>
  \<^verbatim>\<open>internal/repository/execution_query_repo.go\<close>: the read side.  Every query joins an
  Execution with the name of its Timer (\<^verbatim>\<open>LEFT JOIN\<close> on the primary key: at most one name,
  \<^const>\<open>None\<close> for NULL).  \<^verbatim>\<open>ListExecutions\<close> is three queries outside any transaction,
  so it is defined on the shared \<^typ>\<open>world\<close>.
\<close>

section \<open>Queries\<close>

text \<open>An Execution with the column \<^verbatim>\<open>timer_name\<close>; gorm scans NULL into the empty string.\<close>

record ExecutionView =
  ev_Execution :: TimerExecution
  ev_TimerName :: string

record ExecutionListRequest =
  xr_Page :: int
  xr_PageSize :: int
  xr_TimerID :: int
  xr_TimerName :: string
  xr_Status :: string

definition joined_name :: "db \<Rightarrow> TimerExecution \<Rightarrow> string option" where
  "joined_name d e = map_option td_Name (first_row (filter (\<lambda>t. td_ID t = te_TimerID e) (timers d)))"

definition baseQuery :: "db \<Rightarrow> (TimerExecution \<times> string option) list" where
  "baseQuery d = map (\<lambda>e. (e, joined_name d e)) (executions d)"

definition view :: "TimerExecution \<times> string option \<Rightarrow> ExecutionView" where
  "view r = \<lparr>ev_Execution = fst r, ev_TimerName = (case snd r of None \<Rightarrow> [] | Some n \<Rightarrow> n)\<rparr>"

definition execution_list_filter ::
  "ExecutionListRequest \<Rightarrow> TimerExecution \<times> string option \<Rightarrow> bool" where
  "execution_list_filter req r \<longleftrightarrow>
     (0 < xr_TimerID req \<longrightarrow> te_TimerID (fst r) = xr_TimerID req) \<and>
     (xr_TimerName req \<noteq> [] \<longrightarrow>
        (case snd r of None \<Rightarrow> False | Some n \<Rightarrow> like (keyword_pattern (xr_TimerName req)) n)) \<and>
     (xr_Status req \<noteq> [] \<longrightarrow> execution_status_text (te_Status (fst r)) = xr_Status req)"

definition filteredQuery :: "ExecutionListRequest \<Rightarrow> db \<Rightarrow> (TimerExecution \<times> string option) list" where
  "filteredQuery req d = filter (execution_list_filter req) (baseQuery d)"

definition GetExecutionByID :: "int \<Rightarrow> ExecutionView option db_op" where
  "GetExecutionByID i =
     op_wrap ''get execution''
       (query (read_stmt (\<lambda>d. map_option view
          (first_row (filter (\<lambda>r. te_ID (fst r) = i) (baseQuery d))))))"

definition count_executions :: "ExecutionListRequest \<Rightarrow> int db_op" where
  "count_executions req =
     op_wrap ''count executions'' (query (read_stmt (\<lambda>d. int (length (filteredQuery req d)))))"

text \<open>\<^verbatim>\<open>ORDER BY timer_executions.id DESC\<close>: the rows are kept in key order.\<close>

definition find_executions :: "ExecutionListRequest \<Rightarrow> ExecutionView list db_op" where
  "find_executions req =
     op_wrap ''list executions''
       (query (read_stmt (\<lambda>d. map view
          (sql_page (page_offset (xr_Page req) (xr_PageSize req)) (xr_PageSize req)
             (rev (filteredQuery req d))))))"

definition count_execution_statuses :: "ExecutionListRequest \<Rightarrow> (ExecutionStatus \<Rightarrow> int option) db_op" where
  "count_execution_statuses req =
     op_wrap ''count execution statuses''
       (query (read_stmt (\<lambda>d. group_counts (\<lambda>r. te_Status (fst r)) (filteredQuery req d))))"

definition ListExecutions ::
  "ExecutionListRequest \<Rightarrow> world \<Rightarrow>
     (ExecutionView list \<times> int \<times> (ExecutionStatus \<Rightarrow> int option)) result \<times> world" where
  "ListExecutions req w =
     (case call (count_executions req) w of
        (Inl e, w1) \<Rightarrow> (Inl e, w1)
      | (Inr total_rows, w1) \<Rightarrow>
     (case call (find_executions req) w1 of
        (Inl e, w2) \<Rightarrow> (Inl e, w2)
      | (Inr items, w2) \<Rightarrow>
     (case call (count_execution_statuses req) w2 of
        (Inl e, w3) \<Rightarrow> (Inl e, w3)
      | (Inr stats, w3) \<Rightarrow> (Inr (items, total_rows, stats), w3))))"

definition GetExecutionsByTimerID :: "int \<Rightarrow> int \<Rightarrow> ExecutionView list db_op" where
  "GetExecutionsByTimerID timerID limit =
     op_wrap ''list timer executions''
       (query (read_stmt (\<lambda>d. map view (list_take limit
          (sort_key (\<lambda>r. - te_ScheduledAt (fst r))
             (filter (\<lambda>r. te_TimerID (fst r) = timerID) (baseQuery d)))))))"

section \<open>The interface\<close>

record 's ExecutionQueryRepository =
  qr_GetExecutionByID :: "int \<Rightarrow> 's \<Rightarrow> ExecutionView option result \<times> 's"
  qr_ListExecutions :: "ExecutionListRequest \<Rightarrow> 's \<Rightarrow>
    (ExecutionView list \<times> int \<times> (ExecutionStatus \<Rightarrow> int option)) result \<times> 's"
  qr_GetExecutionsByTimerID :: "int \<Rightarrow> int \<Rightarrow> 's \<Rightarrow> ExecutionView list result \<times> 's"

locale execution_queries =
  fixes repo :: "'s ExecutionQueryRepository" and inv :: "'s \<Rightarrow> bool"
  assumes get_inv: "inv s \<Longrightarrow> inv (snd (qr_GetExecutionByID repo i s))"
    and get_row: "qr_GetExecutionByID repo i s = (Inr (Some v), s') \<Longrightarrow> te_ID (ev_Execution v) = i"
    and list_inv: "inv s \<Longrightarrow> inv (snd (qr_ListExecutions repo req s))"
    and list_page: "qr_ListExecutions repo req s = (Inr (items, n, stats), s') \<Longrightarrow>
      0 \<le> xr_PageSize req \<Longrightarrow> int (length items) \<le> xr_PageSize req"
    and recent_inv: "inv s \<Longrightarrow> inv (snd (qr_GetExecutionsByTimerID repo i k s))"
    and recent_rows: "qr_GetExecutionsByTimerID repo i k s = (Inr items, s') \<Longrightarrow> 0 \<le> k \<Longrightarrow>
      int (length items) \<le> k \<and> (\<forall>v \<in> set items. te_TimerID (ev_Execution v) = i)"

section \<open>The SQL queries meet it\<close>

lemma read_op_Inr:
  "op_wrap ctx (query (read_stmt f)) ses d = (Inr a, d') \<Longrightarrow> a = f d \<and> d' = d"
  by (auto simp: op_wrap_Inr dest!: query_read_Inr)

lemma read_op_state [simp]: "snd (op_wrap ctx (query (read_stmt f)) ses d) = d"
  by (simp add: op_wrap_state)

lemma query_states [simp]:
  "snd (GetExecutionByID i ses d) = d" "snd (count_executions req ses d) = d"
  "snd (find_executions req ses d) = d" "snd (count_execution_statuses req ses d) = d"
  "snd (GetExecutionsByTimerID i k ses d) = d"
  by (simp_all add: GetExecutionByID_def count_executions_def find_executions_def
      count_execution_statuses_def GetExecutionsByTimerID_def)

lemma ListExecutions_ok: "world_ok w \<Longrightarrow> world_ok (snd (ListExecutions req w))"
  unfolding ListExecutions_def
  by (rule keeps [where I = world_ok] snd_call_preserves | assumption | simp)+

lemma call_result:
  assumes "call m w = (Inr a, w')"
  obtains ses d where "m ses d = (Inr a, w_db w')"
  using assms by (auto simp: call_def split: prod.splits)

lemma ListExecutions_items:
  assumes "ListExecutions req w = (Inr (items, n, stats), w')" "0 \<le> xr_PageSize req"
  shows "int (length items) \<le> xr_PageSize req"
proof -
  from assms(1) obtain w1 w2 where "call (find_executions req) w1 = (Inr items, w2)"
    by (auto simp: ListExecutions_def split: prod.splits sum.splits)
  then obtain ses d where "find_executions req ses d = (Inr items, w_db w2)" by (rule call_result)
  with assms(2) show ?thesis
    by (auto simp: find_executions_def sql_page_def list_take_def dest!: read_op_Inr)
qed

definition world_query_repo :: "world ExecutionQueryRepository" where
  "world_query_repo = \<lparr>
     qr_GetExecutionByID = (\<lambda>i. call (GetExecutionByID i)),
     qr_ListExecutions = ListExecutions,
     qr_GetExecutionsByTimerID = (\<lambda>i k. call (GetExecutionsByTimerID i k))\<rparr>"

interpretation world_queries: execution_queries world_query_repo world_ok
proof
  fix s s' i req k v items n stats
  show "world_ok s \<Longrightarrow> world_ok (snd (qr_GetExecutionByID world_query_repo i s))"
    "world_ok s \<Longrightarrow> world_ok (snd (qr_ListExecutions world_query_repo req s))"
    "world_ok s \<Longrightarrow> world_ok (snd (qr_GetExecutionsByTimerID world_query_repo i k s))"
    by (simp_all add: world_query_repo_def snd_call_preserves ListExecutions_ok)
  show "te_ID (ev_Execution v) = i" if g: "qr_GetExecutionByID world_query_repo i s = (Inr (Some v), s')"
  proof -
    from g obtain ses d where "GetExecutionByID i ses d = (Inr (Some v), w_db s')"
      by (auto simp: world_query_repo_def elim: call_result)
    then obtain r where r: "first_row (filter (\<lambda>r. te_ID (fst r) = i) (baseQuery d)) = Some r" "v = view r"
      by (cases "first_row (filter (\<lambda>r. te_ID (fst r) = i) (baseQuery d))")
        (auto simp: GetExecutionByID_def dest!: read_op_Inr)
    from first_row_filter [OF r(1)] r(2) show ?thesis by (simp add: view_def)
  qed
  show "int (length items) \<le> xr_PageSize req"
    if "qr_ListExecutions world_query_repo req s = (Inr (items, n, stats), s')" "0 \<le> xr_PageSize req"
    using that ListExecutions_items by (simp add: world_query_repo_def)
  show "int (length items) \<le> k \<and> (\<forall>v \<in> set items. te_TimerID (ev_Execution v) = i)"
    if g: "qr_GetExecutionsByTimerID world_query_repo i k s = (Inr items, s')" and k: "0 \<le> k"
  proof -
    from g obtain ses d where "GetExecutionsByTimerID i k ses d = (Inr items, w_db s')"
      by (auto simp: world_query_repo_def elim: call_result)
    with k show ?thesis
      by (auto simp: GetExecutionsByTimerID_def view_def list_take_def
          dest!: read_op_Inr in_set_takeD)
  qed
qed

section \<open>Pages\<close>

text \<open>Consecutive pages put together are the rows themselves.\<close>

lemma sql_page_plain:
  assumes "0 \<le> k" "1 \<le> n" "in_int64 (k * n)"
  shows "sql_page (page_offset (k + 1) n) n rs = take (nat n) (drop (nat k * nat n) rs)"
proof -
  have "k * 1 \<le> k * n" using assms(1,2) by (intro mult_left_mono) auto
  with assms have "in_int64 k" by (simp add: in_int64_def int64_min_def)
  with assms(3) have "page_offset (k + 1) n = k * n" by (simp add: page_offset_def wrap64_id)
  moreover have "nat (k * n) = nat k * nat n" using assms(1) by (rule nat_mult_distrib)
  moreover have "0 \<le> k * n" using assms(1,2) by simp
  ultimately show ?thesis using assms(2) by (auto simp: sql_page_def list_take_def)
qed

lemma take_pages: "concat (map (\<lambda>k. take n (drop (k * n) rs)) [0..<m]) = take (m * n) rs"
proof (induction m)
  case (Suc m)
  have "take (m * n) rs @ take n (drop (m * n) rs) = take (m * n + n) rs" by (simp add: take_add)
  with Suc show ?case by (simp add: add.commute)
qed simp

lemma pages_together:
  assumes "1 \<le> n" "in_int64 (int m * n)"
  shows "concat (map (\<lambda>k. sql_page (page_offset (int k + 1) n) n rs) [0..<m]) = take (m * nat n) rs"
proof -
  have "sql_page (page_offset (int k + 1) n) n rs = take (nat n) (drop (k * nat n) rs)" if "k < m" for k
  proof -
    have "int k * n \<le> int m * n" using that assms(1) by (intro mult_right_mono) auto
    moreover have "0 \<le> int k * n" using assms(1) by simp
    ultimately have "in_int64 (int k * n)" using assms(2) by (simp add: in_int64_def int64_min_def)
    from sql_page_plain [OF _ assms(1) this] show ?thesis by simp
  qed
  then have pages: "map (\<lambda>k. sql_page (page_offset (int k + 1) n) n rs) [0..<m] =
      map (\<lambda>k. take (nat n) (drop (k * nat n) rs)) [0..<m]"
    by (intro map_cong) auto
  show ?thesis unfolding pages by (rule take_pages)
qed

end
