(* ===== verification/Api_Handlers.thy ===== *)
theory Api_Handlers
  imports Timer_Service Execution_Query
begin

text \<open>
  The handlers of \<^verbatim>\<open>internal/handler/timer_handler.go\<close> and
  \<^verbatim>\<open>execution_handler.go\<close>.  What gin does is a parameter (\<open>gin_lib\<close>): decoding the
  body or the query into a request structure, the \<^verbatim>\<open>url\<close> check of its validator, and the
  wording of a validation error.  The other checks are the \<^verbatim>\<open>binding\<close> tags of the request
  structures, written out.  A response is its status and the fields of the JSON object.
\<close>

section \<open>Requests and responses\<close>

record api_request =
  ap_Method :: string
  ap_Path :: string
  ap_Header :: "string \<Rightarrow> string"
  ap_Query :: "string \<Rightarrow> string"
  ap_Body :: string
  ap_BodyLimit :: "int option"

text \<open>The field \<^verbatim>\<open>data\<close>; \<open>'x\<close> stands for the monitoring data.\<close>

datatype 'x api_data =
    TimerData TimerDefinition
  | TimerPage TimerDefinitionListResponse
  | ExecutionData ExecutionView
  | ExecutionPage int int int "ExecutionView list" "ExecutionStatus \<Rightarrow> int option"
  | ExecutionItems "ExecutionView list"
  | OtherData 'x

record 'x api_response =
  as_Status :: int
  as_Headers :: "(string \<times> string) list"
  as_Message :: "string option"
  as_Data :: "'x api_data option"

definition respond :: "int \<Rightarrow> string option \<Rightarrow> 'x api_data option \<Rightarrow> 'x api_response" where
  "respond status message data' =
     \<lparr>as_Status = status, as_Headers = [], as_Message = message, as_Data = data'\<rparr>"

definition fail_with :: "int \<Rightarrow> string \<Rightarrow> 'x api_response" where
  "fail_with status message = respond status (Some message) None"

record gin_lib =
  gl_DecodeCreate :: "api_request \<Rightarrow> CreateTimerDefinitionRequest result"
  gl_DecodeTimerList :: "api_request \<Rightarrow> TimerDefinitionListRequest result"
  gl_DecodeExecutionList :: "api_request \<Rightarrow> ExecutionListRequest result"
  gl_ValidURL :: "string \<Rightarrow> bool"
  gl_ValidationError :: "api_request \<Rightarrow> go_error"

section \<open>Binding tags\<close>

definition valid_create :: "gin_lib \<Rightarrow> CreateTimerDefinitionRequest \<Rightarrow> bool" where
  "valid_create gin req \<longleftrightarrow>
     cr_App req \<noteq> [] \<and>
     cr_Name req \<noteq> [] \<and> 1 \<le> char_count (cr_Name req) \<and> char_count (cr_Name req) \<le> 128 \<and>
     cr_CronExpr req \<noteq> [] \<and>
     cr_CallbackURL req \<noteq> [] \<and> gl_ValidURL gin (cr_CallbackURL req) \<and>
     cr_CallbackMethod req \<in> {''GET'', ''POST'', ''PUT'', ''DELETE'', ''PATCH''} \<and>
     (cr_MaxCatchUp req \<noteq> 0 \<longrightarrow> 1 \<le> cr_MaxCatchUp req \<and> cr_MaxCatchUp req \<le> 1000)"

definition valid_timer_list :: "TimerDefinitionListRequest \<Rightarrow> bool" where
  "valid_timer_list req \<longleftrightarrow> 1 \<le> lr_Page req \<and> 1 \<le> lr_PageSize req \<and> lr_PageSize req \<le> 100"

definition valid_execution_list :: "ExecutionListRequest \<Rightarrow> bool" where
  "valid_execution_list req \<longleftrightarrow> 1 \<le> xr_Page req \<and> 1 \<le> xr_PageSize req \<and> xr_PageSize req \<le> 100"

text \<open>\<^verbatim>\<open>ShouldBindJSON\<close> and \<^verbatim>\<open>ShouldBindQuery\<close>: decode, then validate.\<close>

definition should_bind ::
  "(api_request \<Rightarrow> 'r result) \<Rightarrow> ('r \<Rightarrow> bool) \<Rightarrow> (api_request \<Rightarrow> go_error) \<Rightarrow> api_request \<Rightarrow> 'r result" where
  "should_bind decode valid message c =
     (case decode c of
        Inl e \<Rightarrow> Inl e
      | Inr req \<Rightarrow> if valid req then Inr req else Inl (message c))"

section \<open>Timers\<close>

definition CreateTimer ::
  "gin_lib \<Rightarrow> 's TimerDefinitionRepository \<Rightarrow> 'c timer_env \<Rightarrow> time \<Rightarrow> api_request \<Rightarrow> 's \<Rightarrow>
     'x api_response \<times> 's" where
  "CreateTimer gin repo env now c s =
     (case should_bind (gl_DecodeCreate gin) (valid_create gin) (gl_ValidationError gin) c of
        Inl e \<Rightarrow> (fail_with 400 (''invalid request parameters: '' @ e), s)
      | Inr req \<Rightarrow>
          (case TimerService_Create repo env now req s of
             (Inl e, s') \<Rightarrow> (fail_with 400 e, s')
           | (Inr def, s') \<Rightarrow> (respond 201 (Some ''timer created'') (Some (TimerData def)), s')))"

text \<open>The parameter \<^verbatim>\<open>:id\<close> of the path.\<close>

definition parseID :: "string \<Rightarrow> int result" where
  "parseID param = ParseInt param"

definition GetTimer ::
  "'s TimerDefinitionRepository \<Rightarrow> string \<Rightarrow> 's \<Rightarrow> 'x api_response \<times> 's" where
  "GetTimer repo param s =
     (case parseID param of
        Inl _ \<Rightarrow> (fail_with 400 ''invalid ID'', s)
      | Inr i \<Rightarrow>
          (case TimerService_GetByID repo i s of
             (Inl e, s') \<Rightarrow> (fail_with 404 e, s')
           | (Inr def, s') \<Rightarrow> (respond 200 None (Some (TimerData def)), s')))"

definition DeleteTimer ::
  "'s TimerDefinitionRepository \<Rightarrow> string \<Rightarrow> 's \<Rightarrow> 'x api_response \<times> 's" where
  "DeleteTimer repo param s =
     (case parseID param of
        Inl _ \<Rightarrow> (fail_with 400 ''invalid ID'', s)
      | Inr i \<Rightarrow>
          (case TimerService_Delete repo i s of
             (Inl e, s') \<Rightarrow> (fail_with 500 e, s')
           | (Inr _, s') \<Rightarrow> (respond 200 (Some ''timer deleted'') None, s')))"

definition ListTimers ::
  "gin_lib \<Rightarrow> 's TimerDefinitionRepository \<Rightarrow> api_request \<Rightarrow> 's \<Rightarrow> 'x api_response \<times> 's" where
  "ListTimers gin repo c s =
     (case should_bind (gl_DecodeTimerList gin) valid_timer_list (gl_ValidationError gin) c of
        Inl e \<Rightarrow> (fail_with 400 (''invalid request parameters: '' @ e), s)
      | Inr req \<Rightarrow>
          (case TimerService_List repo req s of
             (Inl e, s') \<Rightarrow> (fail_with 500 e, s')
           | (Inr resp, s') \<Rightarrow> (respond 200 None (Some (TimerPage resp)), s')))"

definition ActivateTimer ::
  "'s TimerDefinitionRepository \<Rightarrow> 'c timer_env \<Rightarrow> time \<Rightarrow> string \<Rightarrow> 's \<Rightarrow> 'x api_response \<times> 's" where
  "ActivateTimer repo env now param s =
     (case parseID param of
        Inl _ \<Rightarrow> (fail_with 400 ''invalid ID'', s)
      | Inr i \<Rightarrow>
          (case TimerService_Activate repo env now i s of
             (Inl e, s') \<Rightarrow> (fail_with 400 e, s')
           | (Inr _, s') \<Rightarrow> (respond 200 (Some ''timer activated'') None, s')))"

definition DeactivateTimer ::
  "'s TimerDefinitionRepository \<Rightarrow> string \<Rightarrow> 's \<Rightarrow> 'x api_response \<times> 's" where
  "DeactivateTimer repo param s =
     (case parseID param of
        Inl _ \<Rightarrow> (fail_with 400 ''invalid ID'', s)
      | Inr i \<Rightarrow>
          (case TimerService_Deactivate repo i s of
             (Inl e, s') \<Rightarrow> (fail_with 400 e, s')
           | (Inr _, s') \<Rightarrow> (respond 200 (Some ''timer deactivated'') None, s')))"

section \<open>Executions\<close>

definition execution_list_defaults :: "ExecutionListRequest \<Rightarrow> ExecutionListRequest" where
  "execution_list_defaults req = req\<lparr>
     xr_Page := (if xr_Page req < 1 then 1 else xr_Page req),
     xr_PageSize := (if xr_PageSize req < 1 then 20 else xr_PageSize req)\<rparr>"

definition ExecutionHandler_List ::
  "gin_lib \<Rightarrow> 's ExecutionQueryRepository \<Rightarrow> api_request \<Rightarrow> 's \<Rightarrow> 'x api_response \<times> 's" where
  "ExecutionHandler_List gin repo c s =
     (case should_bind (gl_DecodeExecutionList gin) valid_execution_list (gl_ValidationError gin) c of
        Inl e \<Rightarrow> (fail_with 400 e, s)
      | Inr req0 \<Rightarrow>
          (let req = execution_list_defaults req0 in
           case qr_ListExecutions repo req s of
             (Inl e, s') \<Rightarrow> (fail_with 500 e, s')
           | (Inr (items, total_rows, stats), s') \<Rightarrow>
               (respond 200 None
                  (Some (ExecutionPage total_rows (xr_Page req) (xr_PageSize req) items stats)), s')))"

definition ExecutionHandler_Get ::
  "'s ExecutionQueryRepository \<Rightarrow> string \<Rightarrow> 's \<Rightarrow> 'x api_response \<times> 's" where
  "ExecutionHandler_Get repo param s =
     (case ParseInt param of
        Inl _ \<Rightarrow> (fail_with 400 ''invalid ID'', s)
      | Inr i \<Rightarrow>
          (case qr_GetExecutionByID repo i s of
             (Inl e, s') \<Rightarrow> (fail_with 500 e, s')
           | (Inr None, s') \<Rightarrow> (fail_with 404 ''execution does not exist'', s')
           | (Inr (Some execution), s') \<Rightarrow> (respond 200 None (Some (ExecutionData execution)), s')))"

text \<open>\<^verbatim>\<open>int\<close> is 64 bits wide, so \<^verbatim>\<open>Atoi\<close> accepts what \<^verbatim>\<open>ParseInt\<close>
  does.\<close>

definition recent_limit :: "string \<Rightarrow> int" where
  "recent_limit raw =
     (if raw = [] then 20
      else case ParseInt raw of
             Inl _ \<Rightarrow> 20
           | Inr parsed \<Rightarrow> if 0 < parsed \<and> parsed \<le> 100 then parsed else 20)"

definition ExecutionHandler_GetByTimer ::
  "'s ExecutionQueryRepository \<Rightarrow> string \<Rightarrow> api_request \<Rightarrow> 's \<Rightarrow> 'x api_response \<times> 's" where
  "ExecutionHandler_GetByTimer repo param c s =
     (case ParseInt param of
        Inl _ \<Rightarrow> (fail_with 400 ''invalid ID'', s)
      | Inr timerID \<Rightarrow>
          (case qr_GetExecutionsByTimerID repo timerID (recent_limit (ap_Query c ''limit'')) s of
             (Inl e, s') \<Rightarrow> (fail_with 500 e, s')
           | (Inr items, s') \<Rightarrow> (respond 200 None (Some (ExecutionItems items)), s')))"

section \<open>What the handlers keep and return\<close>

text \<open>The invariant goes with the state, which is the second component of what a handler returns.\<close>

lemma handler_case:
  assumes "I (snd m)" "\<And>r s. m = (r, s) \<Longrightarrow> snd (f r s) = s"
  shows "I (snd (case m of (r, s) \<Rightarrow> f r s))"
  using assms by (cases m) auto

context timer_repository
begin

lemma CreateTimer_inv: "inv s \<Longrightarrow> inv (snd (CreateTimer gin repo env now c s))"
  unfolding CreateTimer_def
  by (auto intro!: handler_case [where I = inv] Create_inv split: sum.splits)

lemma GetTimer_inv: "inv s \<Longrightarrow> inv (snd (GetTimer repo param s))"
  unfolding GetTimer_def by (auto intro!: handler_case [where I = inv] GetByID_inv split: sum.splits)

lemma DeleteTimer_inv: "inv s \<Longrightarrow> inv (snd (DeleteTimer repo param s))"
  unfolding DeleteTimer_def by (auto intro!: handler_case [where I = inv] Delete_inv split: sum.splits)

lemma ListTimers_inv: "inv s \<Longrightarrow> inv (snd (ListTimers gin repo c s))"
  unfolding ListTimers_def by (auto intro!: handler_case [where I = inv] List_inv split: sum.splits)

lemma ActivateTimer_inv: "inv s \<Longrightarrow> inv (snd (ActivateTimer repo env now param s))"
  unfolding ActivateTimer_def by (auto intro!: handler_case [where I = inv] Activate_inv split: sum.splits)

lemma DeactivateTimer_inv: "inv s \<Longrightarrow> inv (snd (DeactivateTimer repo param s))"
  unfolding DeactivateTimer_def by (auto intro!: handler_case [where I = inv] Deactivate_inv split: sum.splits)

end

context execution_queries
begin

lemma List_inv: "inv s \<Longrightarrow> inv (snd (ExecutionHandler_List gin repo c s))"
  unfolding ExecutionHandler_List_def Let_def
  by (auto split: sum.splits) (rule handler_case [where I = inv]; auto intro: list_inv split: sum.splits)

lemma Get_inv: "inv s \<Longrightarrow> inv (snd (ExecutionHandler_Get repo param s))"
  unfolding ExecutionHandler_Get_def
  by (auto intro!: handler_case [where I = inv] get_inv split: sum.splits option.splits)

lemma GetByTimer_inv: "inv s \<Longrightarrow> inv (snd (ExecutionHandler_GetByTimer repo param c s))"
  unfolding ExecutionHandler_GetByTimer_def
  by (auto intro!: handler_case [where I = inv] recent_inv split: sum.splits)

end

lemma recent_limit_range: "1 \<le> recent_limit raw \<and> recent_limit raw \<le> 100"
  by (auto simp: recent_limit_def split: sum.splits)

context execution_queries
begin

lemma GetByTimer_items:
  assumes "ExecutionHandler_GetByTimer repo param c s = (resp, s')"
    and "as_Data resp = Some (ExecutionItems items)"
  shows "length items \<le> 100 \<and> (\<exists>i. ParseInt param = Inr i \<and> (\<forall>v \<in> set items. te_TimerID (ev_Execution v) = i))"
proof -
  from assms obtain i where i: "ParseInt param = Inr i"
    and q: "qr_GetExecutionsByTimerID repo i (recent_limit (ap_Query c ''limit'')) s = (Inr items, s')"
    by (auto simp: ExecutionHandler_GetByTimer_def fail_with_def respond_def split: sum.splits prod.splits)
  from recent_rows [OF q] recent_limit_range [of "ap_Query c ''limit''"] i show ?thesis by auto
qed

end

end
