(* ===== verification/Monitoring_Api.thy ===== *)
theory Monitoring_Api
  imports Api_Handlers "HOL-Library.AList"
begin

text \<open>
  \<^verbatim>\<open>internal/handler/monitoring_handler.go\<close>: the counts of the monitoring page and the
  history series that it reads from Prometheus.  Floating point numbers, JSON decoding of a response
  body, URL parsing and the HTTP exchange are parameters; the queries run concurrently, so the handler
  is defined on the list of their outcomes in the order in which they finished.
\<close>

section \<open>The summary\<close>

text \<open>The sum over the entries of a Go map from a status to its count.\<close>

definition sum_stats :: "('k \<Rightarrow> int option) \<Rightarrow> int" where
  "sum_stats stats = (\<Sum>k \<in> dom stats. count_of stats k)"

definition sumTimerStats :: "(TimerStatus \<Rightarrow> int option) \<Rightarrow> int" where
  "sumTimerStats stats = sum_stats stats"

definition sumExecutionStats :: "(ExecutionStatus \<Rightarrow> int option) \<Rightarrow> int" where
  "sumExecutionStats stats = sum_stats stats"

record summary_timers =
  st_total :: int
  st_active :: int
  st_inactive :: int
  st_deleted :: int

record summary_executions =
  se_total :: int
  se_pending :: int
  se_running :: int
  se_retry_wait :: int
  se_success :: int
  se_failed :: int
  se_cancelled :: int

record 'f historyPoint =
  hp_Timestamp :: int
  hp_Value :: 'f

datatype 'f monitoring_data =
    Summary summary_timers summary_executions
  | History int int "(string \<times> 'f historyPoint list) list"

definition summary_of ::
  "(TimerStatus \<Rightarrow> int option) \<Rightarrow> (ExecutionStatus \<Rightarrow> int option) \<Rightarrow> 'f monitoring_data" where
  "summary_of ts es =
     Summary
       \<lparr>st_total = sumTimerStats ts,
        st_active = count_of ts TimerStatusActive,
        st_inactive = count_of ts TimerStatusInactive,
        st_deleted = count_of ts TimerStatusDeleted\<rparr>
       \<lparr>se_total = sumExecutionStats es,
        se_pending = count_of es ExecutionStatusPending,
        se_running = count_of es ExecutionStatusRunning,
        se_retry_wait = count_of es ExecutionStatusRetryWait,
        se_success = count_of es ExecutionStatusSuccess,
        se_failed = count_of es ExecutionStatusFailed,
        se_cancelled = count_of es ExecutionStatusCancelled\<rparr>"

definition first_execution_page :: ExecutionListRequest where
  "first_execution_page =
     \<lparr>xr_Page = 1, xr_PageSize = 1, xr_TimerID = 0, xr_TimerName = [], xr_Status = []\<rparr>"

definition GetSummary ::
  "'s TimerDefinitionRepository \<Rightarrow> 's ExecutionQueryRepository \<Rightarrow> 's \<Rightarrow>
     'f monitoring_data api_response \<times> 's" where
  "GetSummary defRepo executionRepo s =
     (case tr_CountByStatus defRepo s of
        (Inl e, s') \<Rightarrow> (fail_with 500 e, s')
      | (Inr timerStats, s') \<Rightarrow>
          (case qr_ListExecutions executionRepo first_execution_page s' of
             (Inl e, s'') \<Rightarrow> (fail_with 500 e, s'')
           | (Inr (_, _, executionStats), s'') \<Rightarrow>
               (respond 200 None (Some (OtherData (summary_of timerStats executionStats))), s'')))"

section \<open>History\<close>

definition historyWindow :: "string \<Rightarrow> int \<times> int" where
  "historyWindow raw =
     (if raw = ''15'' then (15, 10)
      else if raw = ''360'' then (360, 120)
      else if raw = ''1440'' then (1440, 300)
      else (60, 30))"

definition historyQueries :: "(string \<times> string) list" where
  "historyQueries =
     [(''success_rate'',
       ''100 * sum(chronoflow_executions{status=\"SUCCESS\"}) / clamp_min(sum(chronoflow_executions{status=~\"SUCCESS|FAILED\"}), 1)''),
      (''callback_p95_ms'',
       ''1000 * histogram_quantile(0.95, sum by (le) (rate(chronoflow_worker_execution_duration_seconds_bucket[5m])))''),
      (''abnormal_executions'', ''sum(chronoflow_executions{status=~\"PENDING|RUNNING|RETRY_WAIT\"})'')]"

text \<open>The decoded response, with the raw values of each point left as JSON texts.\<close>

record prometheusRangeResponse =
  pr_Status :: string
  pr_Result :: "string list list list"
  pr_Error :: string

text \<open>\<open>fl_Number\<close> and \<open>fl_Text\<close> decode one raw value, \<open>fl_Parse\<close> is
  \<^verbatim>\<open>ParseFloat\<close>, \<open>fl_Int\<close> the conversion to \<^verbatim>\<open>int64\<close>;
  \<open>fl_Finite\<close> is false for NaN and the infinities.\<close>

record 'f float_lib =
  fl_Number :: "string \<Rightarrow> 'f option"
  fl_Text :: "string \<Rightarrow> string option"
  fl_Parse :: "string \<Rightarrow> 'f option"
  fl_Finite :: "'f \<Rightarrow> bool"
  fl_Int :: "'f \<Rightarrow> int"

record prom_request =
  pq_Endpoint :: string
  pq_Query :: string
  pq_Start :: int
  pq_End :: int
  pq_Step :: int

record prom_lib =
  pl_ParseURL :: "string \<Rightarrow> go_error option"
  pl_NewRequest :: "prom_request \<Rightarrow> go_error option"
  pl_Do :: "prom_request \<Rightarrow> (int \<times> prometheusRangeResponse result) result"

definition trim_slashes :: "string \<Rightarrow> string" where
  "trim_slashes s = rev (dropWhile (\<lambda>c. c = CHR ''/'') (rev s))"

definition point_of :: "'f float_lib \<Rightarrow> string list \<Rightarrow> 'f historyPoint option" where
  "point_of fl rawPoint =
     (case rawPoint of
        [a, b] \<Rightarrow>
          (case fl_Number fl a of
             None \<Rightarrow> None
           | Some timestamp \<Rightarrow>
               (case fl_Text fl b of
                  None \<Rightarrow> None
                | Some valueText \<Rightarrow>
                    (case fl_Parse fl valueText of
                       None \<Rightarrow> None
                     | Some value \<Rightarrow>
                         if fl_Finite fl value
                         then Some \<lparr>hp_Timestamp = fl_Int fl timestamp, hp_Value = value\<rparr>
                         else None)))
      | _ \<Rightarrow> None)"

definition queryRange ::
  "prom_lib \<Rightarrow> 'f float_lib \<Rightarrow> string \<Rightarrow> string \<Rightarrow> time \<Rightarrow> time \<Rightarrow> int \<Rightarrow> 'f historyPoint list result" where
  "queryRange lib fl promURL query' start end' stepSeconds =
     (let endpoint = trim_slashes promURL @ ''/api/v1/query_range'' in
      case pl_ParseURL lib endpoint of
        Some e \<Rightarrow> Inl (wrap_err ''invalid Prometheus URL'' e)
      | None \<Rightarrow>
          (let req = \<lparr>pq_Endpoint = endpoint, pq_Query = query', pq_Start = start div nanos_per_second,
                      pq_End = end' div nanos_per_second, pq_Step = stepSeconds\<rparr> in
           case pl_NewRequest lib req of
             Some e \<Rightarrow> Inl (wrap_err ''create Prometheus query'' e)
           | None \<Rightarrow>
               (case pl_Do lib req of
                  Inl e \<Rightarrow> Inl (wrap_err ''query Prometheus history'' e)
                | Inr (status, decoded) \<Rightarrow>
                    if status \<noteq> 200 then
                      Inl (''Prometheus history returned status '' @ show_int status)
                    else
                      (case decoded of
                         Inl e \<Rightarrow> Inl (wrap_err ''decode Prometheus history'' e)
                       | Inr res \<Rightarrow>
                           if pr_Status res \<noteq> ''success'' then
                             Inl (''Prometheus query failed: '' @ pr_Error res)
                           else
                             (case pr_Result res of
                                [] \<Rightarrow> Inr []
                              | series # _ \<Rightarrow> Inr (List.map_filter (point_of fl) series))))))"

text \<open>The goroutines take the mutex one after the other, in the order of the list: the first error is
  kept; every other outcome stores its points (none, for a later error).\<close>

fun collect_series ::
  "(string \<times> 'p list result) list \<Rightarrow> go_error option \<Rightarrow> (string \<times> 'p list) list \<Rightarrow>
     go_error option \<times> (string \<times> 'p list) list" where
  "collect_series [] queryErr series = (queryErr, series)"
| "collect_series ((name, Inl e) # rest) queryErr series =
     (case queryErr of
        None \<Rightarrow> collect_series rest (Some e) series
      | Some _ \<Rightarrow> collect_series rest queryErr (AList.update name [] series))"
| "collect_series ((name, Inr points) # rest) queryErr series =
     collect_series rest queryErr (AList.update name points series)"

definition history_response ::
  "int \<Rightarrow> int \<Rightarrow> (string \<times> 'f historyPoint list result) list \<Rightarrow> 'f monitoring_data api_response" where
  "history_response rangeMinutes stepSeconds outcomes =
     (case collect_series outcomes None [] of
        (Some e, _) \<Rightarrow> fail_with 502 e
      | (None, series) \<Rightarrow>
          respond 200 None (Some (OtherData (History rangeMinutes stepSeconds series))))"

text \<open>\<open>order\<close> lists the positions of \<^const>\<open>historyQueries\<close> as the queries finished.\<close>

definition GetHistory ::
  "prom_lib \<Rightarrow> 'f float_lib \<Rightarrow> string \<Rightarrow> api_request \<Rightarrow> time \<Rightarrow> nat list \<Rightarrow>
     'f monitoring_data api_response" where
  "GetHistory lib fl promURL c now order =
     (case historyWindow (ap_Query c ''range_minutes'') of
        (rangeMinutes, stepSeconds) \<Rightarrow>
          (let start = time_add now (- (rangeMinutes * 60 * nanos_per_second))
           in history_response rangeMinutes stepSeconds
                (map (\<lambda>i. case historyQueries ! i of (name, query') \<Rightarrow>
                   (name, queryRange lib fl promURL query' start now stepSeconds)) order)))"

section \<open>What the page shows\<close>

lemma sum_filter_lengths:
  assumes "finite S" "f ` set rs \<subseteq> S"
  shows "(\<Sum>k\<in>S. int (length (filter (\<lambda>r. f r = k) rs))) = int (length rs)"
  using assms(2)
proof (induction rs)
  case (Cons r rs)
  have "(\<Sum>k\<in>S. int (length (filter (\<lambda>r. f r = k) (r # rs)))) =
      (\<Sum>k\<in>S. (if k = f r then 1 else 0) + int (length (filter (\<lambda>r. f r = k) rs)))"
    by (rule sum.cong) auto
  also have "\<dots> = 1 + int (length rs)" using Cons assms(1) by (simp add: sum.distrib)
  finally show ?case by simp
qed simp

lemma dom_group_counts: "dom (group_counts f rs) = f ` set rs"
  by (force simp: group_counts_def Let_def dom_def filter_empty_conv split: if_splits)

lemma sum_group_counts: "sum_stats (group_counts f rs) = int (length rs)"
  by (simp add: sum_stats_def dom_group_counts sum_filter_lengths)

text \<open>The history is answered exactly when every query succeeded, and then it does not depend on the
  order in which they finished.\<close>

lemma collect_series_error:
  "fst (collect_series outs q acc) = None \<longleftrightarrow> q = None \<and> (\<forall>x \<in> set outs. \<exists>p. snd x = Inr p)"
  by (induction outs q acc rule: collect_series.induct) (auto split: option.splits)

lemma collect_series_points:
  assumes "\<forall>x \<in> set outs. \<exists>p. snd x = Inr p" "distinct (map fst outs)"
  shows "map_of (snd (collect_series outs None acc)) n =
    (case map_of outs n of Some (Inr p) \<Rightarrow> Some p | _ \<Rightarrow> map_of acc n)"
  using assms
proof (induction outs arbitrary: acc)
  case (Cons x outs)
  then obtain name points where x: "x = (name, Inr points)" by (cases x) auto
  with Cons.prems have "map_of outs name = None" by (auto simp: map_of_eq_None_iff)
  with Cons x show ?case by (auto simp: update_conv' split: option.splits sum.splits)
qed simp

lemma historyQueries_names: "distinct (map fst historyQueries)" "length historyQueries = 3"
  by (simp_all add: historyQueries_def)

lemma point_of_finite: "point_of fl raw = Some p \<Longrightarrow> fl_Finite fl (hp_Value p)"
  by (auto simp: point_of_def split: list.splits option.splits if_splits)

lemma set_map_filter_Some: "p \<in> set (List.map_filter f xs) \<Longrightarrow> \<exists>x \<in> set xs. f x = Some p"
  by (auto simp: map_filter_def)

lemma queryRange_finite:
  assumes "queryRange lib fl promURL q t t' k = Inr points" "p \<in> set points"
  shows "fl_Finite fl (hp_Value p)"
proof -
  from assms(1) obtain series where "points = [] \<or> points = List.map_filter (point_of fl) series"
    by (auto simp: queryRange_def Let_def split: option.splits sum.splits if_splits list.splits prod.splits)
  with assms(2) set_map_filter_Some point_of_finite show ?thesis by fastforce
qed

end
