(* ===== verification/Roles.thy ===== *)
theory Roles
  imports Go_Prelude
begin

text \<open>
  \<^verbatim>\<open>internal/app/role.go\<close>: the roles a process can run, the mode and the components that each
  of them reports.  Any other string is a role of the Go type too.
\<close>

datatype Role = RoleAPI | RoleScheduler | RoleDispatcher | RoleWorker | RoleAll | RoleOther string

fun role_text :: "Role \<Rightarrow> string" where
  "role_text RoleAPI = ''api''"
| "role_text RoleScheduler = ''scheduler''"
| "role_text RoleDispatcher = ''dispatcher''"
| "role_text RoleWorker = ''worker''"
| "role_text RoleAll = ''all''"
| "role_text (RoleOther s) = s"

definition allRoles :: "Role list" where
  "allRoles = [RoleAPI, RoleScheduler, RoleDispatcher, RoleWorker, RoleAll]"

fun RuntimeMode :: "Role \<Rightarrow> string" where
  "RuntimeMode RoleAPI = ''control-plane''"
| "RuntimeMode RoleScheduler = ''scheduler''"
| "RuntimeMode RoleDispatcher = ''outbox-dispatcher''"
| "RuntimeMode RoleWorker = ''stream-worker''"
| "RuntimeMode RoleAll = ''combined''"
| "RuntimeMode (RoleOther _) = ''unknown''"

fun Components :: "Role \<Rightarrow> string list" where
  "Components RoleAPI = [''api'']"
| "Components RoleScheduler = [''scheduler'', ''execution-reconciler'']"
| "Components RoleDispatcher = [''outbox-dispatcher'']"
| "Components RoleWorker = [''stream-worker'', ''stream-retention-cleaner'']"
| "Components RoleAll =
     [''api'', ''scheduler'', ''execution-reconciler'', ''outbox-dispatcher'', ''stream-worker'',
      ''stream-retention-cleaner'']"
| "Components (RoleOther _) = []"

text \<open>The combined role is the union of the others, and no component belongs to two of them.\<close>

lemma Components_all:
  "Components RoleAll =
     Components RoleAPI @ Components RoleScheduler @ Components RoleDispatcher @ Components RoleWorker"
  by simp

lemma Components_distinct: "distinct (Components r)"
  by (cases r) auto

end
