(* ===== verification/Http_Server.thy ===== *)
theory Http_Server
  imports Monitoring_Api Metrics_Reporter Roles Config
begin

text \<open>
  \<^verbatim>\<open>internal/middleware/\<close>, \<^verbatim>\<open>internal/app/http.go\<close> and
  \<^verbatim>\<open>api_http.go\<close>: the middleware chain, the registered routes and the two HTTP handlers of
  a process.  gin's matching of a request against the registered routes is a parameter
  (\<open>dp_Match\<close>; the redirect for a trailing slash, which gin answers itself, is left out);
  a middleware is a function from the rest of the chain.
\<close>

section \<open>Middleware\<close>

type_synonym ('x, 's) http_handler = "api_request \<Rightarrow> 's \<Rightarrow> 'x api_response \<times> 's"

text \<open>\<^verbatim>\<open>authorization[len("Bearer "):]\<close> drops seven bytes.\<close>

definition provided_key :: "api_request \<Rightarrow> string" where
  "provided_key c =
     (let provided = TrimSpace (ap_Header c ''X-API-Key'') in
      if provided = [] then
        (let authorization = TrimSpace (ap_Header c ''Authorization'') in
         if HasPrefix (ToLower authorization) ''bearer '' then TrimSpace (drop 7 authorization)
         else provided)
      else provided)"

definition APISecurity :: "string \<Rightarrow> int \<Rightarrow> ('x, 's) http_handler \<Rightarrow> ('x, 's) http_handler" where
  "APISecurity apiKey maxRequestBytes next c0 s =
     (if \<not> HasPrefix (ap_Path c0) ''/api/'' then next c0 s
      else
        (let c = (if 0 < maxRequestBytes then c0\<lparr>ap_BodyLimit := Some maxRequestBytes\<rparr> else c0) in
         if apiKey = [] then next c s
         else if provided_key c \<noteq> apiKey then (fail_with 401 ''unauthorized'', s)
         else next c s))"

definition cors_origin :: "string list \<Rightarrow> string \<Rightarrow> (string \<times> string) list" where
  "cors_origin allowedOrigins origin =
     (if origin \<noteq> [] \<and> origin \<in> set allowedOrigins
      then [(''Access-Control-Allow-Origin'', origin), (''Vary'', ''Origin'')] else [])"

definition cors_fixed :: "(string \<times> string) list" where
  "cors_fixed =
     [(''Access-Control-Allow-Methods'', ''GET, POST, PUT, DELETE, OPTIONS''),
      (''Access-Control-Allow-Headers'', ''Content-Type, Authorization, X-API-Key, X-Requested-With''),
      (''Access-Control-Max-Age'', ''86400'')]"

definition CORS :: "string list \<Rightarrow> ('x, 's) http_handler \<Rightarrow> ('x, 's) http_handler" where
  "CORS allowedOrigins next c s =
     (let headers = cors_origin allowedOrigins (ap_Header c ''Origin'') @ cors_fixed in
      if ap_Method c = ''OPTIONS'' then
        (\<lparr>as_Status = 204, as_Headers = headers, as_Message = None, as_Data = None\<rparr>, s)
      else
        (case next c s of (resp, s') \<Rightarrow> (resp\<lparr>as_Headers := headers @ as_Headers resp\<rparr>, s')))"

text \<open>The access log gets one entry per request, after the rest of the chain.\<close>

record access_entry =
  ae_Method :: string
  ae_Path :: string
  ae_Status :: int

definition Logger ::
  "('x, 's) http_handler \<Rightarrow> api_request \<Rightarrow> access_entry list \<times> 's \<Rightarrow> 'x api_response \<times> access_entry list \<times> 's" where
  "Logger next c st =
     (case st of (log, s) \<Rightarrow>
        (case next c s of
           (resp, s') \<Rightarrow>
             (resp, log @ [\<lparr>ae_Method = ap_Method c, ae_Path = ap_Path c, ae_Status = as_Status resp\<rparr>], s')))"

text \<open>The chain of \<^verbatim>\<open>newRouter\<close> around the handler that the routes select.\<close>

definition newRouter ::
  "Config \<Rightarrow> ('x, 's) http_handler \<Rightarrow> api_request \<Rightarrow> access_entry list \<times> 's \<Rightarrow>
     'x api_response \<times> access_entry list \<times> 's" where
  "newRouter cfg handler =
     Logger (CORS (sy_AllowedOrigins (cf_Security cfg))
       (APISecurity (sy_APIKey (cf_Security cfg)) (sy_MaxRequestBytes (cf_Security cfg)) handler))"

section \<open>Routes\<close>

datatype route =
    MetricsRoute | HealthRoute | ReadyRoute
  | CreateTimerRoute | ListTimersRoute | GetTimerRoute | DeleteTimerRoute
  | ActivateTimerRoute | DeactivateTimerRoute
  | ListExecutionsRoute | GetExecutionRoute | TimerExecutionsRoute
  | SummaryRoute | HistoryRoute
  | GrafanaRoute | AssetsRoute | IndexRoute

type_synonym routes = "(string \<times> string \<times> route) list"

definition group :: "string \<Rightarrow> routes \<Rightarrow> routes" where
  "group base rs = map (\<lambda>(m, p, r). (m, base @ p, r)) rs"

definition operational_routes :: routes where
  "operational_routes =
     [(''GET'', ''/metrics'', MetricsRoute), (''GET'', ''/health'', HealthRoute),
      (''GET'', ''/ready'', ReadyRoute)]"

definition timer_routes :: routes where
  "timer_routes = group ''/api/v1''
     [(''POST'', ''/timers'', CreateTimerRoute),
      (''GET'', ''/timers'', ListTimersRoute),
      (''GET'', ''/timers/:id'', GetTimerRoute),
      (''DELETE'', ''/timers/:id'', DeleteTimerRoute),
      (''POST'', ''/timers/:id/activate'', ActivateTimerRoute),
      (''POST'', ''/timers/:id/deactivate'', DeactivateTimerRoute)]"

definition execution_routes :: routes where
  "execution_routes = group ''/api/v1''
     [(''GET'', ''/executions'', ListExecutionsRoute),
      (''GET'', ''/executions/:id'', GetExecutionRoute),
      (''GET'', ''/timers/:id/executions'', TimerExecutionsRoute)]"

definition monitoring_routes :: routes where
  "monitoring_routes = group ''/api/v1''
     [(''GET'', ''/monitoring/summary'', SummaryRoute),
      (''GET'', ''/monitoring/history'', HistoryRoute)]"

text \<open>\<^verbatim>\<open>ANY\<close> stands for every method; \<^verbatim>\<open>Static\<close> and
  \<^verbatim>\<open>StaticFile\<close> register GET and HEAD.\<close>

definition grafana_routes :: "MonitoringConfig \<Rightarrow> routes" where
  "grafana_routes cfg =
     (if mo_GrafanaURL cfg = [] then []
      else [(''ANY'', ''/grafana'', GrafanaRoute), (''ANY'', ''/grafana/*path'', GrafanaRoute)])"

definition static_routes :: routes where
  "static_routes =
     [(''GET'', ''/assets/*filepath'', AssetsRoute), (''HEAD'', ''/assets/*filepath'', AssetsRoute),
      (''GET'', ''/'', IndexRoute), (''HEAD'', ''/'', IndexRoute)]"

definition api_routes :: "Config \<Rightarrow> routes" where
  "api_routes cfg =
     operational_routes @ timer_routes @ execution_routes @ monitoring_routes @
     grafana_routes (cf_Monitoring cfg) @ static_routes"

section \<open>Handlers\<close>

text \<open>Everything a response can carry beside the Timer and Execution data.\<close>

record status_report =
  sr_status :: string
  sr_role :: Role
  sr_runtime_mode :: string
  sr_components :: "string list"
  sr_dependencies :: "(string \<times> string) list"

datatype 'f server_data =
    MonitoringData "'f monitoring_data"
  | StatusData status_report
  | RoleData Role
  | MetricsData Reporter
  | ProxiedFrom string
  | FileData string

type_synonym ('f, 's) server_handler = "('f server_data, 's) http_handler"

definition monitoring_response :: "'f monitoring_data api_response \<Rightarrow> 'f server_data api_response" where
  "monitoring_response r =
     \<lparr>as_Status = as_Status r, as_Headers = as_Headers r, as_Message = as_Message r,
      as_Data = map_option (map_api_data MonitoringData) (as_Data r)\<rparr>"

record ('f, 'c, 's) api_deps =
  dp_Config :: Config
  dp_Role :: Role
  dp_Match :: "routes \<Rightarrow> api_request \<Rightarrow> (route \<times> (string \<Rightarrow> string)) option"
  dp_Gin :: gin_lib
  dp_TimerRepo :: "'s TimerDefinitionRepository"
  dp_TimerEnv :: "'c timer_env"
  dp_ExecutionRepo :: "'s ExecutionQueryRepository"
  dp_Prometheus :: prom_lib
  dp_Floats :: "'f float_lib"
  dp_CheckReady :: "'s \<Rightarrow> (string \<times> string) list"

text \<open>What the environment decides about one request: the time, the metrics at that time and the order
  in which the history queries finish.\<close>

record moment =
  mt_Now :: time
  mt_Metrics :: Reporter
  mt_Order :: "nat list"

definition status_of :: "Role \<Rightarrow> string list \<Rightarrow> string \<Rightarrow> (string \<times> string) list \<Rightarrow> status_report" where
  "status_of role components status dependencies =
     \<lparr>sr_status = status, sr_role = role, sr_runtime_mode = RuntimeMode role,
      sr_components = components, sr_dependencies = dependencies\<rparr>"

text \<open>\<^verbatim>\<open>registerOperationalRoutes\<close>: health always answers, readiness reports the failed
  dependencies.\<close>

definition health_response :: "Role \<Rightarrow> string list \<Rightarrow> 'f server_data api_response" where
  "health_response role components =
     respond 200 None (Some (OtherData (StatusData (status_of role components ''ok'' []))))"

definition ready_response ::
  "Role \<Rightarrow> string list \<Rightarrow> (string \<times> string) list \<Rightarrow> 'f server_data api_response" where
  "ready_response role components failures =
     (if failures \<noteq> []
      then respond 503 None (Some (OtherData (StatusData (status_of role components ''not_ready'' failures))))
      else respond 200 None (Some (OtherData (StatusData (status_of role components ''ready'' [])))))"

definition operational_handler ::
  "('f, 'c, 's) api_deps \<Rightarrow> moment \<Rightarrow> route \<Rightarrow> 's \<Rightarrow> 'f server_data api_response option" where
  "operational_handler deps mt r s =
     (let components = Components (dp_Role deps) in
      case r of
        MetricsRoute \<Rightarrow> Some (respond 200 None (Some (OtherData (MetricsData (mt_Metrics mt)))))
      | HealthRoute \<Rightarrow> Some (health_response (dp_Role deps) components)
      | ReadyRoute \<Rightarrow> Some (ready_response (dp_Role deps) components (dp_CheckReady deps s))
      | _ \<Rightarrow> None)"

definition not_for_role :: "Role \<Rightarrow> 'f server_data api_response" where
  "not_for_role role =
     respond 404 (Some ''route is not available for this role'') (Some (OtherData (RoleData role)))"

definition newOperationalHTTPHandler ::
  "('f, 'c, 's) api_deps \<Rightarrow> moment \<Rightarrow> api_request \<Rightarrow> access_entry list \<times> 's \<Rightarrow>
     'f server_data api_response \<times> access_entry list \<times> 's" where
  "newOperationalHTTPHandler deps mt =
     newRouter (dp_Config deps) (\<lambda>c s.
       case dp_Match deps operational_routes c of
         None \<Rightarrow> (not_for_role (dp_Role deps), s)
       | Some (r, _) \<Rightarrow>
           (case operational_handler deps mt r s of
              None \<Rightarrow> (not_for_role (dp_Role deps), s)
            | Some resp \<Rightarrow> (resp, s)))"

definition index_file :: string where "index_file = ''./web/dist/index.html''"

definition no_route :: "api_request \<Rightarrow> 'f server_data api_response" where
  "no_route c =
     (if ap_Path c = ''/api'' \<or> HasPrefix (ap_Path c) ''/api/''
      then fail_with 404 ''API endpoint not found''
      else respond 200 None (Some (OtherData (FileData index_file))))"

definition api_handler ::
  "('f, 'c, 's) api_deps \<Rightarrow> moment \<Rightarrow> route \<Rightarrow> (string \<Rightarrow> string) \<Rightarrow> ('f, 's) server_handler" where
  "api_handler deps mt r params c s =
     (case r of
        CreateTimerRoute \<Rightarrow>
          CreateTimer (dp_Gin deps) (dp_TimerRepo deps) (dp_TimerEnv deps) (mt_Now mt) c s
      | ListTimersRoute \<Rightarrow> ListTimers (dp_Gin deps) (dp_TimerRepo deps) c s
      | GetTimerRoute \<Rightarrow> GetTimer (dp_TimerRepo deps) (params ''id'') s
      | DeleteTimerRoute \<Rightarrow> DeleteTimer (dp_TimerRepo deps) (params ''id'') s
      | ActivateTimerRoute \<Rightarrow>
          ActivateTimer (dp_TimerRepo deps) (dp_TimerEnv deps) (mt_Now mt) (params ''id'') s
      | DeactivateTimerRoute \<Rightarrow> DeactivateTimer (dp_TimerRepo deps) (params ''id'') s
      | ListExecutionsRoute \<Rightarrow> ExecutionHandler_List (dp_Gin deps) (dp_ExecutionRepo deps) c s
      | GetExecutionRoute \<Rightarrow> ExecutionHandler_Get (dp_ExecutionRepo deps) (params ''id'') s
      | TimerExecutionsRoute \<Rightarrow> ExecutionHandler_GetByTimer (dp_ExecutionRepo deps) (params ''id'') c s
      | SummaryRoute \<Rightarrow>
          (case GetSummary (dp_TimerRepo deps) (dp_ExecutionRepo deps) s of
             (resp, s') \<Rightarrow> (monitoring_response resp, s'))
      | HistoryRoute \<Rightarrow>
          (monitoring_response
             (GetHistory (dp_Prometheus deps) (dp_Floats deps)
                (mo_PrometheusURL (cf_Monitoring (dp_Config deps))) c (mt_Now mt) (mt_Order mt)), s)
      | GrafanaRoute \<Rightarrow>
          (respond 200 None
             (Some (OtherData (ProxiedFrom (mo_GrafanaURL (cf_Monitoring (dp_Config deps)))))), s)
      | AssetsRoute \<Rightarrow> (respond 200 None (Some (OtherData (FileData (''./web/dist/assets'' @ params ''filepath'')))), s)
      | IndexRoute \<Rightarrow> (respond 200 None (Some (OtherData (FileData index_file))), s)
      | _ \<Rightarrow> (case operational_handler deps mt r s of
                None \<Rightarrow> (no_route c, s) | Some resp \<Rightarrow> (resp, s)))"

text \<open>The handler of the API role: \<^verbatim>\<open>newAPIHTTPHandler\<close> fails when the Grafana URL does not
  parse.\<close>

definition serve_api ::
  "('f, 'c, 's) api_deps \<Rightarrow> moment \<Rightarrow> api_request \<Rightarrow> access_entry list \<times> 's \<Rightarrow>
     'f server_data api_response \<times> access_entry list \<times> 's" where
  "serve_api deps mt =
     newRouter (dp_Config deps) (\<lambda>c s.
       case dp_Match deps (api_routes (dp_Config deps)) c of
         None \<Rightarrow> (no_route c, s)
       | Some (r, params) \<Rightarrow> api_handler deps mt r params c s)"

definition newAPIHTTPHandler ::
  "(string \<Rightarrow> go_error option) \<Rightarrow> ('f, 'c, 's) api_deps \<Rightarrow>
     (moment \<Rightarrow> api_request \<Rightarrow> access_entry list \<times> 's \<Rightarrow> 'f server_data api_response \<times> access_entry list \<times> 's) result" where
  "newAPIHTTPHandler parse deps =
     (let url = mo_GrafanaURL (cf_Monitoring (dp_Config deps)) in
      if url \<noteq> [] then (case parse url of Some e \<Rightarrow> Inl e | None \<Rightarrow> Inr (serve_api deps))
      else Inr (serve_api deps))"

section \<open>What every request keeps\<close>

text \<open>An API server is a pair of repositories that keep a common invariant of the state.\<close>

locale api_server =
  timers: timer_repository timerRepo I + queries: execution_queries executionRepo I
  for timerRepo :: "'s TimerDefinitionRepository"
    and executionRepo :: "'s ExecutionQueryRepository"
    and I :: "'s \<Rightarrow> bool"
begin

lemma GetSummary_keeps: "I s \<Longrightarrow> I (snd (GetSummary timerRepo executionRepo s))"
  unfolding GetSummary_def
  by (rule keeps [where I = I] timers.status_counts_inv queries.list_inv | assumption | clarsimp)+

lemma api_handler_keeps:
  assumes "dp_TimerRepo deps = timerRepo" "dp_ExecutionRepo deps = executionRepo" "I s"
  shows "I (snd (api_handler deps mt r params c s))"
  using assms(3) GetSummary_keeps [OF assms(3)]
  by (cases r) (simp_all add: api_handler_def assms(1,2) operational_handler_def Let_def
      timers.CreateTimer_inv timers.GetTimer_inv timers.DeleteTimer_inv timers.ListTimers_inv
      timers.ActivateTimer_inv timers.DeactivateTimer_inv queries.List_inv queries.Get_inv
      queries.GetByTimer_inv case_prod_beta)

end

interpretation world_api: api_server world_timer_repo world_query_repo world_ok
  by unfold_locales

text \<open>The middleware only decides whether the handler runs, and on which request.\<close>

lemma newRouter_keeps:
  assumes "\<And>c s. I s \<Longrightarrow> I (snd (handler c s))" "I s"
  shows "I (snd (snd (newRouter cfg handler c (log, s))))"
  using assms(2) assms(1) [of s c]
    assms(1) [of s "c\<lparr>ap_BodyLimit := Some (sy_MaxRequestBytes (cf_Security cfg))\<rparr>"]
  by (auto simp: newRouter_def Logger_def CORS_def APISecurity_def Let_def split: prod.splits)

lemma newRouter_log:
  "fst (snd (newRouter cfg handler c (log, s))) =
     log @ [\<lparr>ae_Method = ap_Method c, ae_Path = ap_Path c,
             ae_Status = as_Status (fst (newRouter cfg handler c (log, s)))\<rparr>]"
  by (auto simp: newRouter_def Logger_def split: prod.splits)

lemma serve_api_keeps:
  assumes "dp_TimerRepo deps = world_timer_repo" "dp_ExecutionRepo deps = world_query_repo" "world_ok w"
  shows "world_ok (snd (snd (serve_api deps mt c (log, w))))"
  unfolding serve_api_def
  by (rule newRouter_keeps [where I = world_ok])
     (auto split: option.splits intro: world_api.api_handler_keeps assms)

end
