(* ===== verification/Api_Properties.thy ===== *)
theory Api_Properties
  imports Boundary_Properties Http_Server
begin

text \<open>
  The HTTP interface: what its requests keep of the database, who may send them, and what the monitoring
  page shows.
\<close>

definition sample_gin :: gin_lib where
  "sample_gin = \<lparr>gl_DecodeCreate = (\<lambda>_. Inl ''EOF''), gl_DecodeTimerList = (\<lambda>_. Inr sample_list),
     gl_DecodeExecutionList = (\<lambda>_. Inr first_execution_page), gl_ValidURL = (\<lambda>u. u \<noteq> []),
     gl_ValidationError = (\<lambda>_. ''validation failed'')\<rparr>"

definition sample_prometheus :: prom_lib where
  "sample_prometheus = \<lparr>pl_ParseURL = (\<lambda>_. None), pl_NewRequest = (\<lambda>_. None),
     pl_Do = (\<lambda>r. Inr (200, Inr \<lparr>pr_Status = ''success'', pr_Result = [[[''10'', ''50'']]], pr_Error = []\<rparr>))\<rparr>"

text \<open>Natural numbers stand for the floating point numbers of the sample.\<close>

definition sample_floats :: "nat float_lib" where
  "sample_floats = \<lparr>fl_Number = (\<lambda>s. Some (length s)), fl_Text = Some, fl_Parse = (\<lambda>s. Some (length s)),
     fl_Finite = (\<lambda>_. True), fl_Int = int\<rparr>"

text \<open>The paths of the sample have no parameter but \<^verbatim>\<open>:id\<close>, which is always 1.\<close>

definition sample_deps :: "(nat, unit, world) api_deps" where
  "sample_deps = \<lparr>dp_Config = normalize sample_config, dp_Role = RoleAPI,
     dp_Match = (\<lambda>rs c. map_option (\<lambda>(_, _, r). (r, \<lambda>_. ''1''))
       (find (\<lambda>(m, p, _). (m = ap_Method c \<or> m = ''ANY'') \<and> p = ap_Path c) rs)),
     dp_Gin = sample_gin, dp_TimerRepo = world_timer_repo, dp_TimerEnv = sample_env,
     dp_ExecutionRepo = world_query_repo, dp_Prometheus = sample_prometheus, dp_Floats = sample_floats,
     dp_CheckReady = (\<lambda>_. [])\<rparr>"

definition sample_http :: "string \<Rightarrow> string \<Rightarrow> string \<Rightarrow> api_request" where
  "sample_http method path key = \<lparr>ap_Method = method, ap_Path = path,
     ap_Header = (\<lambda>h. if h = ''X-API-Key'' then key else []), ap_Query = (\<lambda>_. []), ap_Body = [],
     ap_BodyLimit = None\<rparr>"

definition sample_moment :: moment where
  "sample_moment = \<lparr>mt_Now = 20, mt_Metrics = NewReporter, mt_Order = [2, 0, 1]\<rparr>"

section \<open>Requests and the database\<close>

text \<open>The server answers requests one after the other.\<close>

definition serve_all ::
  "('f, 'c, 's) api_deps \<Rightarrow> (moment \<times> api_request) list \<Rightarrow> access_entry list \<times> 's \<Rightarrow> access_entry list \<times> 's"
where
  "serve_all deps reqs st = fold (\<lambda>(mt, c) st. snd (serve_api deps mt c st)) reqs st"

lemma serve_api_log:
  "map ae_Path (fst (snd (serve_api deps mt c (log, s)))) = map ae_Path log @ [ap_Path c]"
  by (simp add: serve_api_def newRouter_log)



section \<open>Access\<close>

lemma TrimSpace_trimmed: "TrimSpace (TrimSpace s) = TrimSpace s"
proof -
  have hd: "dropWhile p xs = [] \<or> \<not> p (hd (dropWhile p xs))" for p and xs :: string
    using hd_dropWhile by blast
  have idem: "dropWhile p (rev (dropWhile p (rev xs))) = rev (dropWhile p (rev xs))"
    if "xs = [] \<or> \<not> p (hd xs)" for p and xs :: string
  proof (cases xs)
    case (Cons x ys)
    with that have "\<not> p x" by simp
    then show ?thesis by (simp add: Cons dropWhile_append)
  qed simp
  show ?thesis
    unfolding TrimSpace_def idem [OF hd] by simp
qed

lemma provided_key_trimmed: "TrimSpace (provided_key c) = provided_key c"
  by (simp add: provided_key_def Let_def TrimSpace_trimmed) (simp add: TrimSpace_def)

text \<open>C25: No API request without the key.  With a key configured, a request below \<^verbatim>\<open>/api/\<close>
  reaches the handlers only with that key in its headers: otherwise it is answered with 401 (a preflight
  request with 204), without data and without a change of the state, and the answer allows an origin only if
  it is the request's own and configured.\<close>

theorem api_key_required:
  assumes "newRouter cfg handler c (log, s) = (resp, log', s')"
    and "sy_APIKey (cf_Security cfg) \<noteq> []" "HasPrefix (ap_Path c) ''/api/''"
    and "ap_Method c = ''OPTIONS'' \<or> provided_key c \<noteq> sy_APIKey (cf_Security cfg)"
  shows "s' = s \<and> as_Data resp = None \<and> as_Status resp = (if ap_Method c = ''OPTIONS'' then 204 else 401) \<and>
    (\<forall>origin. map_of (as_Headers resp) ''Access-Control-Allow-Origin'' = Some origin \<longrightarrow>
       origin = ap_Header c ''Origin'' \<and> origin \<in> set (sy_AllowedOrigins (cf_Security cfg)))"
  using assms
  by (auto simp: newRouter_def Logger_def CORS_def APISecurity_def provided_key_def fail_with_def respond_def
      cors_origin_def cors_fixed_def Let_def split: if_splits)

theorem api_key_required_witness:
  "\<exists>resp log'. serve_api sample_deps sample_moment (sample_http ''DELETE'' ''/api/v1/timers/:id'' ''guess'')
      ([], lone_world 20 sample_db) = (resp, log', lone_world 20 sample_db) \<and> as_Status resp = 401"
proof -
  let ?c = "sample_http ''DELETE'' ''/api/v1/timers/:id'' ''guess''"
  obtain resp log' w' where run: "serve_api sample_deps sample_moment ?c ([], lone_world 20 sample_db) =
      (resp, log', w')" by (rule prod_cases3)
  have "sy_APIKey (cf_Security (dp_Config sample_deps)) = ''secret''"
    by (simp add: sample_deps_def sample_config_def normalize_def normalizeSecurityConfig_def)
  moreover have "provided_key ?c = ''guess''"
    by (simp add: provided_key_def sample_http_def TrimSpace_def is_space_def)
  ultimately show ?thesis
    using api_key_required [OF run [unfolded serve_api_def]] run by (simp add: sample_http_def)
qed

text \<open>A key with surrounding blanks locks everybody out.  The middleware trims the key that a request
  provides but not the configured one, so no request can provide a configured key that begins or ends with
  white space: every API request but a preflight is answered with 401.\<close>

lemma untrimmed_api_key_locks_out:
  assumes "TrimSpace (sy_APIKey (cf_Security cfg)) \<noteq> sy_APIKey (cf_Security cfg)"
    and "HasPrefix (ap_Path c) ''/api/''" "ap_Method c \<noteq> ''OPTIONS''"
  shows "as_Status (fst (newRouter cfg handler c (log, s))) = 401 \<and>
    snd (snd (newRouter cfg handler c (log, s))) = s"
proof -
  have "provided_key c \<noteq> sy_APIKey (cf_Security cfg)" using provided_key_trimmed [of c] assms(1) by auto
  moreover have "sy_APIKey (cf_Security cfg) \<noteq> []" using assms(1) by (auto simp: TrimSpace_def)
  ultimately show ?thesis
    using assms(2,3) by (auto simp: newRouter_def Logger_def CORS_def APISecurity_def provided_key_def
        fail_with_def respond_def Let_def split: if_splits)
qed

section \<open>The monitoring page\<close>

lemma world_aloneD:
  assumes "\<And>n d. w_interfere w n d = d" "call m w = (r, w')"
  shows "\<exists>ses. m ses (w_db w) = (r, w_db w')" "\<And>n d. w_interfere w' n d = d"
  using assms by (auto simp: call_def split: prod.splits)

lemma execution_statuses_sum:
  "int (length es) = (\<Sum>k \<in> {ExecutionStatusPending, ExecutionStatusRunning, ExecutionStatusRetryWait,
     ExecutionStatusSuccess, ExecutionStatusFailed, ExecutionStatusCancelled}.
     int (length (filter (\<lambda>e. te_Status e = k) es)))"
  by (rule sum_filter_lengths [symmetric]) (auto intro: ExecutionStatus.exhaust)

lemma timer_statuses_sum:
  assumes "db_ok d"
  shows "int (length (timers d)) = (\<Sum>k \<in> {TimerStatusActive, TimerStatusInactive, TimerStatusDeleted}.
     int (length (filter (\<lambda>t. td_Status t = k) (timers d))))"
  by (rule sum_filter_lengths [symmetric]) (use assms in \<open>auto simp: db_ok_def timers_ok_def timer_row_ok_def\<close>)

lemma all_executions:
  "filteredQuery first_execution_page d = map (\<lambda>e. (e, joined_name d e)) (executions d)"
  by (simp add: filteredQuery_def baseQuery_def execution_list_filter_def first_execution_page_def)

lemma summary_run:
  assumes "GetSummary world_timer_repo world_query_repo w = (resp, w')" "as_Status resp = 200"
    and "\<And>n d. w_interfere w n d = d"
  shows "w_db w' = w_db w \<and> as_Data resp = Some (OtherData
    (summary_of (group_counts td_Status (timers (w_db w)))
       (group_counts (\<lambda>r. te_Status (fst r)) (filteredQuery first_execution_page (w_db w)))))"
proof -
  from assms(1,2) obtain ts w1 items n es
    where t: "call timerRepo_CountByStatus w = (Inr ts, w1)"
      and e: "ListExecutions first_execution_page w1 = (Inr (items, n, es), w')"
      and resp: "as_Data resp = Some (OtherData (summary_of ts es))"
    by (auto simp: GetSummary_def world_timer_repo_def world_query_repo_def fail_with_def respond_def
        split: prod.splits sum.splits)
  from world_aloneD [OF assms(3) t] have t': "ts = group_counts td_Status (timers (w_db w))"
    "w_db w1 = w_db w" "\<And>n d. w_interfere w1 n d = d"
    by (auto simp: timerRepo_CountByStatus_def dest: read_op_Inr)
  from e obtain w2 w3 where e1: "call (count_executions first_execution_page) w1 = (Inr n, w2)"
    and e2: "call (find_executions first_execution_page) w2 = (Inr items, w3)"
    and e3: "call (count_execution_statuses first_execution_page) w3 = (Inr es, w')"
    by (auto simp: ListExecutions_def split: prod.splits sum.splits)
  from world_aloneD [OF t'(3) e1] have w2: "w_db w2 = w_db w" "\<And>n d. w_interfere w2 n d = d"
    using t'(2) by (auto simp: count_executions_def dest: read_op_Inr)
  from world_aloneD [OF w2(2) e2] have w3: "w_db w3 = w_db w" "\<And>n d. w_interfere w3 n d = d"
    using w2(1) by (auto simp: find_executions_def dest: read_op_Inr)
  from world_aloneD(1) [OF w3(2) e3] t' resp w3(1) show ?thesis
    by (auto simp: count_execution_statuses_def dest: read_op_Inr)
qed

text \<open>The summary counts every row.  While nobody else writes, the totals of the monitoring page are
  the numbers of Timers and of Executions of the database, and the counts shown for the single states add up
  to them.\<close>

lemma summary_counts_every_row:
  assumes "GetSummary world_timer_repo world_query_repo w = (resp, w')" "as_Status resp = 200"
    and "world_ok w" "\<And>n d. w_interfere w n d = d"
  shows "w_db w' = w_db w \<and>
    (\<exists>ts es. as_Data resp = Some (OtherData (Summary ts es)) \<and>
       st_total ts = int (length (timers (w_db w))) \<and>
       st_total ts = st_active ts + st_inactive ts + st_deleted ts \<and>
       se_total es = int (length (executions (w_db w))) \<and>
       se_total es = se_pending es + se_running es + se_retry_wait es + se_success es + se_failed es + se_cancelled es)"
proof -
  have "db_ok (w_db w)" using assms(3) by (simp add: world_ok_def)
  from timer_statuses_sum [OF this] execution_statuses_sum [of "executions (w_db w)"]
  show ?thesis
    using summary_run [OF assms(1,2,4)]
    by (auto simp: summary_of_def sumTimerStats_def sumExecutionStats_def sum_group_counts all_executions
        filter_map comp_def)
qed

lemma set_any_order:
  assumes "set order = {..<length xs}"
  shows "set (map (\<lambda>i. f (xs ! i)) order) = f ` set xs"
proof -
  have "set xs = (!) xs ` set order"
    unfolding assms using nth_image [of "length xs" xs] by (simp add: lessThan_atLeast0)
  then show ?thesis by (simp add: image_image)
qed

lemma distinct_any_order:
  assumes "set order = {..<length xs}" "distinct order" "distinct (map f xs)"
  shows "distinct (map (\<lambda>i. f (xs ! i)) order)"
proof -
  have "inj_on (\<lambda>i. map f xs ! i) {..<length xs}"
    using inj_on_nth [OF assms(3)] by simp
  then have "inj_on (\<lambda>i. f (xs ! i)) {..<length xs}" by (rule subst [OF inj_on_cong, rotated]) simp
  then show ?thesis using assms(1,2) by (simp add: distinct_map)
qed

text \<open>The history page is complete or an error.  Whatever the order in which the three queries
  finish, the page is answered with 200 exactly when all of them succeeded; it then shows for every series
  the points of its own query, all of them finite numbers.\<close>

lemma history_complete_or_error:
  assumes "set order = {..<length historyQueries}" "distinct order"
    and "historyWindow (ap_Query c ''range_minutes'') = (minutes, step)"
    and "\<And>q. outcome q = queryRange lib fl promURL q
           (time_add now (- (minutes * 60 * nanos_per_second))) now step"
  shows "(as_Status (GetHistory lib fl promURL c now order) = 200) =
      (\<forall>x \<in> set historyQueries. \<exists>points. outcome (snd x) = Inr points) \<and>
    (\<forall>n k series x. as_Data (GetHistory lib fl promURL c now order) =
         Some (OtherData (History n k series)) \<longrightarrow> x \<in> set historyQueries \<longrightarrow>
       (\<exists>points. map_of series (fst x) = Some points \<and> outcome (snd x) = Inr points \<and>
          (\<forall>p \<in> set points. fl_Finite fl (hp_Value p))))"
proof -
  let ?f = "\<lambda>x. (fst x, outcome (snd x))"
  let ?outs = "map (\<lambda>i. ?f (historyQueries ! i)) order"
  have outs: "set ?outs = ?f ` set historyQueries" by (rule set_any_order [OF assms(1)])
  have dist: "distinct (map fst ?outs)"
    using distinct_any_order [OF assms(1,2) historyQueries_names(1)] by (simp add: comp_def)
  have run: "GetHistory lib fl promURL c now order = history_response minutes step ?outs"
    by (simp add: GetHistory_def assms(3,4) Let_def case_prod_beta)
  have all: "(\<forall>y \<in> set ?outs. \<exists>p. snd y = Inr p) =
      (\<forall>x \<in> set historyQueries. \<exists>points. outcome (snd x) = Inr points)"
    unfolding outs by auto
  have ok: "(as_Status (GetHistory lib fl promURL c now order) = 200) =
      (\<forall>x \<in> set historyQueries. \<exists>points. outcome (snd x) = Inr points)"
    unfolding run all [symmetric]
    using collect_series_error [of ?outs None "[]"]
    by (auto simp: history_response_def fail_with_def respond_def split: prod.splits option.splits)
  have "\<exists>points. map_of series (fst x) = Some points \<and> outcome (snd x) = Inr points \<and>
      (\<forall>p \<in> set points. fl_Finite fl (hp_Value p))"
    if d: "as_Data (GetHistory lib fl promURL c now order) = Some (OtherData (History n k series))"
      and x: "x \<in> set historyQueries" for n k series x
  proof -
    from d have c: "collect_series ?outs None [] = (None, series)"
      unfolding run by (auto simp: history_response_def fail_with_def respond_def split: prod.splits option.splits)
    with collect_series_error [of ?outs None "[]"] have every: "\<forall>y \<in> set ?outs. \<exists>p. snd y = Inr p" by simp
    with all x obtain points where p: "outcome (snd x) = Inr points" by blast
    have "map_of ?outs (fst x) = Some (Inr points)"
      using dist outs x p by (simp add: map_of_eq_Some_iff image_iff) metis
    with collect_series_points [OF every dist, of "[]"] c p have "map_of series (fst x) = Some points" by simp
    with p queryRange_finite show ?thesis by (metis assms(4))
  qed
  with ok show ?thesis by blast
qed

text \<open>A page that is asked for is asked for explicitly.  The binding tags reject a page number and a
  page size below 1 and above 100, so a request without them is answered with 400, and the defaults that
  \<^verbatim>\<open>List\<close> has for missing values (page 1, size 20) never take effect.\<close>

lemma list_defaults_unreachable:
  "(\<forall>decode req. should_bind decode valid_timer_list message c = Inr req \<longrightarrow> list_defaults req = req) \<and>
   (\<forall>decode req. should_bind decode valid_execution_list message c = Inr req \<longrightarrow>
      execution_list_defaults req = req) \<and>
   (\<forall>req. gl_DecodeTimerList gin c = Inr req \<longrightarrow> lr_Page req = 0 \<or> lr_PageSize req = 0 \<longrightarrow>
      as_Status (fst (ListTimers gin repo c s)) = 400 \<and> snd (ListTimers gin repo c s) = s)"
  by (auto simp: should_bind_def valid_timer_list_def valid_execution_list_def list_defaults_def
      execution_list_defaults_def ListTimers_def fail_with_def respond_def split: sum.splits if_splits)

end
