(* ===== verification/App_Lifecycle.thy ===== *)
theory App_Lifecycle
  imports Http_Server Redis_Stream "HOL-Library.Sublist"
begin

text \<open>
  \<^verbatim>\<open>internal/app/\<close>, \<^verbatim>\<open>internal/launcher/\<close>, and the connections they open
  (\<^verbatim>\<open>repository/database.go\<close>, \<^verbatim>\<open>pkg/redis/client.go\<close>,
  \<^verbatim>\<open>pkg/pool/pool.go\<close>): how a process of each role is built, run and shut down.  What
  happens is recorded as a list of effects; opening the database, the Redis calls, the goroutine pool
  and the operating system are parameters (\<open>platform\<close>).
\<close>

section \<open>The process and its environment\<close>

datatype gorm_log_level = Silent | Error | Info | Warn

datatype resource_kind = Database | RedisClient | WorkerPool

datatype zap_level = DebugLevel | InfoLevel | WarnLevel | ErrorLevel

datatype log_encoder = ConsoleEncoder | JSONEncoder

datatype log_sink = Stdout | LogFile string

record logger_config =
  lz_Level :: zap_level
  lz_Encoder :: log_encoder
  lz_Sink :: log_sink

datatype lifecycle_effect =
    Acquired resource_kind
  | PoolLimits int int duration
  | BackgroundStarted string
  | ServerStarted string
  | BackgroundCancelled
  | ServerShutdown
  | BackgroundStopped "string list"
  | Released resource_kind
  | LoggerSet logger_config
  | LoggerSynced

text \<open>The global variable \<^verbatim>\<open>repository.DB\<close>: once set, the error that
  \<^verbatim>\<open>DB.DB()\<close> returns, if any.\<close>

type_synonym gorm_db = "go_error option"

record 'q process_state =
  px_DB :: "gorm_db option"
  px_Redis :: 'q
  px_Effects :: "lifecycle_effect list"

text \<open>\<open>pf_OpenDatabase\<close> is \<^verbatim>\<open>gorm.Open\<close>, which may set a handle and still fail;
  \<open>pf_Base\<close> holds the libraries and repositories of the HTTP handlers.\<close>

record ('f, 'c, 's, 'q) platform =
  pf_Base :: "('f, 'c, 's) api_deps"
  pf_OpenDatabase :: "string \<Rightarrow> gorm_log_level \<Rightarrow> (gorm_db option \<times> go_error) + gorm_db"
  pf_PingMySQL :: "'s \<Rightarrow> go_error option"
  pf_ConnectRedis :: "string \<Rightarrow> string \<Rightarrow> int \<Rightarrow> go_error option"
  pf_PingRedis :: "'s \<Rightarrow> go_error option"
  pf_RedisClient :: "'q redis_client"
  pf_NewPool :: "int \<Rightarrow> go_error option"
  pf_ParseURL :: "string \<Rightarrow> go_error option"
  pf_OpenFile :: "string \<Rightarrow> go_error option"
  pf_Hostname :: "string result"
  pf_Pid :: int

definition effect :: "lifecycle_effect \<Rightarrow> 'q process_state \<Rightarrow> 'q process_state" where
  "effect e p = p\<lparr>px_Effects := px_Effects p @ [e]\<rparr>"

section \<open>The logger\<close>

text \<open>\<^verbatim>\<open>logger.Init\<close>: what it chooses; a log file that cannot be opened falls back to
  the standard output.\<close>

definition logger_Init ::
  "(string \<Rightarrow> go_error option) \<Rightarrow> string \<Rightarrow> string \<Rightarrow> string \<Rightarrow> string \<Rightarrow> logger_config" where
  "logger_Init openFile level format output filePath = \<lparr>
     lz_Level =
       (if level = ''debug'' then DebugLevel
        else if level = ''warn'' then WarnLevel
        else if level = ''error'' then ErrorLevel
        else InfoLevel),
     lz_Encoder = (if format = ''console'' then ConsoleEncoder else JSONEncoder),
     lz_Sink =
       (if output = ''file'' \<and> filePath \<noteq> [] then
          (case openFile filePath of Some _ \<Rightarrow> Stdout | None \<Rightarrow> LogFile filePath)
        else Stdout)\<rparr>"

text \<open>The global logger: nothing before \<^verbatim>\<open>Init\<close>, when \<^verbatim>\<open>zap.NewNop\<close> drops every line.
  A line passes when its level reaches the one that was chosen; how zap prints it is not modelled.\<close>

type_synonym global_logger = "logger_config option"

definition initial_logger :: global_logger where
  "initial_logger = None"

fun zap_severity :: "zap_level \<Rightarrow> int" where
  "zap_severity DebugLevel = - 1"
| "zap_severity InfoLevel = 0"
| "zap_severity WarnLevel = 1"
| "zap_severity ErrorLevel = 2"

definition log_at :: "zap_level \<Rightarrow> global_logger \<Rightarrow> string \<Rightarrow> (log_sink \<times> zap_level \<times> string) list" where
  "log_at level log msg =
     (case log of
        None \<Rightarrow> []
      | Some c \<Rightarrow> if zap_severity (lz_Level c) \<le> zap_severity level then [(lz_Sink c, level, msg)] else [])"

definition logger_Info :: "global_logger \<Rightarrow> string \<Rightarrow> (log_sink \<times> zap_level \<times> string) list" where
  "logger_Info log msg = log_at InfoLevel log msg"

definition logger_Error :: "global_logger \<Rightarrow> string \<Rightarrow> (log_sink \<times> zap_level \<times> string) list" where
  "logger_Error log msg = log_at ErrorLevel log msg"

definition logger_Warn :: "global_logger \<Rightarrow> string \<Rightarrow> (log_sink \<times> zap_level \<times> string) list" where
  "logger_Warn log msg = log_at WarnLevel log msg"

text \<open>Whatever level, format and output are configured, errors are written, to the file if it could be opened.\<close>

lemma errors_are_logged:
  "logger_Error (Some (logger_Init openFile level format output filePath)) msg =
     [(if output = ''file'' \<and> filePath \<noteq> [] \<and> openFile filePath = None then LogFile filePath else Stdout, ErrorLevel, msg)]"
  by (auto simp: logger_Error_def log_at_def logger_Init_def split: option.split)

section \<open>Connections\<close>

definition databaseLogLevel :: "string \<Rightarrow> gorm_log_level" where
  "databaseLogLevel value =
     (let v = ToLower (TrimSpace value) in
      if v = ''silent'' then Silent
      else if v = ''error'' then Error
      else if v = ''info'' then Info
      else Warn)"

text \<open>A handle that gives a connection pool counts as acquired, whether \<^verbatim>\<open>gorm.Open\<close>
  failed or not; a handle that gives none cannot be released.\<close>

definition set_handle :: "gorm_db option \<Rightarrow> 'q process_state \<Rightarrow> 'q process_state" where
  "set_handle h p =
     (let p' = p\<lparr>px_DB := h\<rparr> in if h = Some None then effect (Acquired Database) p' else p')"

definition InitDatabase ::
  "('f, 'c, 's, 'q) platform \<Rightarrow> DatabaseConfig \<Rightarrow> 'q process_state \<Rightarrow> unit result \<times> 'q process_state" where
  "InitDatabase pf cfg p =
     (case pf_OpenDatabase pf (dc_DSN cfg) (databaseLogLevel (dc_LogLevel cfg)) of
        Inl (h, e) \<Rightarrow> (Inl (wrap_err ''open database connection'' e), set_handle h p)
      | Inr (Some e) \<Rightarrow> (Inl (wrap_err ''get database instance'' e), set_handle (Some (Some e)) p)
      | Inr None \<Rightarrow>
          (Inr (), effect (PoolLimits (dc_MaxOpenConns cfg) (dc_MaxIdleConns cfg)
             (wrap64 (dc_ConnMaxLifetime cfg * (60 * nanos_per_second)))) (set_handle (Some None) p)))"

definition CloseDatabase :: "'q process_state \<Rightarrow> 'q process_state" where
  "CloseDatabase p =
     (case px_DB p of
        None \<Rightarrow> p
      | Some (Some _) \<Rightarrow> p
      | Some None \<Rightarrow> effect (Released Database) p)"

definition InitRedis ::
  "('f, 'c, 's, 'q) platform \<Rightarrow> string \<Rightarrow> string \<Rightarrow> int \<Rightarrow> 'q process_state \<Rightarrow> unit result \<times> 'q process_state" where
  "InitRedis pf addr password db p =
     (let p1 = effect (Acquired RedisClient) p in
      case pf_ConnectRedis pf addr password db of
        Some e \<Rightarrow> (Inl (wrap_err ''connect to Redis'' e), effect (Released RedisClient) p1)
      | None \<Rightarrow> (Inr (), p1))"

definition NewGoWorkerPool ::
  "('f, 'c, 's, 'q) platform \<Rightarrow> int \<Rightarrow> 'q process_state \<Rightarrow> unit result \<times> 'q process_state" where
  "NewGoWorkerPool pf n p =
     (case pf_NewPool pf n of
        Some e \<Rightarrow> (Inl (wrap_err ''create ants worker pool'' e), p)
      | None \<Rightarrow> (Inr (), effect (Acquired WorkerPool) p))"

text \<open>A task refused by ants is reported; \<open>submitted\<close> is what \<^verbatim>\<open>ants\<close> returned.\<close>

definition Submit :: "go_error option \<Rightarrow> unit result" where
  "Submit submitted =
     (case submitted of
        Some e \<Rightarrow> Inl (wrap_err ''submit task to ants worker pool'' e) | None \<Rightarrow> Inr ())"

text \<open>Releasing the pool stops it whether or not its tasks end in time (\<open>waited\<close>).\<close>

definition Release :: "'q process_state \<Rightarrow> 'q process_state" where
  "Release p = effect (Released WorkerPool) p"

definition ReleaseTimeout :: "go_error option \<Rightarrow> 'q process_state \<Rightarrow> unit result \<times> 'q process_state" where
  "ReleaseTimeout waited p =
     (case waited of
        Some e \<Rightarrow> Inl (wrap_err ''wait for worker pool shutdown'' e) | None \<Rightarrow> Inr (),
      effect (Released WorkerPool) p)"

definition ReleaseContext :: "go_error option \<Rightarrow> 'q process_state \<Rightarrow> unit result \<times> 'q process_state" where
  "ReleaseContext waited p =
     (case waited of
        Some e \<Rightarrow> Inl (wrap_err ''wait for worker pool shutdown'' e) | None \<Rightarrow> Inr (),
      effect (Released WorkerPool) p)"

section \<open>Applications\<close>

text \<open>What a background service runs, with the configuration it was given and, where it claims work, the
  instance name.\<close>

datatype background_run =
    SchedulerRun SchedulerConfig
  | ReconcilerRun RecoveryConfig
  | DispatcherRun OutboxConfig string
  | WorkerRun WorkerConfig SecurityConfig OutboxConfig string
  | CleanerRun OutboxConfig RecoveryConfig

record backgroundService =
  bs_name :: string
  bs_run :: background_run

record ('f, 's) http_server =
  hs_Addr :: string
  hs_Handler :: "moment \<Rightarrow> api_request \<Rightarrow> access_entry list \<times> 's \<Rightarrow>
    'f server_data api_response \<times> access_entry list \<times> 's"

record ('f, 's) Application =
  an_cfg :: Config
  an_role :: Role
  an_server :: "('f, 's) http_server option"
  an_background :: "backgroundService list"
  an_closers :: "resource_kind list"
  an_closed :: bool

text \<open>A closer only logs its error, so the outcome of the release does not matter.\<close>

definition run_closer :: "resource_kind \<Rightarrow> 'q process_state \<Rightarrow> 'q process_state" where
  "run_closer k p = (if k = WorkerPool then snd (ReleaseContext None p) else effect (Released k) p)"

text \<open>\<^verbatim>\<open>closeOnce\<close> is the flag \<^const>\<open>an_closed\<close>; the last registered closer runs
  first.\<close>

definition closeWithContext ::
  "('f, 's) Application \<Rightarrow> 'q process_state \<Rightarrow> ('f, 's) Application \<times> 'q process_state" where
  "closeWithContext a p =
     (if an_closed a then (a, p)
      else (a\<lparr>an_closed := True\<rparr>, CloseDatabase (fold run_closer (rev (an_closers a)) p)))"

definition Close ::
  "('f, 's) Application \<Rightarrow> 'q process_state \<Rightarrow> ('f, 's) Application \<times> 'q process_state" where
  "Close a p = closeWithContext a p"

definition fail ::
  "('f, 's) Application \<Rightarrow> go_error \<Rightarrow> 'q process_state \<Rightarrow> ('f, 's) Application result \<times> 'q process_state" where
  "fail a e p = (Inl e, snd (closeWithContext a p))"

definition newApplication ::
  "('f, 'c, 's, 'q) platform \<Rightarrow> Config option \<Rightarrow> Role \<Rightarrow> 'q process_state \<Rightarrow>
     ('f, 's) Application result \<times> 'q process_state" where
  "newApplication pf cfg0 role p =
     (case cfg0 of
        None \<Rightarrow> (Inl ''config is required'', p)
      | Some cfg \<Rightarrow>
          (let a = \<lparr>an_cfg = cfg, an_role = role, an_server = None, an_background = [],
                    an_closers = [], an_closed = False\<rparr> in
           case InitDatabase pf (cf_Database cfg) p of
             (Inl e, p') \<Rightarrow> fail a (wrap_err ''initialize database'' e) p'
           | (Inr _, p') \<Rightarrow>
               (case px_DB p' of
                  Some (Some e) \<Rightarrow> fail a (wrap_err ''get database connection'' e) p'
                | _ \<Rightarrow> (Inr a, p'))))"

definition setHTTPServer ::
  "(moment \<Rightarrow> api_request \<Rightarrow> access_entry list \<times> 's \<Rightarrow>
      'f server_data api_response \<times> access_entry list \<times> 's) \<Rightarrow>
     ('f, 's) Application \<Rightarrow> ('f, 's) Application" where
  "setHTTPServer handler a =
     a\<lparr>an_server := Some \<lparr>hs_Addr = '':'' @ show_int (sv_Port (cf_Server (an_cfg a))), hs_Handler = handler\<rparr>\<rparr>"

definition addCloser :: "resource_kind \<Rightarrow> ('f, 's) Application \<Rightarrow> ('f, 's) Application" where
  "addCloser k a = a\<lparr>an_closers := an_closers a @ [k]\<rparr>"

definition add_background :: "backgroundService list \<Rightarrow> ('f, 's) Application \<Rightarrow> ('f, 's) Application" where
  "add_background bs a = a\<lparr>an_background := an_background a @ bs\<rparr>"

definition instanceID :: "('f, 'c, 's, 'q) platform \<Rightarrow> ('f, 's) Application \<Rightarrow> string" where
  "instanceID pf a =
     role_text (an_role a) @ ''-'' @
     (case pf_Hostname pf of Inl _ \<Rightarrow> ''unknown-host'' | Inr hostname \<Rightarrow> hostname) @ ''-'' @
     show_int (pf_Pid pf)"

section \<open>Readiness\<close>

definition checkMySQLReadiness :: "('f, 'c, 's, 'q) platform \<Rightarrow> 's \<Rightarrow> (string \<times> string) list" where
  "checkMySQLReadiness pf s =
     (case pf_PingMySQL pf s of Some e \<Rightarrow> [(''mysql'', e)] | None \<Rightarrow> [])"

definition checkStreamReadiness :: "('f, 'c, 's, 'q) platform \<Rightarrow> 's \<Rightarrow> (string \<times> string) list" where
  "checkStreamReadiness pf s =
     checkMySQLReadiness pf s @ (case pf_PingRedis pf s of Some e \<Rightarrow> [(''redis'', e)] | None \<Rightarrow> [])"

section \<open>Roles\<close>

text \<open>\<^verbatim>\<open>configureAPIHTTP\<close>: the handlers get the repositories on the opened database and
  the settings of the configuration.\<close>

definition api_dependencies ::
  "('f, 'c, 's, 'q) platform \<Rightarrow> ('s \<Rightarrow> (string \<times> string) list) \<Rightarrow> Config \<Rightarrow> Role \<Rightarrow> ('f, 'c, 's) api_deps" where
  "api_dependencies pf checkReady cfg role = (pf_Base pf)\<lparr>
     dp_Config := cfg, dp_Role := role, dp_CheckReady := checkReady,
     dp_TimerEnv := (dp_TimerEnv (pf_Base pf))\<lparr>
       tv_DefaultMaxCatchUp := sc_DefaultMaxCatchUp (cf_Scheduler cfg),
       tv_AllowPrivateCallbacks := sy_AllowPrivateCallbacks (cf_Security cfg)\<rparr>\<rparr>"

definition configureAPIHTTP ::
  "('f, 'c, 's, 'q) platform \<Rightarrow> ('s \<Rightarrow> (string \<times> string) list) \<Rightarrow> ('f, 's) Application \<Rightarrow>
     ('f, 's) Application result" where
  "configureAPIHTTP pf checkReady a =
     (case newAPIHTTPHandler (pf_ParseURL pf) (api_dependencies pf checkReady (an_cfg a) (an_role a)) of
        Inl e \<Rightarrow> Inl (wrap_err ''initialize API HTTP routes'' e)
      | Inr handler \<Rightarrow> Inr (setHTTPServer handler a))"

definition configureAPI ::
  "('f, 'c, 's, 'q) platform \<Rightarrow> ('f, 's) Application \<Rightarrow> ('f, 's) Application result" where
  "configureAPI pf a = configureAPIHTTP pf (checkMySQLReadiness pf) a"

definition operational_server ::
  "('f, 'c, 's, 'q) platform \<Rightarrow> Role \<Rightarrow> ('s \<Rightarrow> (string \<times> string) list) \<Rightarrow> ('f, 's) Application \<Rightarrow>
     ('f, 's) Application" where
  "operational_server pf role checkReady a =
     setHTTPServer (newOperationalHTTPHandler (api_dependencies pf checkReady (an_cfg a) role)) a"

definition connectStream ::
  "('f, 'c, 's, 'q) platform \<Rightarrow> ('f, 's) Application \<Rightarrow> 'q process_state \<Rightarrow>
     ('f, 's) Application result \<times> 'q process_state" where
  "connectStream pf a p =
     (let cfg = cf_Redis (an_cfg a) in
      case InitRedis pf (rd_Addr cfg) (rd_Password cfg) (rd_DB cfg) p of
        (Inl e, p') \<Rightarrow> (Inl (wrap_err ''initialize Redis'' e), p')
      | (Inr _, p') \<Rightarrow> (Inr (addCloser RedisClient a), p'))"

definition configureScheduler :: "('f, 's) Application \<Rightarrow> ('f, 's) Application" where
  "configureScheduler a =
     add_background
       [\<lparr>bs_name = ''scheduler'', bs_run = SchedulerRun (cf_Scheduler (an_cfg a))\<rparr>,
        \<lparr>bs_name = ''execution-reconciler'', bs_run = ReconcilerRun (cf_Recovery (an_cfg a))\<rparr>] a"

definition ensure_group ::
  "('f, 'c, 's, 'q) platform \<Rightarrow> OutboxConfig \<Rightarrow> 'q process_state \<Rightarrow> unit result \<times> 'q process_state" where
  "ensure_group pf cfg p =
     (case EnsureConsumerGroup (pf_RedisClient pf) (oc_Stream cfg) (oc_ConsumerGroup cfg) (px_Redis p) of
        (r, q) \<Rightarrow> (map_err (wrap_err ''initialize Redis Stream consumer group'') r, p\<lparr>px_Redis := q\<rparr>))"

definition configureDispatcher ::
  "('f, 'c, 's, 'q) platform \<Rightarrow> ('f, 's) Application \<Rightarrow> 'q process_state \<Rightarrow>
     ('f, 's) Application result \<times> 'q process_state" where
  "configureDispatcher pf a p =
     (case ensure_group pf (cf_Outbox (an_cfg a)) p of
        (Inl e, p') \<Rightarrow> (Inl e, p')
      | (Inr _, p') \<Rightarrow>
          (Inr (add_background
             [\<lparr>bs_name = ''outbox-dispatcher'',
               bs_run = DispatcherRun (cf_Outbox (an_cfg a)) (instanceID pf a)\<rparr>] a), p'))"

text \<open>The pool and its closer come after every step that can fail, so a failing step leaves nothing
  behind that \<^const>\<open>fail\<close> would not release.\<close>

definition configureWorker ::
  "('f, 'c, 's, 'q) platform \<Rightarrow> ('f, 's) Application \<Rightarrow> 'q process_state \<Rightarrow>
     ('f, 's) Application result \<times> 'q process_state" where
  "configureWorker pf a p =
     (let cfg = an_cfg a in
      case ensure_group pf (cf_Outbox cfg) p of
        (Inl e, p') \<Rightarrow> (Inl e, p')
      | (Inr _, p') \<Rightarrow>
          (case NewGoWorkerPool pf (wc_PoolSize (cf_Worker cfg)) p' of
             (Inl e, p'') \<Rightarrow> (Inl (wrap_err ''create worker ants pool'' e), p'')
           | (Inr _, p'') \<Rightarrow>
               (Inr (add_background
                  [\<lparr>bs_name = ''stream-worker'',
                    bs_run = WorkerRun (cf_Worker cfg) (cf_Security cfg) (cf_Outbox cfg) (instanceID pf a)\<rparr>,
                   \<lparr>bs_name = ''stream-retention-cleaner'',
                    bs_run = CleanerRun (cf_Outbox cfg) (cf_Recovery cfg)\<rparr>]
                  (addCloser WorkerPool a)), p'')))"

text \<open>\<^verbatim>\<open>if err := \<dots>; err != nil { return application.fail(err) }\<close>: a step that
  fails closes the application as it was before the step.\<close>

definition or_fail ::
  "('f, 's) Application \<Rightarrow> ('f, 's) Application result \<times> 'q process_state \<Rightarrow>
     (('f, 's) Application \<Rightarrow> 'q process_state \<Rightarrow> ('f, 's) Application result \<times> 'q process_state) \<Rightarrow>
     ('f, 's) Application result \<times> 'q process_state" where
  "or_fail a r k = (case r of (Inl e, p) \<Rightarrow> fail a e p | (Inr a', p) \<Rightarrow> k a' p)"

type_synonym ('f, 's, 'q) builder =
  "Config option \<Rightarrow> 'q process_state \<Rightarrow> ('f, 's) Application result \<times> 'q process_state"

definition NewAPI :: "('f, 'c, 's, 'q) platform \<Rightarrow> ('f, 's, 'q) builder" where
  "NewAPI pf cfg p0 =
     (case newApplication pf cfg RoleAPI p0 of
        (Inl e, p) \<Rightarrow> (Inl e, p)
      | (Inr a, p) \<Rightarrow> or_fail a (configureAPI pf a, p) (\<lambda>a p. (Inr a, p)))"

definition NewScheduler :: "('f, 'c, 's, 'q) platform \<Rightarrow> ('f, 's, 'q) builder" where
  "NewScheduler pf cfg p0 =
     (case newApplication pf cfg RoleScheduler p0 of
        (Inl e, p) \<Rightarrow> (Inl e, p)
      | (Inr a, p) \<Rightarrow>
          (Inr (operational_server pf RoleScheduler (checkMySQLReadiness pf) (configureScheduler a)), p))"

definition NewDispatcher :: "('f, 'c, 's, 'q) platform \<Rightarrow> ('f, 's, 'q) builder" where
  "NewDispatcher pf cfg p0 =
     (case newApplication pf cfg RoleDispatcher p0 of
        (Inl e, p) \<Rightarrow> (Inl e, p)
      | (Inr a, p) \<Rightarrow>
          or_fail a (connectStream pf a p) (\<lambda>a p.
          or_fail a (configureDispatcher pf a p) (\<lambda>a p.
          (Inr (operational_server pf RoleDispatcher (checkStreamReadiness pf) a), p))))"

definition NewWorker :: "('f, 'c, 's, 'q) platform \<Rightarrow> ('f, 's, 'q) builder" where
  "NewWorker pf cfg p0 =
     (case newApplication pf cfg RoleWorker p0 of
        (Inl e, p) \<Rightarrow> (Inl e, p)
      | (Inr a, p) \<Rightarrow>
          or_fail a (connectStream pf a p) (\<lambda>a p.
          or_fail a (configureWorker pf a p) (\<lambda>a p.
          (Inr (operational_server pf RoleWorker (checkStreamReadiness pf) a), p))))"

definition NewAll :: "('f, 'c, 's, 'q) platform \<Rightarrow> ('f, 's, 'q) builder" where
  "NewAll pf cfg p0 =
     (case newApplication pf cfg RoleAll p0 of
        (Inl e, p) \<Rightarrow> (Inl e, p)
      | (Inr a, p) \<Rightarrow>
          or_fail a (connectStream pf a p) (\<lambda>a p.
          or_fail a (configureAPIHTTP pf (checkStreamReadiness pf) a, p) (\<lambda>a p.
          or_fail (configureScheduler a) (configureDispatcher pf (configureScheduler a) p) (\<lambda>a p.
          or_fail a (configureWorker pf a p) (\<lambda>a p.
          (Inr a, p))))))"

section \<open>Running\<close>

text \<open>What happens to a running application: the stop signal or the end of the server, with its error
  unless it is \<^verbatim>\<open>ErrServerClosed\<close>; the error of the server's shutdown; the components
  that stop before the deadline.\<close>

datatype stop_cause = SignalReceived | ServerEnded "go_error option"

record run_env =
  rv_Cause :: stop_cause
  rv_ShutdownErr :: "go_error option"
  rv_Stopped :: "string list"

definition or_first :: "go_error option \<Rightarrow> go_error option \<Rightarrow> go_error option" where
  "or_first e e' = (case e of None \<Rightarrow> e' | Some _ \<Rightarrow> e)"

definition Run ::
  "run_env \<Rightarrow> ('f, 's) Application \<Rightarrow> 'q process_state \<Rightarrow>
     go_error option \<times> ('f, 's) Application \<times> 'q process_state" where
  "Run env a p =
     (case an_server a of
        None \<Rightarrow> (Some ''HTTP server is not configured'', a, p)
      | Some server \<Rightarrow>
          (let names = map bs_name (an_background a);
               p1 = fold (\<lambda>n. effect (BackgroundStarted n)) names p;
               p2 = effect (ServerStarted (hs_Addr server)) p1;
               runErr = (case rv_Cause env of
                           SignalReceived \<Rightarrow> None
                         | ServerEnded e \<Rightarrow> map_option (wrap_err ''run HTTP server'') e);
               p3 = effect ServerShutdown (effect BackgroundCancelled p2);
               runErr1 = or_first runErr
                 (map_option (wrap_err ''shut down HTTP server'') (rv_ShutdownErr env));
               p4 = effect (BackgroundStopped (filter (\<lambda>n. n \<in> set (rv_Stopped env)) names)) p3;
               runErr2 = or_first runErr1
                 (if set names \<subseteq> set (rv_Stopped env) then None
                  else Some (wrap_err ''timed out waiting for background components to stop''
                               ''context deadline exceeded''))
           in (runErr2, closeWithContext a p4)))"

text \<open>The launcher: load, build, run, close.\<close>

definition launcher_Run ::
  "(string \<Rightarrow> go_error option) \<Rightarrow> Config result \<Rightarrow> ('f, 's, 'q) builder option \<Rightarrow> run_env \<Rightarrow>
     'q process_state \<Rightarrow> go_error option \<times> 'q process_state" where
  "launcher_Run openFile loaded build env p0 =
     (case build of
        None \<Rightarrow> (Some ''role builder is required'', p0)
      | Some new \<Rightarrow>
          (case loaded of
             Inl e \<Rightarrow> (Some (wrap_err ''load configuration'' e), p0)
           | Inr cfg \<Rightarrow>
               (let lg = cf_Log cfg;
                    p1 = effect (LoggerSet (logger_Init openFile (lg_Level lg) (lg_Format lg)
                           (lg_Output lg) (lg_FilePath lg))) p0 in
                case new (Some cfg) p1 of
                  (Inl e, p2) \<Rightarrow> (Some e, effect LoggerSynced p2)
                | (Inr a, p2) \<Rightarrow>
                    (case Run env a p2 of
                       (err, a', p3) \<Rightarrow> (err, effect LoggerSynced (snd (Close a' p3)))))))"

text \<open>\<^verbatim>\<open>Main\<close>: the message on the error stream and the exit status.\<close>

definition launcher_Main :: "go_error option \<Rightarrow> string option \<times> int" where
  "launcher_Main err =
     (case err of
        None \<Rightarrow> (None, 0)
      | Some e \<Rightarrow> (Some (''ChronoFlow failed to start: '' @ e), 1))"

section \<open>Entry points\<close>

text \<open>\<^verbatim>\<open>cmd/<role>/main.go\<close>: the message on the error stream, the exit status and the
  process that is left.\<close>

definition entry_point ::
  "(string \<Rightarrow> go_error option) \<Rightarrow> ('f, 's, 'q) builder \<Rightarrow> Config result \<Rightarrow> run_env \<Rightarrow> 'q process_state \<Rightarrow> (string option \<times> int) \<times> 'q process_state" where
  "entry_point openFile new loaded env p0 =
     (case launcher_Run openFile loaded (Some new) env p0 of (err, p) \<Rightarrow> (launcher_Main err, p))"

definition main_api :: "('f, 'c, 's, 'q) platform \<Rightarrow> Config result \<Rightarrow> run_env \<Rightarrow> 'q process_state \<Rightarrow>
    (string option \<times> int) \<times> 'q process_state" where
  "main_api pf = entry_point (pf_OpenFile pf) (NewAPI pf)"

definition main_scheduler :: "('f, 'c, 's, 'q) platform \<Rightarrow> Config result \<Rightarrow> run_env \<Rightarrow> 'q process_state \<Rightarrow>
    (string option \<times> int) \<times> 'q process_state" where
  "main_scheduler pf = entry_point (pf_OpenFile pf) (NewScheduler pf)"

definition main_dispatcher :: "('f, 'c, 's, 'q) platform \<Rightarrow> Config result \<Rightarrow> run_env \<Rightarrow> 'q process_state \<Rightarrow>
    (string option \<times> int) \<times> 'q process_state" where
  "main_dispatcher pf = entry_point (pf_OpenFile pf) (NewDispatcher pf)"

definition main_worker :: "('f, 'c, 's, 'q) platform \<Rightarrow> Config result \<Rightarrow> run_env \<Rightarrow> 'q process_state \<Rightarrow>
    (string option \<times> int) \<times> 'q process_state" where
  "main_worker pf = entry_point (pf_OpenFile pf) (NewWorker pf)"

definition main_all :: "('f, 'c, 's, 'q) platform \<Rightarrow> Config result \<Rightarrow> run_env \<Rightarrow> 'q process_state \<Rightarrow>
    (string option \<times> int) \<times> 'q process_state" where
  "main_all pf = entry_point (pf_OpenFile pf) (NewAll pf)"

section \<open>Resources\<close>

text \<open>The resources a run of the process takes and gives back, in order.\<close>

fun acquired :: "lifecycle_effect list \<Rightarrow> resource_kind list" where
  "acquired [] = []"
| "acquired (Acquired k # es) = k # acquired es"
| "acquired (_ # es) = acquired es"

fun released :: "lifecycle_effect list \<Rightarrow> resource_kind list" where
  "released [] = []"
| "released (Released k # es) = k # released es"
| "released (_ # es) = released es"

lemma acquired_append [simp]: "acquired (xs @ ys) = acquired xs @ acquired ys"
  by (induction xs rule: acquired.induct) auto

lemma released_append [simp]: "released (xs @ ys) = released xs @ released ys"
  by (induction xs rule: released.induct) auto

definition all_released :: "'q process_state \<Rightarrow> bool" where
  "all_released p \<longleftrightarrow> released (px_Effects p) = rev (acquired (px_Effects p)) \<and>
     prefix (acquired (px_Effects p)) [Database, RedisClient, WorkerPool]"

text \<open>An open application holds the database and what its closers release; \<open>xs\<close> are resources
  that were taken and given back on the way.\<close>

definition holds_with :: "resource_kind list \<Rightarrow> ('f, 's) Application \<Rightarrow> 'q process_state \<Rightarrow> bool" where
  "holds_with xs a p \<longleftrightarrow> \<not> an_closed a \<and> px_DB p = Some None \<and>
     acquired (px_Effects p) = Database # an_closers a @ xs \<and> released (px_Effects p) = rev xs \<and>
     prefix (Database # an_closers a @ xs) [Database, RedisClient, WorkerPool]"

lemma effect_simps [simp]:
  "px_Effects (effect e p) = px_Effects p @ [e]" "px_DB (effect e p) = px_DB p"
  "px_Redis (effect e p) = px_Redis p"
  by (simp_all add: effect_def)

lemma run_closers:
  "px_DB (fold run_closer ks p) = px_DB p \<and>
   px_Effects (fold run_closer ks p) = px_Effects p @ map Released ks"
  by (induction ks arbitrary: p) (auto simp: run_closer_def ReleaseContext_def)

lemma acquired_Released [simp]: "acquired (map Released ks) = []"
  by (induction ks) auto

lemma released_Released [simp]: "released (map Released ks) = ks"
  by (induction ks) auto

lemma close_releases:
  assumes "holds_with xs a p"
  shows "all_released (snd (closeWithContext a p))"
  using assms run_closers [of "rev (an_closers a)" p]
  by (auto simp: holds_with_def all_released_def closeWithContext_def CloseDatabase_def)

lemma close_once: "closeWithContext (fst (closeWithContext a p)) p' = (fst (closeWithContext a p), p')"
  by (simp add: closeWithContext_def)

lemma fail_releases: "holds_with xs a p \<Longrightarrow> all_released (snd (fail a e p))"
  by (simp add: fail_def close_releases)

text \<open>A builder either leaves an open application that holds its resources, or everything is released.\<close>

definition clean :: "('f, 's) Application result \<times> 'q process_state \<Rightarrow> bool" where
  "clean r \<longleftrightarrow> (case r of (Inl e, p) \<Rightarrow> all_released p | (Inr a, p) \<Rightarrow> holds_with [] a p)"

definition fresh :: "'q process_state \<Rightarrow> bool" where
  "fresh p \<longleftrightarrow> px_DB p = None \<and> acquired (px_Effects p) = [] \<and> released (px_Effects p) = []"

lemma newApplication_clean:
  assumes "fresh p"
  shows "clean (newApplication pf cfg role p)"
proof (cases cfg)
  case None
  with assms show ?thesis by (simp add: newApplication_def clean_def all_released_def fresh_def)
next
  case (Some c)
  with assms show ?thesis
    by (auto simp: newApplication_def InitDatabase_def set_handle_def clean_def fail_def holds_with_def
        all_released_def closeWithContext_def CloseDatabase_def fresh_def Let_def
        split: sum.splits prod.splits option.splits)
qed

lemma or_fail_clean:
  assumes "\<And>e p. r = (Inl e, p) \<Longrightarrow> \<exists>xs. holds_with xs a p" "\<And>a' p. r = (Inr a', p) \<Longrightarrow> clean (k a' p)"
  shows "clean (or_fail a r k)"
  using assms fail_releases
  by (fastforce simp: or_fail_def clean_def fail_def split: prod.splits sum.splits)

lemma holds_app:
  "an_closed a' = an_closed a \<Longrightarrow> an_closers a' = an_closers a \<Longrightarrow> holds_with xs a' p = holds_with xs a p"
  by (simp add: holds_with_def)

lemma setup_keeps [simp]:
  "holds_with xs (setHTTPServer h a) p = holds_with xs a p" "an_closers (setHTTPServer h a) = an_closers a"
  "holds_with xs (add_background bs a) p = holds_with xs a p" "an_closers (add_background bs a) = an_closers a"
  "holds_with xs (configureScheduler a) p = holds_with xs a p" "an_closers (configureScheduler a) = an_closers a"
  "holds_with xs (operational_server pf role ready a) p = holds_with xs a p"
  by (auto intro!: holds_app simp: setHTTPServer_def add_background_def configureScheduler_def operational_server_def)

lemma configureAPIHTTP_keeps:
  "configureAPIHTTP pf ready a = Inr a' \<Longrightarrow> holds_with xs a' p = holds_with xs a p \<and> an_closers a' = an_closers a"
  by (auto simp: configureAPIHTTP_def split: sum.splits)

lemma ensure_group_keeps:
  "ensure_group pf cfg p = (r, p') \<Longrightarrow> px_DB p' = px_DB p \<and> px_Effects p' = px_Effects p"
  by (auto simp: ensure_group_def split: prod.splits)

lemma connectStream_step:
  assumes "holds_with [] a p" "an_closers a = []" "connectStream pf a p = (r, p')"
  shows "(case r of Inl _ \<Rightarrow> holds_with [RedisClient] a p'
    | Inr a' \<Rightarrow> holds_with [] a' p' \<and> an_closers a' = [RedisClient])"
  using assms
  by (auto simp: connectStream_def InitRedis_def holds_with_def addCloser_def Let_def
      split: option.splits prod.splits sum.splits)

lemma configureDispatcher_step:
  assumes "holds_with [] a p" "configureDispatcher pf a p = (r, p')"
  shows "(case r of Inl _ \<Rightarrow> holds_with [] a p' | Inr a' \<Rightarrow> holds_with [] a' p' \<and> an_closers a' = an_closers a)"
  using assms
  by (auto simp: configureDispatcher_def holds_with_def add_background_def
      split: prod.splits sum.splits dest: ensure_group_keeps)

lemma configureWorker_step:
  assumes "holds_with [] a p" "an_closers a = [RedisClient]" "configureWorker pf a p = (r, p')"
  shows "(case r of Inl _ \<Rightarrow> holds_with [] a p' | Inr a' \<Rightarrow> holds_with [] a' p')"
  using assms
  by (auto simp: configureWorker_def NewGoWorkerPool_def holds_with_def add_background_def addCloser_def Let_def
      split: prod.splits sum.splits option.splits dest!: ensure_group_keeps)

lemma newApplication_closers: "newApplication pf cfg role p = (Inr a, p') \<Longrightarrow> an_closers a = []"
  by (auto simp: newApplication_def fail_def Let_def split: option.splits sum.splits prod.splits)

text \<open>The roles.\<close>

lemma new_then_clean:
  assumes "fresh p0"
    and "\<And>a p. newApplication pf cfg role p0 = (Inr a, p) \<Longrightarrow> holds_with [] a p \<Longrightarrow> an_closers a = [] \<Longrightarrow>
      clean (k a p)"
  shows "clean (case newApplication pf cfg role p0 of (Inl e, p) \<Rightarrow> (Inl e, p) | (Inr a, p) \<Rightarrow> k a p)"
  using newApplication_clean [OF assms(1), of pf cfg role] assms(2) newApplication_closers [of pf cfg role p0]
  by (auto simp: clean_def split: prod.splits sum.splits)

lemma connected_clean:
  assumes "holds_with [] a p" "an_closers a = []"
    and "\<And>a' p'. holds_with [] a' p' \<Longrightarrow> an_closers a' = [RedisClient] \<Longrightarrow> clean (k a' p')"
  shows "clean (or_fail a (connectStream pf a p) k)"
  using connectStream_step [OF assms(1,2)] assms(3) by (intro or_fail_clean) (fastforce split: sum.splits)+

lemma dispatching_clean:
  assumes "holds_with [] a p"
    and "\<And>a' p'. holds_with [] a' p' \<Longrightarrow> an_closers a' = an_closers a \<Longrightarrow> clean (k a' p')"
  shows "clean (or_fail a (configureDispatcher pf a p) k)"
  using configureDispatcher_step [OF assms(1)] assms(2) by (intro or_fail_clean) (fastforce split: sum.splits)+

lemma working_clean:
  assumes "holds_with [] a p" "an_closers a = [RedisClient]"
    and "\<And>a' p'. holds_with [] a' p' \<Longrightarrow> clean (k a' p')"
  shows "clean (or_fail a (configureWorker pf a p) k)"
  using configureWorker_step [OF assms(1,2)] assms(3) by (intro or_fail_clean) (fastforce split: sum.splits)+

lemma serving_clean:
  assumes "holds_with [] a p"
    and "\<And>a'. holds_with [] a' p \<Longrightarrow> an_closers a' = an_closers a \<Longrightarrow> clean (k a' p)"
  shows "clean (or_fail a (configureAPIHTTP pf ready a, p) k)"
  using assms configureAPIHTTP_keeps by (intro or_fail_clean) blast+

lemma done_clean: "holds_with [] a p \<Longrightarrow> clean (Inr a, p)"
  by (simp add: clean_def)

lemma builders_clean:
  assumes "fresh p0"
  shows "clean (NewAPI pf cfg p0)" "clean (NewScheduler pf cfg p0)" "clean (NewDispatcher pf cfg p0)"
    "clean (NewWorker pf cfg p0)" "clean (NewAll pf cfg p0)"
  unfolding NewAPI_def NewScheduler_def NewDispatcher_def NewWorker_def NewAll_def configureAPI_def
  by (intro new_then_clean [OF assms] connected_clean dispatching_clean working_clean serving_clean done_clean;
      simp)+

lemma Run_releases:
  assumes "holds_with [] a p" "Run env a p = (err, a', p')" "an_server a \<noteq> None"
  shows "all_released p' \<and> an_closed a'"
proof -
  have started: "px_DB (fold (\<lambda>n. effect (BackgroundStarted n)) ns q) = px_DB q \<and>
      px_Effects (fold (\<lambda>n. effect (BackgroundStarted n)) ns q) = px_Effects q @ map BackgroundStarted ns" for ns q
    by (induction ns arbitrary: q) auto
  have quiet: "acquired (map BackgroundStarted ns) = [] \<and> released (map BackgroundStarted ns) = []" for ns
    by (induction ns) auto
  from assms(3) obtain server where server: "an_server a = Some server" by auto
  define names where "names = map bs_name (an_background a)"
  define q where "q = effect (BackgroundStopped (filter (\<lambda>n. n \<in> set (rv_Stopped env)) names))
    (effect ServerShutdown (effect BackgroundCancelled (effect (ServerStarted (hs_Addr server))
      (fold (\<lambda>n. effect (BackgroundStarted n)) names p))))"
  have close: "closeWithContext a q = (a', p')"
    using assms(2) server by (simp add: Run_def Let_def q_def names_def)
  have same: "px_DB q = px_DB p" "acquired (px_Effects q) = acquired (px_Effects p)"
      "released (px_Effects q) = released (px_Effects p)"
    by (simp_all add: q_def started quiet)
  from assms(1) same have "holds_with [] a q" by (simp add: holds_with_def)
  from close_releases [OF this] close this show ?thesis by (auto simp: closeWithContext_def holds_with_def split: if_splits)
qed

end
