(* ===== verification/Process_Services.thy ===== *)
theory Process_Services
  imports App_Lifecycle Timer_Service Scheduler Reconciler
begin

text \<open>
  What the background services of an application run: the constructors of
  \<^verbatim>\<open>internal/service\<close> and \<^verbatim>\<open>internal/pkg/redis\<close> with the repositories on the opened
  database, as \<^verbatim>\<open>internal/app\<close> calls them, and the loop behind each
  \<^verbatim>\<open>backgroundService\<close>.
\<close>

section \<open>Constructors\<close>

definition NewStreamConsumer :: "'q redis_client \<Rightarrow> 'q workerStream" where
  "NewStreamConsumer client = \<lparr>ws_ReadNew = ReadNew client, ws_AutoClaim = AutoClaim client,
     ws_Ack = Ack client, ws_PendingCount = PendingCount client\<rparr>"

definition NewStreamPublisher :: "'q redis_client \<Rightarrow> (json \<Rightarrow> string) \<Rightarrow> 'q publisher" where
  "NewStreamPublisher client print = Publish client print"

definition NewScheduler_service ::
  "'s DueTimerRepository \<Rightarrow> 'c cron_lib \<Rightarrow> SchedulerConfig \<Rightarrow> ('c, 's) Scheduler" where
  "NewScheduler_service repo parser cfg = \<lparr>sd_repo = repo, sd_parser = parser, sd_cfg = cfg\<rparr>"

definition NewOutboxDispatcher ::
  "'s OutboxRepository \<Rightarrow> 'p publisher \<Rightarrow> OutboxConfig \<Rightarrow> string \<Rightarrow> ('p, 's) OutboxDispatcher" where
  "NewOutboxDispatcher repo publisher cfg owner =
     \<lparr>od_repo = repo, od_publisher = publisher, od_cfg = cfg, od_owner = owner\<rparr>"

definition NewReconciler ::
  "'s RecoveryRepository \<Rightarrow> 's TimerExecutionRepository \<Rightarrow> RecoveryConfig \<Rightarrow> 's Reconciler" where
  "NewReconciler recoveryRepo executionRepo cfg =
     \<lparr>rn_recoveryRepo = recoveryRepo, rn_executionRepo = executionRepo, rn_cfg = cfg\<rparr>"

definition NewStreamWorker ::
  "'s TimerExecutionRepository \<Rightarrow> 'q workerStream \<Rightarrow> WorkerConfig \<Rightarrow> OutboxConfig \<Rightarrow> string \<Rightarrow>
     ('q, 's) StreamWorker" where
  "NewStreamWorker repo stream workerCfg outboxCfg consumerID =
     \<lparr>sw_repo = repo, sw_stream = stream, sw_workerCfg = workerCfg, sw_outboxCfg = outboxCfg,
      sw_consumerID = consumerID\<rparr>"

definition NewConfiguredCallbackClient :: "net_lib \<Rightarrow> WorkerConfig \<Rightarrow> SecurityConfig \<Rightarrow> Client" where
  "NewConfiguredCallbackClient net workerCfg securityCfg =
     NewClient net (seconds (wc_HTTPTimeoutSeconds workerCfg)) (wc_MaxResponseBytes workerCfg)
       (sy_AllowPrivateCallbacks securityCfg)"

section \<open>The background services\<close>

text \<open>What the services of a process see: the libraries, and the instants and answers each of their
  loops meets.  \<open>sv_network\<close> is what the callback servers answer while a message is processed, and
  \<open>sv_order\<close> the order in which the headers of a snapshot are ranged over.\<close>

record ('c, 'q) services_env =
  sv_cron :: "'c cron_lib"
  sv_net :: net_lib
  sv_redis :: "'q redis_client"
  sv_print :: "json \<Rightarrow> string"
  sv_network :: "string \<Rightarrow> network"
  sv_order :: "string_map \<Rightarrow> (string \<times> string) list"
  sv_schedule :: "(time \<times> duration) \<times> (time \<times> duration) list"
  sv_recovery :: "time \<times> tick list"
  sv_dispatch :: "dispatch_round \<times> dispatch_round list"
  sv_work :: "time \<times> worker_turn list"
  sv_trim :: "time list"

text \<open>A turn of the Worker whose callbacks go through the configured client.\<close>

definition calling_back :: "('c, 'q) services_env \<Rightarrow> Client \<Rightarrow> worker_turn \<Rightarrow> worker_turn" where
  "calling_back env client u = u\<lparr>wt_env := (\<lambda>messageID. (wt_env u messageID)\<lparr>
     ae_callback := (\<lambda>snapshot executionID.
       Execute (sv_net env) client (sv_network env messageID) snapshot
         (sv_order env (cs_Headers snapshot)) executionID)\<rparr>)\<rparr>"

text \<open>With the state comes the panic that ended the service, if there was one.  The loop of the Worker has no
  ticker.\<close>

fun run_background ::
  "('c, 'q) services_env \<Rightarrow> background_run \<Rightarrow> ('q, world) worker_state \<Rightarrow>
     go_error option \<times> ('q, world) worker_state" where
  "run_background env (SchedulerRun cfg) (reporter, q, s) =
     (case Scheduler_Start (NewScheduler_service world_due_repo (sv_cron env) cfg)
             (fst (sv_schedule env)) (snd (sv_schedule env)) (reporter, s) of
        (panic, reporter', s') \<Rightarrow> (panic, reporter', q, s'))"
| "run_background env (ReconcilerRun cfg) (reporter, q, s) =
     (case Reconciler_Start (NewReconciler world_recovery_repo world_execution_repo cfg)
             (fst (sv_recovery env)) (snd (sv_recovery env)) (reporter, s) of
        (panic, reporter', s') \<Rightarrow> (panic, reporter', q, s'))"
| "run_background env (DispatcherRun cfg owner) st =
     OutboxDispatcher_Start
       (NewOutboxDispatcher world_outbox_repo (NewStreamPublisher (sv_redis env) (sv_print env)) cfg owner)
       (fst (sv_dispatch env)) (snd (sv_dispatch env)) st"
| "run_background env (WorkerRun workerCfg securityCfg outboxCfg consumerID) st =
     (None, StreamWorker_Start
       (NewStreamWorker world_execution_repo (NewStreamConsumer (sv_redis env)) workerCfg outboxCfg consumerID)
       (fst (sv_work env))
       (map (calling_back env (NewConfiguredCallbackClient (sv_net env) workerCfg securityCfg)) (snd (sv_work env))) st)"
| "run_background env (CleanerRun outboxCfg recoveryCfg) (reporter, q, s) =
     (case StreamRetentionCleaner_Start
             (NewStreamRetentionCleaner (TrimAcknowledgedBefore (sv_redis env)) outboxCfg recoveryCfg)
             (sv_trim env) (reporter, q) of
        (panic, reporter', q') \<Rightarrow> (panic, reporter', q', s))"

section \<open>The services keep the database consistent\<close>

text \<open>A Dispatcher needs a name to hold claims under.\<close>

fun named_run :: "background_run \<Rightarrow> bool" where
  "named_run (DispatcherRun cfg owner) \<longleftrightarrow> owner \<noteq> []"
| "named_run _ \<longleftrightarrow> True"

lemma run_background_keeps:
  assumes "world_ok (snd (snd st))" "named_run r"
  shows "world_ok (snd (snd (snd (run_background env r st))))"
proof -
  obtain reporter q s where st: "st = (reporter, q, s)" by (rule prod_cases3)
  with assms(1) have s: "world_ok s" by simp
  show ?thesis
  proof (cases r)
    case (SchedulerRun cfg)
    with world_due.Start_inv [of "NewScheduler_service world_due_repo (sv_cron env) cfg" "(reporter, s)"
        "fst (sv_schedule env)" "snd (sv_schedule env)"] s show ?thesis
      by (auto simp: st NewScheduler_service_def split: prod.split)
  next
    case (ReconcilerRun cfg)
    with world_recovery.Reconciler_Start_inv [of "NewReconciler world_recovery_repo world_execution_repo cfg"
        "(reporter, s)" "fst (sv_recovery env)" "snd (sv_recovery env)"] s show ?thesis
      by (auto simp: st NewReconciler_def split: prod.split)
  next
    case (DispatcherRun cfg owner)
    with assms show ?thesis by (simp add: world_outbox.Start_inv NewOutboxDispatcher_def)
  next
    case (WorkerRun wc sc oc consumer)
    with assms(1) show ?thesis by (simp add: world_execution.Start_inv NewStreamWorker_def)
  next
    case (CleanerRun oc rc)
    with s show ?thesis by (simp add: st split: prod.splits)
  qed
qed

text \<open>A service panics only when its ticker does.\<close>

fun ticking_run :: "background_run \<Rightarrow> bool" where
  "ticking_run (SchedulerRun cfg) \<longleftrightarrow> 0 < millis (sc_PollIntervalMS cfg)"
| "ticking_run (ReconcilerRun cfg) \<longleftrightarrow>
     0 < seconds (rc_ScanIntervalSeconds cfg) \<and> 0 < mins (rc_CleanupIntervalMinutes cfg)"
| "ticking_run (DispatcherRun cfg owner) \<longleftrightarrow> 0 < millis (oc_PollIntervalMS cfg)"
| "ticking_run (WorkerRun workerCfg securityCfg outboxCfg consumerID) \<longleftrightarrow> True"
| "ticking_run (CleanerRun outboxCfg recoveryCfg) \<longleftrightarrow> 0 < mins (rc_CleanupIntervalMinutes recoveryCfg)"

lemma ticking_run_returns: "ticking_run r \<Longrightarrow> fst (run_background env r st) = None"
  by (cases st; cases r)
     (auto simp: Scheduler_Start_def Reconciler_Start_def OutboxDispatcher_Start_def StreamRetentionCleaner_Start_def
        NewScheduler_service_def NewReconciler_def NewOutboxDispatcher_def NewStreamRetentionCleaner_def
        polling_returns NewTicker_def Let_def split: prod.splits)

lemma instanceID_nonempty: "instanceID pf a \<noteq> []"
  by (simp add: instanceID_def)

end
