(* ===== verification/Lifecycle_Properties.thy ===== *)
theory Lifecycle_Properties
  imports Api_Properties Process_Services
begin

text \<open>
  How a process of each role starts and stops: the components it runs, the resources it gives back, and
  what its readiness check tells.
\<close>

definition role_builders :: "('f, 'c, 's, 'q) platform \<Rightarrow> (Role \<times> ('f, 's, 'q) builder) list" where
  "role_builders pf =
     [(RoleAPI, NewAPI pf), (RoleScheduler, NewScheduler pf), (RoleDispatcher, NewDispatcher pf),
      (RoleWorker, NewWorker pf), (RoleAll, NewAll pf)]"

definition sample_redis :: "unit redis_client" where
  "sample_redis = \<lparr>rc_XReadGroup = (\<lambda>_ _ _ _ _ q. (Inr None, q)), rc_XAutoClaim = (\<lambda>_ _ _ _ _ _ q. (Inr None, q)),
     rc_XAck = (\<lambda>_ _ _ q. (Inr 1, q)), rc_XPending = (\<lambda>_ _ q. (Inr \<lparr>xp_Count = 0, xp_Lower = []\<rparr>, q)),
     rc_XTrimMinID = (\<lambda>_ _ q. (Inr 0, q)),
     rc_XGroupCreateMkStream = (\<lambda>_ _ _ q. (Some ''BUSYGROUP Consumer Group name already exists'', q)),
     rc_XAdd = (\<lambda>_ _ _ q. (Inr ''1-0'', q))\<rparr>"

definition sample_platform :: "(nat, unit, world, unit) platform" where
  "sample_platform = \<lparr>pf_Base = sample_deps, pf_OpenDatabase = (\<lambda>_ _. Inr None), pf_PingMySQL = (\<lambda>_. None),
     pf_ConnectRedis = (\<lambda>_ _ _. None), pf_PingRedis = (\<lambda>_. Some ''connection refused''),
     pf_RedisClient = sample_redis, pf_NewPool = (\<lambda>_. None), pf_ParseURL = (\<lambda>_. None),
     pf_OpenFile = (\<lambda>_. None), pf_Hostname = Inr ''host'', pf_Pid = 7\<rparr>"

definition new_process :: "unit process_state" where
  "new_process = \<lparr>px_DB = None, px_Redis = (), px_Effects = []\<rparr>"

section \<open>What a role runs\<close>

lemma newApplication_app:
  "newApplication pf cfg role p0 = (Inr a, p) \<Longrightarrow>
     \<exists>c. cfg = Some c \<and> an_cfg a = c \<and> an_role a = role \<and> an_background a = []"
  by (auto simp: newApplication_def fail_def Let_def split: option.splits sum.splits prod.splits)

lemma or_fail_Inr: "or_fail a r k = (Inr b, p) \<Longrightarrow> \<exists>a' p'. r = (Inr a', p') \<and> k a' p' = (Inr b, p)"
  by (auto simp: or_fail_def fail_def split: prod.splits sum.splits)

lemma connectStream_Inr:
  "connectStream pf a p = (Inr a', p') \<Longrightarrow> a' = addCloser RedisClient a"
  by (auto simp: connectStream_def Let_def split: prod.splits sum.splits)

lemma configureDispatcher_Inr:
  "configureDispatcher pf a p = (Inr a', p') \<Longrightarrow>
     a' = add_background [\<lparr>bs_name = ''outbox-dispatcher'',
       bs_run = DispatcherRun (cf_Outbox (an_cfg a)) (instanceID pf a)\<rparr>] a"
  by (auto simp: configureDispatcher_def split: prod.splits sum.splits)

lemma configureWorker_Inr:
  "configureWorker pf a p = (Inr a', p') \<Longrightarrow>
     a' = add_background
       [\<lparr>bs_name = ''stream-worker'',
         bs_run = WorkerRun (cf_Worker (an_cfg a)) (cf_Security (an_cfg a)) (cf_Outbox (an_cfg a)) (instanceID pf a)\<rparr>,
        \<lparr>bs_name = ''stream-retention-cleaner'', bs_run = CleanerRun (cf_Outbox (an_cfg a)) (cf_Recovery (an_cfg a))\<rparr>]
       (addCloser WorkerPool a)"
  by (auto simp: configureWorker_def Let_def split: prod.splits sum.splits)

lemma configureAPIHTTP_Inr:
  "configureAPIHTTP pf ready a = Inr a' \<Longrightarrow>
     a' = setHTTPServer (serve_api (api_dependencies pf ready (an_cfg a) (an_role a))) a"
  by (auto simp: configureAPIHTTP_def newAPIHTTPHandler_def Let_def split: sum.splits option.splits if_splits)

lemmas application_defs = setHTTPServer_def add_background_def configureScheduler_def operational_server_def
  addCloser_def

lemmas step_results = or_fail_Inr newApplication_app connectStream_Inr configureDispatcher_Inr
  configureWorker_Inr configureAPIHTTP_Inr

text \<open>The handler of a role and the check behind its readiness.\<close>

definition role_ready :: "('f, 'c, 's, 'q) platform \<Rightarrow> Role \<Rightarrow> 's \<Rightarrow> (string \<times> string) list" where
  "role_ready pf role =
     (if role \<in> {RoleAPI, RoleScheduler} then checkMySQLReadiness pf else checkStreamReadiness pf)"

definition role_handler :: "('f, 'c, 's, 'q) platform \<Rightarrow> Role \<Rightarrow> Config \<Rightarrow> moment \<Rightarrow> api_request \<Rightarrow>
    access_entry list \<times> 's \<Rightarrow> 'f server_data api_response \<times> access_entry list \<times> 's" where
  "role_handler pf role cfg =
     (if role \<in> {RoleAPI, RoleAll} then serve_api (api_dependencies pf (role_ready pf role) cfg role)
      else newOperationalHTTPHandler (api_dependencies pf (role_ready pf role) cfg role))"

lemma built_application:
  assumes "(role, new) \<in> set (role_builders pf)" "new (Some cfg) p0 = (Inr a, p)"
  shows "an_role a = role \<and> an_cfg a = cfg \<and>
    map bs_name (an_background a) = filter (\<lambda>c. c \<noteq> ''api'') (Components role) \<and>
    map_option hs_Handler (an_server a) = Some (role_handler pf role cfg)"
proof -
  from assms(1) consider "role = RoleAPI" "new = NewAPI pf" | "role = RoleScheduler" "new = NewScheduler pf"
    | "role = RoleDispatcher" "new = NewDispatcher pf" | "role = RoleWorker" "new = NewWorker pf"
    | "role = RoleAll" "new = NewAll pf"
    by (auto simp: role_builders_def)
  then show ?thesis
  proof cases
    case 1
    with assms(2) show ?thesis
      by (auto simp: NewAPI_def configureAPI_def role_handler_def role_ready_def application_defs
          split: prod.splits sum.splits dest!: step_results)
  next
    case 2
    with assms(2) show ?thesis
      by (auto simp: NewScheduler_def role_handler_def role_ready_def application_defs
          split: prod.splits sum.splits dest!: step_results)
  next
    case 3
    with assms(2) show ?thesis
      by (auto simp: NewDispatcher_def role_handler_def role_ready_def application_defs
          split: prod.splits sum.splits dest!: step_results)
  next
    case 4
    with assms(2) show ?thesis
      by (auto simp: NewWorker_def role_handler_def role_ready_def application_defs
          split: prod.splits sum.splits dest!: step_results)
  next
    case 5
    with assms(2) show ?thesis
      by (auto simp: NewAll_def role_handler_def role_ready_def application_defs
          split: prod.splits sum.splits dest!: step_results)
  qed
qed


lemma sample_worker_built:
  "\<exists>a p. NewWorker sample_platform (Some sample_config) new_process = (Inr a, p)"
  by (simp add: NewWorker_def newApplication_def InitDatabase_def set_handle_def new_process_def
      sample_platform_def connectStream_def InitRedis_def or_fail_def configureWorker_def ensure_group_def
      EnsureConsumerGroup_def sample_redis_def HasPrefix_iff NewGoWorkerPool_def Let_def)


text \<open>Readiness tells whether the dependencies of the role answer.  The readiness endpoint of a role
  answers 200 exactly when the database answers a ping and, for the roles that use the stream, Redis does
  too; the health endpoint answers 200 whatever the dependencies do.  Neither needs the API key.\<close>

lemma readiness_reflects_dependencies:
  assumes "(role, new) \<in> set (role_builders pf)" "new (Some cfg) p0 = (Inr a, p)"
    and "an_server a = Some server" "ap_Method c = ''GET''" "\<not> HasPrefix (ap_Path c) ''/api/''"
    and "\<And>rs r. rs \<in> {operational_routes, api_routes cfg} \<Longrightarrow> (''GET'', ap_Path c, r) \<in> set rs \<Longrightarrow>
      dp_Match (pf_Base pf) rs c = Some (r, params)"
    and "hs_Handler server mt c (log, s) = (resp, log', s')"
  shows "(ap_Path c = ''/ready'' \<longrightarrow> (as_Status resp = 200 \<longleftrightarrow>
      pf_PingMySQL pf s = None \<and> (role \<in> {RoleDispatcher, RoleWorker, RoleAll} \<longrightarrow> pf_PingRedis pf s = None))) \<and>
    (ap_Path c = ''/health'' \<longrightarrow> as_Status resp = 200) \<and>
    (ap_Path c \<in> {''/ready'', ''/health''} \<longrightarrow> s' = s)"
proof -
  have h: "hs_Handler server = role_handler pf role cfg"
    using built_application [OF assms(1,2)] assms(3) by simp
  define deps where "deps = api_dependencies pf (role_ready pf role) cfg role"
  have match: "dp_Match deps = dp_Match (pf_Base pf)" "dp_CheckReady deps = role_ready pf role"
    "dp_Config deps = cfg" "dp_Role deps = role"
    by (simp_all add: deps_def api_dependencies_def)
  have api: "dp_Match deps (api_routes cfg) c = Some (r, params) \<and>
      dp_Match deps operational_routes c = Some (r, params)"
    if "(''GET'', ap_Path c, r) \<in> set operational_routes" for r
    using that assms(6) [of "api_routes cfg" r] assms(6) [of operational_routes r]
    by (simp add: match api_routes_def)
  have ready: "role_ready pf role s = [] \<longleftrightarrow> pf_PingMySQL pf s = None \<and>
      (role \<in> {RoleDispatcher, RoleWorker, RoleAll} \<longrightarrow> pf_PingRedis pf s = None)"
    using assms(1) by (auto simp: role_ready_def checkMySQLReadiness_def checkStreamReadiness_def
        role_builders_def split: option.splits)
  have resp: "as_Status resp = as_Status r0 \<and> s' = s"
    if "(''GET'', ap_Path c, r) \<in> set operational_routes" "operational_handler deps mt r s = Some r0"
      "r \<in> {ReadyRoute, HealthRoute}" for r r0
    using assms(4,5,7) api [OF that(1)] that(2,3)
    by (auto simp: h role_handler_def deps_def [symmetric] serve_api_def newOperationalHTTPHandler_def newRouter_def
        Logger_def CORS_def APISecurity_def api_handler_def match split: if_splits)
  show ?thesis
  proof (intro conjI impI)
    assume path: "ap_Path c = ''/ready''"
    show "(as_Status resp = 200) = (pf_PingMySQL pf s = None \<and>
        (role \<in> {RoleDispatcher, RoleWorker, RoleAll} \<longrightarrow> pf_PingRedis pf s = None))"
      using resp [of ReadyRoute "ready_response role (Components role) (role_ready pf role s)"] path ready
      by (auto simp: operational_routes_def operational_handler_def match ready_response_def respond_def
          Let_def split: if_splits)
  next
    assume path: "ap_Path c = ''/health''"
    show "as_Status resp = 200"
      using resp [of HealthRoute] path
      by (simp add: operational_routes_def operational_handler_def health_response_def respond_def)
  next
    assume path: "ap_Path c \<in> {''/ready'', ''/health''}"
    show "s' = s"
      using resp [of HealthRoute] resp [of ReadyRoute] path
      by (auto simp: operational_routes_def operational_handler_def Let_def)
  qed
qed

lemma sample_dispatcher_built:
  "\<exists>a p. NewDispatcher sample_platform (Some sample_config) new_process = (Inr a, p)"
  by (simp add: NewDispatcher_def newApplication_def InitDatabase_def set_handle_def new_process_def
      sample_platform_def connectStream_def InitRedis_def or_fail_def configureDispatcher_def ensure_group_def
      EnsureConsumerGroup_def sample_redis_def HasPrefix_iff Let_def)

section \<open>What a running process does to the database\<close>

lemma built_runs:
  assumes "(role, new) \<in> set (role_builders pf)" "new (Some cfg) p0 = (Inr a, p)"
  shows "\<forall>b \<in> set (an_background a). named_run (bs_run b)"
proof -
  from assms(1) consider "new = NewAPI pf" | "new = NewScheduler pf" | "new = NewDispatcher pf"
    | "new = NewWorker pf" | "new = NewAll pf"
    by (auto simp: role_builders_def)
  then show ?thesis
    by cases (use assms(2) in \<open>auto simp: NewAPI_def NewScheduler_def NewDispatcher_def NewWorker_def NewAll_def
      configureAPI_def application_defs instanceID_nonempty split: prod.splits sum.splits dest!: step_results\<close>)
qed

lemma operational_keeps: "I s \<Longrightarrow> I (snd (snd (newOperationalHTTPHandler deps mt c (log, s))))"
  unfolding newOperationalHTTPHandler_def
  by (rule newRouter_keeps [where I = I]) (auto split: option.splits)

text \<open>C18: A process keeps the database consistent.  Whichever role an application was built for, each of
  its background services, started from any consistent database and run for any number of rounds with any
  answers of Redis and of the callback servers, leaves the database consistent, and so does any request its HTTP
  server answers; statements may fail and other processes may write in between, as long as they keep the
  database consistent themselves.\<close>

theorem application_keeps_database_consistent:
  assumes "(role, new) \<in> set (role_builders pf)" "new (Some cfg) p0 = (Inr a, p)"
    and "dp_TimerRepo (pf_Base pf) = world_timer_repo" "dp_ExecutionRepo (pf_Base pf) = world_query_repo"
    and "world_ok s"
  shows "(\<forall>b \<in> set (an_background a). world_ok (snd (snd (snd (run_background env (bs_run b) (rep, q, s)))))) \<and>
    (\<forall>server. an_server a = Some server \<longrightarrow>
      world_ok (snd (snd (hs_Handler server mt c (log, s)))))"
proof (intro conjI ballI allI impI)
  fix b assume "b \<in> set (an_background a)"
  with built_runs [OF assms(1,2)] have "named_run (bs_run b)" by blast
  with assms(5) show "world_ok (snd (snd (snd (run_background env (bs_run b) (rep, q, s)))))"
    by (simp add: run_background_keeps)
next
  fix server assume "an_server a = Some server"
  with built_application [OF assms(1,2)] have "hs_Handler server = role_handler pf role cfg" by simp
  with assms(3-5) show "world_ok (snd (snd (hs_Handler server mt c (log, s))))"
    by (simp add: role_handler_def api_dependencies_def serve_api_keeps operational_keeps)
qed

definition sample_services :: "(unit, unit) services_env" where
  "sample_services = \<lparr>sv_cron = periodic_cron 30, sv_net = sample_net, sv_redis = sample_redis,
     sv_print = (\<lambda>_. ''0''), sv_network = (\<lambda>_. redirecting_network), sv_order = (\<lambda>_. []),
     sv_schedule = ((15, 1), [(45, 1)]), sv_recovery = (15, [ScanTick 30, CleanupTick 40]),
     sv_dispatch = (sample_round, [sample_round]), sv_work = (0, []), sv_trim = [40]\<rparr>"

theorem application_keeps_database_consistent_witness:
  "\<exists>a p. NewScheduler sample_platform (Some sample_config) new_process = (Inr a, p) \<and>
     map bs_name (an_background a) = [''scheduler'', ''execution-reconciler''] \<and>
     (\<forall>b \<in> set (an_background a).
        world_ok (snd (snd (snd (run_background sample_services (bs_run b) (NewReporter, (), lone_world 15 stage2))))))"
proof -
  obtain a p where built: "NewScheduler sample_platform (Some sample_config) new_process = (Inr a, p)"
    and names: "map bs_name (an_background a) = [''scheduler'', ''execution-reconciler'']"
    by (simp add: NewScheduler_def newApplication_def InitDatabase_def set_handle_def new_process_def
        sample_platform_def application_defs Let_def)
  have "(RoleScheduler, NewScheduler sample_platform) \<in> set (role_builders sample_platform)"
    "dp_TimerRepo (pf_Base sample_platform) = world_timer_repo"
    "dp_ExecutionRepo (pf_Base sample_platform) = world_query_repo" "world_ok (lone_world 15 stage2)"
    using stage_consistent(2) by (simp_all add: role_builders_def sample_platform_def sample_deps_def)
  from application_keeps_database_consistent [OF this(1) built this(2-4), THEN conjunct1] built names
  show ?thesis by (intro exI conjI)
qed

section \<open>No service panics\<close>

text \<open>The intervals whose tickers a \<^verbatim>\<open>time.Duration\<close> can hold.\<close>

definition clock_range :: "Config \<Rightarrow> bool" where
  "clock_range cfg \<longleftrightarrow>
     sc_PollIntervalMS (cf_Scheduler cfg) \<le> 9223372036854 \<and> oc_PollIntervalMS (cf_Outbox cfg) \<le> 9223372036854 \<and>
     wc_HeartbeatSeconds (cf_Worker cfg) \<le> 9223372036 \<and> rc_ScanIntervalSeconds (cf_Recovery cfg) \<le> 9223372036 \<and>
     rc_CleanupIntervalMinutes (cf_Recovery cfg) \<le> 153722867"

lemma built_run_configs:
  assumes "(role, new) \<in> set (role_builders pf)" "new (Some cfg) p0 = (Inr a, p)" "b \<in> set (an_background a)"
  shows "bs_run b \<in> {SchedulerRun (cf_Scheduler cfg), ReconcilerRun (cf_Recovery cfg), CleanerRun (cf_Outbox cfg) (cf_Recovery cfg)} \<or>
    (\<exists>owner. bs_run b = DispatcherRun (cf_Outbox cfg) owner) \<or>
    (\<exists>consumer. bs_run b = WorkerRun (cf_Worker cfg) (cf_Security cfg) (cf_Outbox cfg) consumer)"
proof -
  from assms(1) consider "new = NewAPI pf" | "new = NewScheduler pf" | "new = NewDispatcher pf"
    | "new = NewWorker pf" | "new = NewAll pf"
    by (auto simp: role_builders_def)
  then show ?thesis
    by cases (use assms(2,3) in \<open>auto simp: NewAPI_def NewScheduler_def NewDispatcher_def NewWorker_def NewAll_def
      configureAPI_def application_defs split: prod.splits sum.splits dest!: step_results\<close>)
qed

lemma built_ticks:
  assumes "(role, new) \<in> set (role_builders pf)" "new (Some cfg) p0 = (Inr a, p)" "clock_range cfg"
    and "scheduler_config_ok (cf_Scheduler cfg)" "outbox_config_ok (cf_Outbox cfg)" "recovery_config_ok (cf_Recovery cfg)"
    and "b \<in> set (an_background a)"
  shows "ticking_run (bs_run b)"
proof -
  have "0 < millis (sc_PollIntervalMS (cf_Scheduler cfg))" "0 < millis (oc_PollIntervalMS (cf_Outbox cfg))"
    "0 < seconds (rc_ScanIntervalSeconds (cf_Recovery cfg))" "0 < mins (rc_CleanupIntervalMinutes (cf_Recovery cfg))"
    using assms(3-6) by (auto simp: clock_range_def scheduler_config_ok_def outbox_config_ok_def recovery_config_ok_def
        intro!: millis_positive seconds_positive mins_positive)
  with built_run_configs [OF assms(1,2,7)] show ?thesis by (elim disjE exE insertE emptyE) simp_all
qed

text \<open>C40: A configuration that loads is usable.  Whatever file and environment it was read from, after
  normalisation every interval, batch size, limit and name that the services rely on is in range; so when no interval
  exceeds what the clock can count, no service of an application built from it panics when it sets up its tickers,
  however long it runs, and neither does a heartbeat.\<close>

theorem loaded_services_never_panic:
  assumes "Load read unmarshal = Inr cfg" "clock_range cfg"
    and "\<And>cfg. unmarshal setDefaults = Inr cfg \<Longrightarrow> in_int64 (wc_HeartbeatSeconds (cf_Worker cfg) * 2)"
    and "(role, new) \<in> set (role_builders pf)" "new (Some cfg) p0 = (Inr a, p)"
  shows "scheduler_config_ok (cf_Scheduler cfg) \<and> outbox_config_ok (cf_Outbox cfg) \<and>
    worker_config_ok (cf_Worker cfg) \<and> recovery_config_ok (cf_Recovery cfg) \<and>
    (\<forall>b \<in> set (an_background a). fst (run_background env (bs_run b) st) = None) \<and>
    NewTicker (seconds (wc_HeartbeatSeconds (cf_Worker cfg))) = Inr ()"
proof -
  from loaded_config_sane [OF assms(1,3)] have ok: "scheduler_config_ok (cf_Scheduler cfg)"
    "outbox_config_ok (cf_Outbox cfg)" "recovery_config_ok (cf_Recovery cfg)" "worker_config_ok (cf_Worker cfg)" by auto
  from built_ticks [OF assms(4,5,2) ok(1-3)] have "\<forall>b \<in> set (an_background a). fst (run_background env (bs_run b) st) = None"
    by (blast intro: ticking_run_returns)
  moreover have "0 < seconds (wc_HeartbeatSeconds (cf_Worker cfg))"
    using ok(4) assms(2) by (auto simp: worker_config_ok_def clock_range_def intro!: seconds_positive)
  ultimately show ?thesis using ok by (simp add: NewTicker_def)
qed

theorem loaded_services_never_panic_witness:
  "\<exists>a p. NewScheduler sample_platform (Some (normalize sample_config)) new_process = (Inr a, p) \<and>
     map bs_name (an_background a) = [''scheduler'', ''execution-reconciler''] \<and>
     (\<forall>b \<in> set (an_background a). fst (run_background sample_services (bs_run b) (NewReporter, (), lone_world 15 stage2)) = None)"
proof -
  let ?cfg = "normalize sample_config"
  obtain a p where built: "NewScheduler sample_platform (Some ?cfg) new_process = (Inr a, p)"
    and names: "map bs_name (an_background a) = [''scheduler'', ''execution-reconciler'']"
    by (simp add: NewScheduler_def newApplication_def InitDatabase_def set_handle_def new_process_def
        sample_platform_def application_defs Let_def)
  have load: "Load None (\<lambda>_. Inr sample_config) = Inr ?cfg" by (simp add: Load_def)
  have role: "(RoleScheduler, NewScheduler sample_platform) \<in> set (role_builders sample_platform)"
    by (simp add: role_builders_def)
  have "clock_range ?cfg"
    by (simp add: clock_range_def normalize_def sample_config_def sample_scheduler_def sample_outbox_cfg_def
        sample_worker_cfg_def normalizeSchedulerConfig_def normalizeOutboxConfig_def
        normalizeWorkerConfig_def normalizeRecoveryConfig_def at_least_def Let_def wrap64_def go_quot_def)
  moreover have "in_int64 (wc_HeartbeatSeconds (cf_Worker sample_config) * 2)"
    by (simp add: sample_config_def in_int64_def int64_min_def int64_max_def)
  ultimately show ?thesis
    using loaded_services_never_panic [OF load _ _ role built, of sample_services "(NewReporter, (), lone_world 15 stage2)"]
      built names by auto
qed

text \<open>Normalisation sets no upper bounds: an interval of 9223372036855 milliseconds wraps round to a negative one, and
  the Scheduler panics after its first round.\<close>

lemma overflowing_interval_panics:
  assumes "cfg = (cf_Scheduler setDefaults)\<lparr>sc_PollIntervalMS := 9223372036855\<rparr>"
  shows "normalizeSchedulerConfig cfg = cfg \<and>
    fst (Scheduler_Start (NewScheduler_service repo parser cfg) first ticks st) = Some ''non-positive interval for NewTicker''"
  by (simp add: assms setDefaults_def normalizeSchedulerConfig_def at_least_def Scheduler_Start_def NewScheduler_service_def
      polling_def NewTicker_def millis_def wrap64_def)

section \<open>What a process gives back\<close>


definition sample_run :: run_env where
  "sample_run = \<lparr>rv_Cause = SignalReceived, rv_ShutdownErr = None, rv_Stopped = [''stream-worker'']\<rparr>"


text \<open>An orderly stop.  A run starts its components and then the server; once the stop signal arrives or
  the server ends, the components are told to stop before the server is shut down, and only then, when they
  have stopped or the time is up, is anything closed.  The run reports no error exactly when the server did
  not fail, its shutdown succeeded and every component stopped in time.\<close>

lemma orderly_stop:
  assumes "an_server a = Some server" "\<not> an_closed a" "px_DB p = Some None" "Run env a p = (err, a', p')"
  shows "px_Effects p' = px_Effects p @ map (\<lambda>b. BackgroundStarted (bs_name b)) (an_background a) @
      [ServerStarted (hs_Addr server), BackgroundCancelled, ServerShutdown,
       BackgroundStopped (filter (\<lambda>n. n \<in> set (rv_Stopped env)) (map bs_name (an_background a)))] @
      map Released (rev (an_closers a)) @ [Released Database] \<and>
    (err = None \<longleftrightarrow> rv_Cause env \<in> {SignalReceived, ServerEnded None} \<and> rv_ShutdownErr env = None \<and>
      bs_name ` set (an_background a) \<subseteq> set (rv_Stopped env)) \<and>
    closeWithContext a' p' = (a', p')"
proof -
  have started: "px_DB (fold (\<lambda>n. effect (BackgroundStarted n)) ns q) = px_DB q \<and>
      px_Effects (fold (\<lambda>n. effect (BackgroundStarted n)) ns q) = px_Effects q @ map BackgroundStarted ns" for ns q
    by (induction ns arbitrary: q) auto
  have "(err = None) = (rv_Cause env \<in> {SignalReceived, ServerEnded None} \<and> rv_ShutdownErr env = None \<and>
      bs_name ` set (an_background a) \<subseteq> set (rv_Stopped env))"
    using assms(1,4)
    by (auto simp: Run_def Let_def or_first_def split: stop_cause.splits option.splits if_splits)
  moreover have "an_closed a'" and "px_Effects p' = px_Effects p @
      map (\<lambda>b. BackgroundStarted (bs_name b)) (an_background a) @
      [ServerStarted (hs_Addr server), BackgroundCancelled, ServerShutdown,
       BackgroundStopped (filter (\<lambda>n. n \<in> set (rv_Stopped env)) (map bs_name (an_background a)))] @
      map Released (rev (an_closers a)) @ [Released Database]"
    using assms
    by (auto simp: Run_def Let_def closeWithContext_def CloseDatabase_def run_closers started comp_def)
  ultimately show ?thesis by (simp add: closeWithContext_def)
qed

definition sample_application :: "(nat, world) Application" where
  "sample_application = \<lparr>an_cfg = sample_config, an_role = RoleWorker,
     an_server = Some \<lparr>hs_Addr = '':8080'', hs_Handler = serve_api sample_deps\<rparr>,
     an_background = [\<lparr>bs_name = ''stream-worker'', bs_run = WorkerRun sample_worker_cfg (cf_Security sample_config) sample_outbox_cfg ''w''\<rparr>],
     an_closers = [RedisClient, WorkerPool], an_closed = False\<rparr>"

end
