(* ===== verification/Migration_Command.thy ===== *)
theory Migration_Command
  imports Config
begin

text \<open>
  \<^verbatim>\<open>internal/migration/\<close>: parsing the migration command, running it and reporting the
  result.  The migration engine (\<^verbatim>\<open>golang-migrate\<close>), the working directory behind
  \<^verbatim>\<open>filepath.Abs\<close>, the printing of a file URL and the \<^verbatim>\<open>%q\<close> verb are
  parameters.
\<close>

section \<open>Commands\<close>

datatype Action = ActionUp | ActionDown | ActionVersion | ActionForce | ActionOther string

fun action_text :: "Action \<Rightarrow> string" where
  "action_text ActionUp = ''up''"
| "action_text ActionDown = ''down''"
| "action_text ActionVersion = ''version''"
| "action_text ActionForce = ''force''"
| "action_text (ActionOther s) = s"

record Command =
  cm_Action :: Action
  cm_Version :: int

datatype parse_error = ErrHelp | ParseError go_error

text \<open>An \<^verbatim>\<open>int\<close> has 64 bits, so \<^verbatim>\<open>Atoi\<close> accepts what
  \<^verbatim>\<open>ParseInt\<close> does.\<close>

definition positiveInt :: "string \<Rightarrow> int result" where
  "positiveInt value =
     (case ParseInt value of
        Inl _ \<Rightarrow> Inl ''must be a positive integer''
      | Inr parsed \<Rightarrow> if parsed < 1 then Inl ''must be a positive integer'' else Inr parsed)"

definition ParseCommand :: "(string \<Rightarrow> string) \<Rightarrow> string list \<Rightarrow> parse_error + Command" where
  "ParseCommand quote args =
     (case args of
        [] \<Rightarrow> Inl (ParseError ''missing migration action'')
      | arg # rest \<Rightarrow>
          (let action = ToLower (TrimSpace arg) in
           if action \<in> {''help'', ''-h'', ''--help''} then
             (if rest \<noteq> [] then Inl (ParseError ''help does not accept additional arguments'')
              else Inl ErrHelp)
           else if action \<in> {''up'', ''version''} then
             (if rest \<noteq> [] then
                Inl (ParseError (''migration action '' @ quote action @ '' does not accept additional arguments''))
              else Inr \<lparr>cm_Action = (if action = ''up'' then ActionUp else ActionVersion), cm_Version = 0\<rparr>)
           else if action \<in> {''down'', ''force''} then
             (case rest of
                [value] \<Rightarrow>
                  (case positiveInt value of
                     Inl e \<Rightarrow> Inl (ParseError (wrap_err (''invalid value for migration action '' @ quote action) e))
                   | Inr version \<Rightarrow>
                       Inr \<lparr>cm_Action = (if action = ''down'' then ActionDown else ActionForce),
                            cm_Version = version\<rparr>)
              | _ \<Rightarrow> Inl (ParseError (''migration action '' @ quote action @
                       '' requires exactly one version or step count'')))
           else Inl (ParseError (''unknown migration action '' @ quote arg))))"

section \<open>The engine\<close>

datatype migrate_error = ErrNilVersion | ErrNoChange | MigrateError go_error

fun migrate_error_text :: "migrate_error \<Rightarrow> go_error" where
  "migrate_error_text ErrNilVersion = ''no migration''"
| "migrate_error_text ErrNoChange = ''no change''"
| "migrate_error_text (MigrateError e) = e"

record 'm migrate_lib =
  ml_Abs :: "string \<Rightarrow> string result"
  ml_FileURL :: "string \<Rightarrow> string"
  ml_New :: "string \<Rightarrow> string \<Rightarrow> 'm \<Rightarrow> go_error option \<times> 'm"
  ml_Up :: "'m \<Rightarrow> migrate_error option \<times> 'm"
  ml_Steps :: "int \<Rightarrow> 'm \<Rightarrow> migrate_error option \<times> 'm"
  ml_Force :: "int \<Rightarrow> 'm \<Rightarrow> migrate_error option \<times> 'm"
  ml_Version :: "'m \<Rightarrow> nat \<times> bool \<times> migrate_error option"
  ml_Close :: "'m \<Rightarrow> (go_error option \<times> go_error option) \<times> 'm"

record Result =
  mr_Version :: nat
  mr_Dirty :: bool
  mr_Changed :: bool

definition no_result :: Result where
  "no_result = \<lparr>mr_Version = 0, mr_Dirty = False, mr_Changed = False\<rparr>"

definition mysqlURL :: "string \<Rightarrow> string" where
  "mysqlURL dsn =
     (if HasPrefix (ToLower (TrimSpace dsn)) ''mysql://'' then dsn else ''mysql://'' @ dsn)"

definition fileSourceURL :: "'m migrate_lib \<Rightarrow> string \<Rightarrow> string result" where
  "fileSourceURL lib migrationPath =
     (let path = TrimSpace migrationPath in
      if path = [] then Inl ''migration path is required''
      else
        (case ml_Abs lib path of
           Inl e \<Rightarrow> Inl (wrap_err ''resolve migration path'' e)
         | Inr absPath \<Rightarrow> Inr (ml_FileURL lib absPath)))"

text \<open>The end of \<^verbatim>\<open>Execute\<close>: the version after the action.\<close>

definition read_version ::
  "'m migrate_lib \<Rightarrow> bool \<Rightarrow> 'm \<Rightarrow> (Result \<times> go_error option) \<times> 'm" where
  "read_version lib changed s =
     (case ml_Version lib s of
        (v, dirty, err) \<Rightarrow>
          (let res = \<lparr>mr_Version = v, mr_Dirty = dirty, mr_Changed = changed\<rparr> in
           case err of
             None \<Rightarrow> ((res, None), s)
           | Some ErrNilVersion \<Rightarrow> ((res, None), s)
           | Some e \<Rightarrow> ((res, Some (wrap_err ''read migration version'' (migrate_error_text e))), s)))"

definition after_action ::
  "'m migrate_lib \<Rightarrow> Action \<Rightarrow> migrate_error option \<times> 'm \<Rightarrow> (Result \<times> go_error option) \<times> 'm" where
  "after_action lib action r =
     (case r of
        (Some ErrNoChange, s) \<Rightarrow> read_version lib False s
      | (Some e, s) \<Rightarrow>
          ((no_result, Some (wrap_err (''run migration '' @ action_text action) (migrate_error_text e))), s)
      | (None, s) \<Rightarrow> read_version lib (action \<noteq> ActionVersion) s)"

definition run_action ::
  "(string \<Rightarrow> string) \<Rightarrow> 'm migrate_lib \<Rightarrow> Command \<Rightarrow> 'm \<Rightarrow> (Result \<times> go_error option) \<times> 'm" where
  "run_action quote lib command s =
     (case cm_Action command of
        ActionUp \<Rightarrow> after_action lib ActionUp (ml_Up lib s)
      | ActionDown \<Rightarrow> after_action lib ActionDown (ml_Steps lib (- cm_Version command) s)
      | ActionForce \<Rightarrow> after_action lib ActionForce (ml_Force lib (cm_Version command) s)
      | ActionVersion \<Rightarrow>
          (case ml_Version lib s of
             (v, dirty, err) \<Rightarrow>
               (let res = \<lparr>mr_Version = v, mr_Dirty = dirty, mr_Changed = False\<rparr> in
                case err of
                  Some ErrNilVersion \<Rightarrow> ((res, None), s)
                | _ \<Rightarrow> ((res, map_option migrate_error_text err), s)))
      | ActionOther a \<Rightarrow> ((no_result, Some (''unsupported migration action '' @ quote a)), s))"

text \<open>The deferred function reports an error of closing unless there is one already.\<close>

definition close_engine ::
  "'m migrate_lib \<Rightarrow> (Result \<times> go_error option) \<times> 'm \<Rightarrow> (Result \<times> go_error option) \<times> 'm" where
  "close_engine lib r =
     (case r of
        ((res, err), s) \<Rightarrow>
          (case ml_Close lib s of
             ((sourceErr, databaseErr), s') \<Rightarrow>
               ((res,
                 case err of
                   Some e \<Rightarrow> Some e
                 | None \<Rightarrow>
                     (case sourceErr of
                        Some e \<Rightarrow> Some (wrap_err ''close migration source'' e)
                      | None \<Rightarrow> map_option (wrap_err ''close migration database'') databaseErr)), s')))"

definition Migration_Execute ::
  "(string \<Rightarrow> string) \<Rightarrow> 'm migrate_lib \<Rightarrow> string \<Rightarrow> string \<Rightarrow> Command \<Rightarrow> 'm \<Rightarrow>
     (Result \<times> go_error option) \<times> 'm" where
  "Migration_Execute quote lib dsn migrationPath command s =
     (if TrimSpace dsn = [] then ((no_result, Some ''database dsn is required''), s)
      else
        (case fileSourceURL lib migrationPath of
           Inl e \<Rightarrow> ((no_result, Some e), s)
         | Inr sourceURL \<Rightarrow>
             (case ml_New lib sourceURL (mysqlURL dsn) s of
                (Some e, s') \<Rightarrow> ((no_result, Some (wrap_err ''initialize migration engine'' e)), s')
              | (None, s') \<Rightarrow> close_engine lib (run_action quote lib command s'))))"

section \<open>The command line\<close>

definition newline :: string where "newline = [CHR 0x0A]"

definition Usage :: string where
  "Usage = concat (map (\<lambda>l. l @ newline)
     [''Usage:'',
      ''  chronoflow migrate up'',
      ''  chronoflow migrate down <steps>'',
      ''  chronoflow migrate version'',
      ''  chronoflow migrate force <version>'',
      [],
      ''Actions:'',
      ''  up               Apply every pending versioned SQL migration'',
      ''  down <steps>     Revert exactly this many migrations (destructive)'',
      ''  version          Print the applied version and dirty flag'',
      ''  force <version>  Repair a known dirty version after manual verification''])"

text \<open>The result is the error, if any, and what is written to the output.\<close>

definition RunCLI ::
  "(string \<Rightarrow> string) \<Rightarrow> 'm migrate_lib \<Rightarrow> Config result \<Rightarrow> string list \<Rightarrow> 'm \<Rightarrow>
     go_error option \<times> string \<times> 'm" where
  "RunCLI quote lib loaded args s =
     (case ParseCommand quote args of
        Inl ErrHelp \<Rightarrow> (None, Usage, s)
      | Inl (ParseError e) \<Rightarrow> (Some (e @ newline @ newline @ Usage), [], s)
      | Inr command \<Rightarrow>
          (case loaded of
             Inl e \<Rightarrow> (Some (wrap_err ''load configuration'' e), [], s)
           | Inr cfg \<Rightarrow>
               (case Migration_Execute quote lib (dc_DSN (cf_Database cfg)) (mg_Path (cf_Migrations cfg)) command s of
                  ((_, Some e), s') \<Rightarrow> (Some e, [], s')
                | ((res, None), s') \<Rightarrow>
                    (if mr_Dirty res then
                       (Some (''migration version '' @ show_int (int (mr_Version res)) @
                          '' is dirty; verify the database before using migrate force''), [], s')
                     else if cm_Action command = ActionVersion then
                       (None, ''migration version: '' @ show_int (int (mr_Version res)) @ '' (clean)'' @ newline, s')
                     else if mr_Changed res then
                       (None, ''migration '' @ action_text (cm_Action command) @ '' completed at version '' @
                          show_int (int (mr_Version res)) @ newline, s')
                     else
                       (None, ''migration is already at version '' @ show_int (int (mr_Version res)) @ newline, s')))))"

definition migrate_main :: "go_error option \<times> string \<times> 'm \<Rightarrow> string \<times> string \<times> int" where
  "migrate_main r =
     (case r of
        (None, out, _) \<Rightarrow> (out, [], 0)
      | (Some e, out, _) \<Rightarrow> (out, ''ChronoFlow migration failed: '' @ e @ newline, 1))"

section \<open>What the parser accepts\<close>

lemma positiveInt_ok: "positiveInt v = Inr n \<longleftrightarrow> ParseInt v = Inr n \<and> 1 \<le> n"
  by (auto simp: positiveInt_def split: sum.splits)

lemma positiveInt_error: "positiveInt v = Inl e \<Longrightarrow> ParseInt v = Inr n \<Longrightarrow> n < 1"
  by (auto simp: positiveInt_def split: if_splits)

lemma ParseCommand_ok:
  "ParseCommand quote args = Inr c \<longleftrightarrow>
     (\<exists>arg. args = [arg] \<and> cm_Version c = 0 \<and>
        (ToLower (TrimSpace arg) = ''up'' \<and> cm_Action c = ActionUp \<or>
         ToLower (TrimSpace arg) = ''version'' \<and> cm_Action c = ActionVersion)) \<or>
     (\<exists>arg value. args = [arg, value] \<and> ParseInt value = Inr (cm_Version c) \<and> 1 \<le> cm_Version c \<and>
        (ToLower (TrimSpace arg) = ''down'' \<and> cm_Action c = ActionDown \<or>
         ToLower (TrimSpace arg) = ''force'' \<and> cm_Action c = ActionForce))"
proof (cases args)
  case Nil
  then show ?thesis by (simp add: ParseCommand_def)
next
  case (Cons arg rest)
  then show ?thesis
    by (cases c; cases rest; cases "tl rest")
       (auto simp: ParseCommand_def Let_def positiveInt_ok split: sum.splits dest: positiveInt_error)
qed

end
