(* ===== verification/Callback_Collector.thy ===== *)
theory Callback_Collector
  imports Go_Prelude "HOL-Library.Word"
begin

text \<open>
  \<^verbatim>\<open>k6/callback/main.go\<close>: the receiver that the load test uses to count callbacks and
  duplicates.  Requests are handled concurrently: an invocation of \<^verbatim>\<open>record\<close> is a task
  that makes one atomic access per step, and the steps of the tasks interleave.  The counters are the 64-bit
  words of the source and wrap as they do.
\<close>

section \<open>The collector\<close>

record collector =
  co_total :: "64 word"
  co_unique :: "64 word"
  co_duplicates :: "64 word"
  co_missing :: "64 word"
  co_keys :: "string set"
  co_startedAt :: time

text \<open>\<^verbatim>\<open>record\<close> and \<^verbatim>\<open>reset\<close> by their atomic accesses.\<close>

datatype record_pc = Enter string | Counted string | Stored bool | Returned

fun record_step :: "record_pc \<Rightarrow> collector \<Rightarrow> (record_pc \<times> collector) option" where
  "record_step (Enter key) c = Some (Counted key, c\<lparr>co_total := co_total c + 1\<rparr>)"
| "record_step (Counted key) c =
     (if key = [] then Some (Returned, c\<lparr>co_missing := co_missing c + 1\<rparr>)
      else if key \<in> co_keys c then Some (Stored True, c)
      else Some (Stored False, c\<lparr>co_keys := insert key (co_keys c)\<rparr>))"
| "record_step (Stored loaded) c =
     Some (Returned,
       if loaded then c\<lparr>co_duplicates := co_duplicates c + 1\<rparr> else c\<lparr>co_unique := co_unique c + 1\<rparr>)"
| "record_step Returned c = None"

fun reset_step :: "time \<Rightarrow> nat \<Rightarrow> collector \<Rightarrow> collector option" where
  "reset_step now n c =
     (if n = 0 then Some (c\<lparr>co_total := 0\<rparr>)
      else if n = 1 then Some (c\<lparr>co_unique := 0\<rparr>)
      else if n = 2 then Some (c\<lparr>co_duplicates := 0\<rparr>)
      else if n = 3 then Some (c\<lparr>co_missing := 0\<rparr>)
      else if n = 4 then Some (c\<lparr>co_keys := {}\<rparr>)
      else if n = 5 then Some (c\<lparr>co_startedAt := now\<rparr>)
      else None)"

text \<open>A task run from start to end without interruption.\<close>

definition run_record :: "string \<Rightarrow> collector \<Rightarrow> collector" where
  "run_record key c =
     (let c1 = c\<lparr>co_total := co_total c + 1\<rparr> in
      if key = [] then c1\<lparr>co_missing := co_missing c1 + 1\<rparr>
      else if key \<in> co_keys c1 then c1\<lparr>co_duplicates := co_duplicates c1 + 1\<rparr>
      else c1\<lparr>co_keys := insert key (co_keys c1), co_unique := co_unique c1 + 1\<rparr>)"

definition reset :: "time \<Rightarrow> collector \<Rightarrow> collector" where
  "reset now c = \<lparr>co_total = 0, co_unique = 0, co_duplicates = 0, co_missing = 0, co_keys = {},
     co_startedAt = now\<rparr>"

definition newCollector :: "time \<Rightarrow> collector" where
  "newCollector now = reset now \<lparr>co_total = 0, co_unique = 0, co_duplicates = 0, co_missing = 0,
     co_keys = {}, co_startedAt = 0\<rparr>"

record callbackStats =
  ks_Total :: int
  ks_Unique :: int
  ks_Duplicates :: int
  ks_MissingIdempotencyKey :: int
  ks_StartedAt :: time

text \<open>The five loads of \<^verbatim>\<open>snapshot\<close>, each at a moment of its own.\<close>

definition snapshot :: "collector \<Rightarrow> collector \<Rightarrow> collector \<Rightarrow> collector \<Rightarrow> collector \<Rightarrow> callbackStats" where
  "snapshot c0 c1 c2 c3 c4 =
     \<lparr>ks_Total = sint (co_total c1), ks_Unique = sint (co_unique c2), ks_Duplicates = sint (co_duplicates c3),
      ks_MissingIdempotencyKey = sint (co_missing c4), ks_StartedAt = co_startedAt c0\<rparr>"

section \<open>Concurrent requests\<close>

text \<open>A request arrives, or a task makes its next access.\<close>

datatype task = Recording record_pc | Resetting time nat

inductive collect :: "collector \<times> task list \<Rightarrow> collector \<times> task list \<Rightarrow> bool" where
  arrive: "collect (c, ts) (c, ts @ [Recording (Enter key)])"
| advance: "i < length ts \<Longrightarrow> ts ! i = Recording pc \<Longrightarrow> record_step pc c = Some (pc', c') \<Longrightarrow>
    collect (c, ts) (c', ts[i := Recording pc'])"
| arrive_reset: "collect (c, ts) (c, ts @ [Resetting now 0])"
| advance_reset: "i < length ts \<Longrightarrow> ts ! i = Resetting now n \<Longrightarrow> reset_step now n c = Some c' \<Longrightarrow>
    collect (c, ts) (c', ts[i := Resetting now (Suc n)])"

text \<open>The same without resets, keeping the keys of the requests in the order of their arrival.\<close>

inductive counting :: "time \<Rightarrow> collector \<Rightarrow> string list \<Rightarrow> record_pc list \<Rightarrow> bool" for now where
  start: "counting now (newCollector now) [] []"
| receive: "counting now c keys pcs \<Longrightarrow> counting now c (keys @ [key]) (pcs @ [Enter key])"
| access: "counting now c keys pcs \<Longrightarrow> i < length pcs \<Longrightarrow> record_step (pcs ! i) c = Some (pc', c') \<Longrightarrow>
    counting now c' keys (pcs[i := pc'])"

section \<open>The HTTP interface and its configuration\<close>

record callbackConfig =
  cc_address :: string
  cc_status :: int
  cc_delay :: duration

datatype callback_reply = Reply int | Stats callbackStats

text \<open>\<^verbatim>\<open>newHandler\<close>, one request at a time; no registered pattern gives 404.\<close>

definition newHandler ::
  "callbackConfig \<Rightarrow> time \<Rightarrow> string \<Rightarrow> string \<Rightarrow> string \<Rightarrow> collector \<Rightarrow> callback_reply \<times> collector" where
  "newHandler cfg now path method key c =
     (if path = ''/callback'' then (Reply (cc_status cfg), run_record key c)
      else if path = ''/stats'' then (Stats (snapshot c c c c c), c)
      else if path = ''/reset'' then
        (if method \<noteq> ''POST'' then (Reply 405, c) else (Reply 204, reset now c))
      else if path = ''/health'' then (Reply 200, c)
      else (Reply 404, c))"

definition envOrDefault :: "(string \<Rightarrow> string) \<Rightarrow> string \<Rightarrow> string \<Rightarrow> string" where
  "envOrDefault env name fallback = (if env name \<noteq> [] then env name else fallback)"

definition parseIntegerEnv :: "(string \<Rightarrow> string) \<Rightarrow> string \<Rightarrow> int \<Rightarrow> int result" where
  "parseIntegerEnv env name fallback =
     (if env name = [] then Inr fallback else ParseInt (env name))"

definition loadConfig :: "(string \<Rightarrow> string) \<Rightarrow> callbackConfig result" where
  "loadConfig env =
     (case parseIntegerEnv env ''CALLBACK_STATUS'' 204 of
        Inl _ \<Rightarrow> Inl ''CALLBACK_STATUS must be an integer between 200 and 599''
      | Inr status \<Rightarrow>
          if status < 200 \<or> 599 < status then Inl ''CALLBACK_STATUS must be an integer between 200 and 599''
          else
            (case parseIntegerEnv env ''CALLBACK_DELAY_MS'' 0 of
               Inl _ \<Rightarrow> Inl ''CALLBACK_DELAY_MS must be a non-negative integer''
             | Inr delayMS \<Rightarrow>
                 if delayMS < 0 then Inl ''CALLBACK_DELAY_MS must be a non-negative integer''
                 else Inr \<lparr>cc_address = envOrDefault env ''CALLBACK_ADDR'' ''127.0.0.1:9091'',
                           cc_status = status, cc_delay = wrap64 (delayMS * 1000000)\<rparr>))"

text \<open>\<^verbatim>\<open>main\<close>: the exit status, where \<open>served\<close> is the error of
  \<^verbatim>\<open>ListenAndServe\<close> unless it is \<^verbatim>\<open>ErrServerClosed\<close>.\<close>

definition collector_main :: "(string \<Rightarrow> string) \<Rightarrow> go_error option \<Rightarrow> int" where
  "collector_main env served =
     (case loadConfig env of
        Inl _ \<Rightarrow> 1
      | Inr _ \<Rightarrow> (case served of Some _ \<Rightarrow> 1 | None \<Rightarrow> 0))"

section \<open>Counting is exact\<close>

text \<open>What the counters must show after the given callbacks, in any order.\<close>

definition expected :: "time \<Rightarrow> string list \<Rightarrow> collector" where
  "expected now keys =
     (let n = of_nat (length keys); u = of_nat (card (set keys - {[]}));
          m = of_nat (length (filter (\<lambda>k. k = []) keys))
      in \<lparr>co_total = n, co_unique = u, co_duplicates = n - u - m, co_missing = m,
          co_keys = set keys - {[]}, co_startedAt = now\<rparr>)"

lemma expected_snoc: "run_record key (expected now keys) = expected now (keys @ [key])"
proof -
  have "card (insert key (set keys - {[]})) = Suc (card (set keys - {[]}))"
    if "key \<notin> set keys" by (rule card_insert_disjoint) (use that in auto)
  moreover have "insert key (set keys - {[]}) = set keys - {[]}" if "key \<in> set keys" "key \<noteq> []"
    using that by auto
  ultimately show ?thesis
    by (auto simp: run_record_def expected_def Let_def insert_Diff_if)
qed

lemma sequential_expected: "fold run_record keys (newCollector now) = expected now keys"
proof (induction keys rule: rev_induct)
  case Nil
  show ?case by (simp add: newCollector_def reset_def expected_def)
qed (simp add: expected_snoc)

text \<open>Tasks at a point that satisfies \<open>P\<close>, as a word.\<close>

definition at_pc :: "(record_pc \<Rightarrow> bool) \<Rightarrow> record_pc list \<Rightarrow> 64 word" where
  "at_pc P pcs = (\<Sum>pc\<leftarrow>pcs. if P pc then 1 else 0)"

lemma at_pc_simps [simp]:
  "at_pc P [] = 0" "at_pc P (xs @ ys) = at_pc P xs + at_pc P ys"
  "at_pc P (x # xs) = (if P x then 1 else 0) + at_pc P xs"
  by (simp_all add: at_pc_def)

lemma at_pc_update:
  "i < length pcs \<Longrightarrow>
     at_pc P (pcs[i := x]) = at_pc P pcs - (if P (pcs ! i) then 1 else 0) + (if P x then 1 else 0)"
proof (induction pcs arbitrary: i)
  case (Cons a pcs)
  then show ?case by (cases i) (auto simp: algebra_simps)
qed simp

lemma at_pc_none: "(\<And>pc. pc \<in> set pcs \<Longrightarrow> \<not> P pc) \<Longrightarrow> at_pc P pcs = 0"
  by (induction pcs) auto

fun is_enter :: "record_pc \<Rightarrow> bool" where
  "is_enter (Enter _) = True" | "is_enter _ = False"

fun is_between :: "record_pc \<Rightarrow> bool" where
  "is_between (Counted _) = True" | "is_between (Stored _) = True" | "is_between _ = False"

text \<open>Where a task is, given the key of its request and the keys stored so far.\<close>

fun on_course :: "string set \<Rightarrow> string \<Rightarrow> record_pc \<Rightarrow> bool" where
  "on_course stored key (Enter k) = (k = key)"
| "on_course stored key (Counted k) = (k = key)"
| "on_course stored key (Stored _) = (key \<in> stored)"
| "on_course stored key Returned = (key = [] \<or> key \<in> stored)"

definition counts_ok :: "collector \<Rightarrow> string list \<Rightarrow> record_pc list \<Rightarrow> bool" where
  "counts_ok c keys pcs \<longleftrightarrow>
     list_all2 (on_course (co_keys c)) keys pcs \<and> co_keys c \<subseteq> set keys - {[]} \<and>
     co_total c + at_pc is_enter pcs = of_nat (length keys) \<and>
     co_total c = co_unique c + co_duplicates c + co_missing c + at_pc is_between pcs \<and>
     co_unique c + at_pc (\<lambda>pc. pc = Stored False) pcs = of_nat (card (co_keys c)) \<and>
     co_missing c + at_pc (\<lambda>pc. pc \<in> {Enter [], Counted []}) pcs =
       of_nat (length (filter (\<lambda>k. k = []) keys))"

lemma on_course_mono: "on_course S key pc \<Longrightarrow> S \<subseteq> T \<Longrightarrow> on_course T key pc"
  by (cases pc) auto

lemma on_course_update:
  assumes "list_all2 (on_course S) keys pcs" "S \<subseteq> T" "i < length pcs" "on_course T (keys ! i) pc"
  shows "list_all2 (on_course T) keys (pcs[i := pc])"
proof -
  have "list_all2 (on_course T) keys pcs"
    using assms(1,2) by (auto elim: list_all2_mono intro: on_course_mono)
  from list_all2_update_cong [OF this assms(4), of i] show ?thesis by simp
qed

lemma counts_ok_step:
  assumes "counts_ok c keys pcs" "i < length pcs" "record_step (pcs ! i) c = Some (pc', c')"
  shows "counts_ok c' keys (pcs[i := pc'])"
proof -
  have i: "i < length keys" and pc: "on_course (co_keys c) (keys ! i) (pcs ! i)"
    and sub: "co_keys c \<subseteq> set keys - {[]}"
    using assms(1,2) by (auto simp: counts_ok_def list_all2_conv_all_nth)
  have "finite (co_keys c)" using sub finite_subset by blast
  then have card: "key \<notin> co_keys c \<Longrightarrow> card (insert key (co_keys c)) = Suc (card (co_keys c))" for key by simp
  have course: "list_all2 (on_course (co_keys c)) keys pcs" using assms(1) by (simp add: counts_ok_def)
  have key: "keys ! i \<in> set keys" using i by simp
  note update = on_course_update [OF course _ assms(2)] at_pc_update [OF assms(2)]
  show ?thesis
  proof (cases "pcs ! i")
    case (Enter k)
    with assms pc show ?thesis by (auto simp: counts_ok_def update algebra_simps)
  next
    case (Counted k)
    with assms pc sub key card show ?thesis
      by (auto simp: counts_ok_def update subset_insertI algebra_simps split: if_splits)
  next
    case (Stored b)
    with assms pc show ?thesis by (auto simp: counts_ok_def update algebra_simps split: if_splits)
  next
    case Returned
    with assms show ?thesis by simp
  qed
qed

lemma counting_ok: "counting now c keys pcs \<Longrightarrow> counts_ok c keys pcs \<and> co_startedAt c = now"
proof (induction rule: counting.induct)
  case start
  show ?case by (simp add: counts_ok_def newCollector_def reset_def)
next
  case (receive c keys pcs key)
  then show ?case by (auto simp: counts_ok_def list_all2_appendI algebra_simps)
next
  case (access c keys pcs i pc' c')
  then have "co_startedAt c' = co_startedAt c" by (cases "pcs ! i") (auto split: if_splits)
  with access.IH counts_ok_step [OF _ access.hyps(2,3)] show ?case by simp
qed

lemma counting_complete:
  assumes "counting now c keys pcs" "set pcs \<subseteq> {Returned}"
  shows "c = expected now keys"
proof -
  have ok: "counts_ok c keys pcs" "co_startedAt c = now" using counting_ok [OF assms(1)] by auto
  have none: "at_pc P pcs = 0" if "\<not> P Returned" for P
    using assms(2) that by (intro at_pc_none) auto
  have "keys ! i = [] \<or> keys ! i \<in> co_keys c" if "i < length keys" for i
  proof -
    from ok(1) that have "i < length pcs" "on_course (co_keys c) (keys ! i) (pcs ! i)"
      by (auto simp: counts_ok_def list_all2_conv_all_nth)
    moreover from this assms(2) have "pcs ! i = Returned" by (meson nth_mem singletonD subsetD)
    ultimately show ?thesis by simp
  qed
  then have "set keys - {[]} \<subseteq> co_keys c" by (metis DiffD1 DiffD2 in_set_conv_nth singletonI subsetI)
  with ok(1) have "co_keys c = set keys - {[]}" by (auto simp: counts_ok_def)
  with ok none show ?thesis
    by (cases c) (simp add: counts_ok_def expected_def Let_def algebra_simps)
qed

section \<open>Resets are not atomic\<close>

text \<open>A callback that is being recorded while the counters are reset leaves them inconsistent.\<close>

lemma reset_between:
  assumes "collect\<^sup>*\<^sup>* s (c, [Recording (Stored False), Resetting now n])" "n \<le> 5"
    and "reset_step now n c = Some c'"
  shows "collect\<^sup>*\<^sup>* s (c', [Recording (Stored False), Resetting now (Suc n)])"
  using assms(1) advance_reset [of 1 "[Recording (Stored False), Resetting now n]" now n c c'] assms(3)
  by (auto intro: rtranclp.rtrancl_into_rtrancl)

lemma reset_runs:
  assumes "collect\<^sup>*\<^sup>* s (c, [Recording (Stored False), Resetting now 0])"
  shows "collect\<^sup>*\<^sup>* s (reset now c, [Recording (Stored False), Resetting now 6])"
proof -
  note r = reset_between
  from r [OF assms, of "c\<lparr>co_total := 0\<rparr>"]
  have "collect\<^sup>*\<^sup>* s (c\<lparr>co_total := 0\<rparr>, [Recording (Stored False), Resetting now 1])" by simp
  from r [OF this, of "c\<lparr>co_total := 0, co_unique := 0\<rparr>"]
  have "collect\<^sup>*\<^sup>* s (c\<lparr>co_total := 0, co_unique := 0\<rparr>, [Recording (Stored False), Resetting now 2])"
    by (simp add: numeral_2_eq_2)
  from r [OF this, of "c\<lparr>co_total := 0, co_unique := 0, co_duplicates := 0\<rparr>"]
  have "collect\<^sup>*\<^sup>* s (c\<lparr>co_total := 0, co_unique := 0, co_duplicates := 0\<rparr>,
      [Recording (Stored False), Resetting now 3])" by (simp add: numeral_eq_Suc)
  from r [OF this, of "c\<lparr>co_total := 0, co_unique := 0, co_duplicates := 0, co_missing := 0\<rparr>"]
  have "collect\<^sup>*\<^sup>* s (c\<lparr>co_total := 0, co_unique := 0, co_duplicates := 0, co_missing := 0\<rparr>,
      [Recording (Stored False), Resetting now 4])" by (simp add: numeral_eq_Suc)
  from r [OF this, of "c\<lparr>co_total := 0, co_unique := 0, co_duplicates := 0, co_missing := 0, co_keys := {}\<rparr>"]
  have "collect\<^sup>*\<^sup>* s (c\<lparr>co_total := 0, co_unique := 0, co_duplicates := 0, co_missing := 0, co_keys := {}\<rparr>,
      [Recording (Stored False), Resetting now 5])" by (simp add: numeral_eq_Suc)
  from r [OF this, of "reset now c"] show ?thesis by (cases c) (simp add: reset_def numeral_eq_Suc)
qed

lemma reset_can_miscount:
  "\<exists>c. collect\<^sup>*\<^sup>* (newCollector 0, []) (c, [Recording Returned, Resetting now 6]) \<and>
     co_total c = 0 \<and> co_unique c = 1"
proof -
  let ?c0 = "newCollector 0" and ?k = "''k''"
  let ?c1 = "?c0\<lparr>co_total := 1\<rparr>"
  let ?c2 = "?c1\<lparr>co_keys := {?k}\<rparr>"
  have "collect\<^sup>*\<^sup>* (?c0, []) (?c0, [Recording (Enter ?k)])"
    using arrive [of ?c0 "[]" ?k] by auto
  also have "collect (?c0, [Recording (Enter ?k)]) (?c1, [Recording (Counted ?k)])"
    using advance [of 0 "[Recording (Enter ?k)]" "Enter ?k" ?c0] by (simp add: newCollector_def reset_def)
  also have "collect (?c1, [Recording (Counted ?k)]) (?c2, [Recording (Stored False)])"
    using advance [of 0 "[Recording (Counted ?k)]" "Counted ?k" ?c1] by (simp add: newCollector_def reset_def)
  also have "collect (?c2, [Recording (Stored False)]) (?c2, [Recording (Stored False), Resetting now 0])"
    using arrive_reset [of ?c2 "[Recording (Stored False)]" now] by simp
  finally have "collect\<^sup>*\<^sup>* (?c0, []) (reset now ?c2, [Recording (Stored False), Resetting now 6])"
    by (rule reset_runs)
  also have "collect (reset now ?c2, [Recording (Stored False), Resetting now 6])
      ((reset now ?c2)\<lparr>co_unique := 1\<rparr>, [Recording Returned, Resetting now 6])"
    using advance [of 0 "[Recording (Stored False), Resetting now 6]" "Stored False" "reset now ?c2"]
    by (simp add: reset_def)
  finally show ?thesis by (intro exI conjI) (auto simp: reset_def)
qed

text \<open>The task that resets alone does what \<^const>\<open>reset\<close> does.\<close>

lemma record_alone:
  "record_step (Enter key) c = Some (Counted key, c1) \<Longrightarrow> record_step (Counted key) c1 = Some (pc, c2) \<Longrightarrow>
     run_record key c = (case record_step pc c2 of Some (_, c3) \<Rightarrow> c3 | None \<Rightarrow> c2)"
  by (auto simp: run_record_def Let_def split: if_splits)

end
