(* ===== verification/Tooling_Properties.thy ===== *)
theory Tooling_Properties
  imports Migration_Command Callback_Collector
begin

text \<open>
  The tools beside the services: the migration command and the receiver that counts callbacks in the load
  test.
\<close>

section \<open>Migrations\<close>

definition command_args :: "Command \<Rightarrow> string list" where
  "command_args c =
     (if cm_Action c \<in> {ActionDown, ActionForce} then [action_text (cm_Action c), show_int (cm_Version c)]
      else [action_text (cm_Action c)])"

text \<open>The commands that the parser can produce.\<close>

definition command_ok :: "Command \<Rightarrow> bool" where
  "command_ok c \<longleftrightarrow>
     (cm_Action c \<in> {ActionUp, ActionVersion} \<and> cm_Version c = 0) \<or>
     (cm_Action c \<in> {ActionDown, ActionForce} \<and> 1 \<le> cm_Version c \<and> in_int64 (cm_Version c))"

lemma ParseInt_range: "ParseInt s = Inr n \<Longrightarrow> in_int64 n"
  by (auto simp: ParseInt_def signed_digits_def split: list.splits if_splits option.splits)

lemma plain_words:
  "ToLower (TrimSpace ''up'') = ''up''" "ToLower (TrimSpace ''down'') = ''down''"
  "ToLower (TrimSpace ''version'') = ''version''" "ToLower (TrimSpace ''force'') = ''force''"
  by (simp_all add: ToLower_def TrimSpace_def is_space_def lower_char_def)

text \<open>Migration commands are parsed back.  A command is the result of some argument list exactly when
  it is one of the four actions with a positive 64-bit number where the action takes one; the arguments that
  spell such a command parse to it; and \<^verbatim>\<open>down\<close> without a number is refused.\<close>

lemma migration_commands_parsed:
  "(command_ok c \<longleftrightarrow> (\<exists>args. ParseCommand quote args = Inr c)) \<and>
   (command_ok c \<longrightarrow> ParseCommand quote (command_args c) = Inr c) \<and>
   (\<forall>command. ParseCommand quote [''down''] \<noteq> Inr command)"
proof -
  have spelled: "ParseCommand quote (command_args c) = Inr c" if "command_ok c"
    using that by (auto simp: command_ok_def ParseCommand_ok command_args_def plain_words ParseInt_show_int)
  have "command_ok c" if "ParseCommand quote args = Inr c" for args
    using that by (auto simp: command_ok_def ParseCommand_ok dest: ParseInt_range)
  with spelled have "command_ok c \<longleftrightarrow> (\<exists>args. ParseCommand quote args = Inr c)" by blast
  moreover have "\<forall>command. ParseCommand quote [''down''] \<noteq> Inr command"
    by (auto simp: ParseCommand_ok plain_words)
  ultimately show ?thesis using spelled by blast
qed

text \<open>The step of the engine that an action asks for.\<close>

definition engine_step :: "'m migrate_lib \<Rightarrow> Command \<Rightarrow> 'm \<Rightarrow> migrate_error option \<times> 'm" where
  "engine_step lib c =
     (case cm_Action c of
        ActionUp \<Rightarrow> ml_Up lib
      | ActionDown \<Rightarrow> ml_Steps lib (- cm_Version c)
      | ActionForce \<Rightarrow> ml_Force lib (cm_Version c)
      | _ \<Rightarrow> Pair None)"

lemma run_action_ok:
  assumes "run_action quote lib c s = ((res, None), s')"
  shows "\<exists>e v err. engine_step lib c s = (e, s') \<and> e \<in> {None, Some ErrNoChange} \<and>
    ml_Version lib s' = (v, mr_Dirty res, err) \<and> err \<in> {None, Some ErrNilVersion} \<and> mr_Version res = v"
  using assms
  by (auto simp: run_action_def engine_step_def after_action_def read_version_def Let_def
      split: Action.splits prod.splits option.splits migrate_error.splits)

text \<open>C37: A migration that reports success succeeded.  When the migration command ends without an error, it
  printed the help, or the engine was opened, did what the action asks for (for \<^verbatim>\<open>down n\<close>,
  exactly \<open>n\<close> steps back) without an error or found nothing to change, was left at a clean version, and
  was closed; whenever the engine was opened it was closed, last of all.\<close>

theorem migration_success_is_clean:
  assumes "RunCLI quote lib (Inr cfg) args s = (err, out, s')"
  shows "(err = None \<longrightarrow>
      ParseCommand quote args = Inl ErrHelp \<and> out = Usage \<and> s' = s \<or>
      (\<exists>c url s1 s2 e v. ParseCommand quote args = Inr c \<and>
         ml_New lib url (mysqlURL (dc_DSN (cf_Database cfg))) s = (None, s1) \<and>
         engine_step lib c s1 = (e, s2) \<and> e \<in> {None, Some ErrNoChange} \<and>
         ml_Version lib s2 \<in> {(v, False, None), (v, False, Some ErrNilVersion)} \<and>
         ml_Close lib s2 = ((None, None), s'))) \<and>
    (\<forall>c url s1. ParseCommand quote args = Inr c \<longrightarrow> TrimSpace (dc_DSN (cf_Database cfg)) \<noteq> [] \<longrightarrow>
       fileSourceURL lib (mg_Path (cf_Migrations cfg)) = Inr url \<longrightarrow>
       ml_New lib url (mysqlURL (dc_DSN (cf_Database cfg))) s = (None, s1) \<longrightarrow>
       (\<exists>s2. s' = snd (ml_Close lib s2)))"
proof (cases "ParseCommand quote args")
  case (Inl e)
  with assms show ?thesis by (cases e) (auto simp: RunCLI_def)
next
  case (Inr c)
  obtain res r s3 where run: "Migration_Execute quote lib (dc_DSN (cf_Database cfg)) (mg_Path (cf_Migrations cfg)) c s =
      ((res, r), s3)" by (metis surj_pair)
  with assms Inr have s3: "s3 = s'" and ok: "err = None \<Longrightarrow> r = None \<and> \<not> mr_Dirty res"
    by (auto simp: RunCLI_def split: option.splits if_splits)
  have success: "\<exists>url s1 s2 e v. ml_New lib url (mysqlURL (dc_DSN (cf_Database cfg))) s = (None, s1) \<and>
      engine_step lib c s1 = (e, s2) \<and> e \<in> {None, Some ErrNoChange} \<and>
      ml_Version lib s2 \<in> {(v, False, None), (v, False, Some ErrNilVersion)} \<and>
      ml_Close lib s2 = ((None, None), s')" if "err = None"
  proof -
    from run ok [OF that] obtain url s1 where new:
        "ml_New lib url (mysqlURL (dc_DSN (cf_Database cfg))) s = (None, s1)"
      and closed: "close_engine lib (run_action quote lib c s1) = ((res, None), s3)" and clean: "\<not> mr_Dirty res"
      by (auto simp: Migration_Execute_def split: if_splits sum.splits prod.splits option.splits)
    obtain s2 where act: "run_action quote lib c s1 = ((res, None), s2)" and "ml_Close lib s2 = ((None, None), s3)"
      using closed by (auto simp: close_engine_def split: prod.splits option.splits)
    with run_action_ok [OF act] new clean s3 show ?thesis by fastforce
  qed
  have "\<exists>s2. s' = snd (ml_Close lib s2)"
    if "TrimSpace (dc_DSN (cf_Database cfg)) \<noteq> []" "fileSourceURL lib (mg_Path (cf_Migrations cfg)) = Inr url"
      "ml_New lib url (mysqlURL (dc_DSN (cf_Database cfg))) s = (None, s1)" for url s1
  proof -
    from run that have "close_engine lib (run_action quote lib c s1) = ((res, r), s3)"
      by (simp add: Migration_Execute_def)
    then show ?thesis by (auto simp: close_engine_def s3 [symmetric] split: prod.splits intro: sym) (metis snd_conv)
  qed
  with success Inr show ?thesis by blast
qed

definition sample_migrate :: "nat migrate_lib" where
  "sample_migrate = \<lparr>ml_Abs = (\<lambda>p. Inr (''/srv/'' @ p)), ml_FileURL = (\<lambda>p. ''file://'' @ p),
     ml_New = (\<lambda>_ _ n. (None, n)),
     ml_Up = (\<lambda>n. if n = 1 then (Some ErrNoChange, n) else (None, 1)),
     ml_Steps = (\<lambda>k n. if int n + k < 0 then (Some (MigrateError ''file does not exist''), n)
        else (None, nat (int n + k))),
     ml_Force = (\<lambda>k n. (None, nat k)),
     ml_Version = (\<lambda>n. (n, False, if n = 0 then Some ErrNilVersion else None)),
     ml_Close = (\<lambda>n. ((None, None), n))\<rparr>"

theorem migration_success_is_clean_witness:
  "\<exists>out. RunCLI (\<lambda>s. s) sample_migrate (Inr (setDefaults\<lparr>cf_Database := (cf_Database setDefaults)\<lparr>dc_DSN := ''dsn''\<rparr>\<rparr>))
       [''up''] 0 = (None, out, 1) \<and>
     (\<exists>s1 e. engine_step sample_migrate \<lparr>cm_Action = ActionUp, cm_Version = 0\<rparr> s1 = (e, 1))"
proof -
  let ?cfg = "setDefaults\<lparr>cf_Database := (cf_Database setDefaults)\<lparr>dc_DSN := ''dsn''\<rparr>\<rparr>"
  have parsed: "ParseCommand (\<lambda>s. s) [''up''] = Inr \<lparr>cm_Action = ActionUp, cm_Version = 0\<rparr>"
    by (simp add: ParseCommand_ok plain_words)
  obtain err out s' where run: "RunCLI (\<lambda>s. s) sample_migrate (Inr ?cfg) [''up''] 0 = (err, out, s')"
    by (rule prod_cases3)
  then have "err = None \<and> s' = 1"
    by (simp add: RunCLI_def parsed Migration_Execute_def fileSourceURL_def sample_migrate_def setDefaults_def
        TrimSpace_def is_space_def close_engine_def run_action_def after_action_def read_version_def Let_def)
  with migration_success_is_clean [OF run] run parsed show ?thesis
    by (auto simp: sample_migrate_def)
qed

section \<open>The load test's receiver\<close>

text \<open>C36: Concurrent callbacks are counted exactly.  However the accesses of concurrent requests interleave,
  once every request has been recorded the collector is what recording them one after the other gives: the
  total is their number, and the unique ones are the distinct idempotency keys.\<close>

theorem callbacks_counted_exactly:
  assumes "counting now c keys pcs" "set pcs \<subseteq> {Returned}"
  shows "c = fold run_record keys (newCollector now) \<and> co_total c = of_nat (length keys) \<and>
    co_unique c = of_nat (card (set keys - {[]})) \<and>
    co_total c = co_unique c + co_duplicates c + co_missing c"
  unfolding sequential_expected counting_complete [OF assms] by (simp add: expected_def Let_def)

theorem callbacks_counted_exactly_witness:
  "\<exists>c. counting 0 c [''a'', ''a''] [Returned, Returned] \<and> co_total c = 2 \<and> co_unique c = 1"
proof -
  let ?c0 = "newCollector 0"
  let ?c1 = "?c0\<lparr>co_total := 1\<rparr>"
  let ?c2 = "?c1\<lparr>co_total := 2\<rparr>"
  let ?c3 = "?c2\<lparr>co_keys := {''a''}\<rparr>"
  let ?c4 = "?c3\<lparr>co_duplicates := 1\<rparr>"
  let ?c5 = "?c4\<lparr>co_unique := 1\<rparr>"
  note new = newCollector_def reset_def
  have "counting 0 ?c0 [''a'', ''a''] [Enter ''a'', Enter ''a'']"
    using counting.receive [OF counting.receive [OF counting.start]] by simp
  from counting.access [OF this, of 0] have "counting 0 ?c1 [''a'', ''a''] [Counted ''a'', Enter ''a'']"
    by (simp add: new)
  from counting.access [OF this, of 1] have "counting 0 ?c2 [''a'', ''a''] [Counted ''a'', Counted ''a'']"
    by (simp add: new)
  from counting.access [OF this, of 1] have "counting 0 ?c3 [''a'', ''a''] [Counted ''a'', Stored False]"
    by (simp add: new)
  from counting.access [OF this, of 0] have "counting 0 ?c3 [''a'', ''a''] [Stored True, Stored False]"
    by (simp add: new)
  from counting.access [OF this, of 0] have "counting 0 ?c4 [''a'', ''a''] [Returned, Stored False]"
    by (simp add: new)
  from counting.access [OF this, of 1] have counted: "counting 0 ?c5 [''a'', ''a''] [Returned, Returned]"
    by (simp add: new)
  moreover have "co_total ?c5 = 2 \<and> co_unique ?c5 = 1"
    using callbacks_counted_exactly [OF counted, THEN conjunct2] by simp
  ultimately show ?thesis by blast
qed

end
