(* ===== verification/Row_Types.thy ===== *)
theory Row_Types
  imports System
begin

text \<open>
  What holds of the rows whatever the operations do with them: every stored row fits the columns of its
  table.  The rules follow a predicate of the database through the statements of a transaction, so that
  each operation is a few steps.
\<close>

section \<open>Predicates kept by transactions\<close>

definition tx_keeps :: "(db \<Rightarrow> bool) \<Rightarrow> 'a tx \<Rightarrow> bool" where
  "tx_keeps J m \<longleftrightarrow> (\<forall>ses n d. J d \<longrightarrow> J (snd (snd (m ses (n, d)))))"

definition op_keeps :: "(db \<Rightarrow> bool) \<Rightarrow> 'a db_op \<Rightarrow> bool" where
  "op_keeps J m \<longleftrightarrow> (\<forall>ses d. J d \<longrightarrow> J (snd (m ses d)))"

lemma op_keepsD: "op_keeps J m \<Longrightarrow> J d \<Longrightarrow> J (snd (m ses d))"
  by (simp add: op_keeps_def)

named_theorems tx_rules "rules that follow a predicate through a transaction"

lemma tx_keeps_return [tx_rules]: "tx_keeps J (tx_return a)"
  by (simp add: tx_keeps_def tx_return_def)

lemma tx_keeps_throw [tx_rules]: "tx_keeps J (tx_throw e)"
  by (simp add: tx_keeps_def tx_throw_def)

lemma tx_keeps_bind [tx_rules]:
  assumes "tx_keeps J m" "\<And>a. tx_keeps J (f a)"
  shows "tx_keeps J (tx_bind m f)"
proof -
  have "J (snd (snd (tx_bind m f ses (n, d))))" if "J d" for ses n d
  proof (cases "m ses (n, d)")
    case (fields r n' d')
    with assms(1) that have "J d'" unfolding tx_keeps_def by (metis snd_conv)
    with assms(2) fields show ?thesis by (cases r) (simp_all add: tx_bind_def tx_keeps_def)
  qed
  then show ?thesis by (simp add: tx_keeps_def)
qed

lemma tx_keeps_wrap [tx_rules]: "tx_keeps J m \<Longrightarrow> tx_keeps J (tx_wrap ctx m)"
  by (simp add: tx_keeps_def tx_wrap_def case_prod_beta)

lemma tx_keeps_each [tx_rules]:
  assumes "\<And>a b. tx_keeps J (f a b)"
  shows "tx_keeps J (tx_each f xs b)"
  by (induction xs arbitrary: b) (auto intro!: tx_rules assms)

lemma tx_keeps_if [tx_rules]: "tx_keeps J m \<Longrightarrow> tx_keeps J m' \<Longrightarrow> tx_keeps J (if c then m else m')"
  by simp

lemma tx_keeps_result [tx_rules]:
  "(\<And>e. tx_keeps J (f e)) \<Longrightarrow> (\<And>a. tx_keeps J (g a)) \<Longrightarrow> tx_keeps J (case r of Inl e \<Rightarrow> f e | Inr a \<Rightarrow> g a)"
  by (cases r) auto

lemma tx_keeps_option [tx_rules]:
  "tx_keeps J m \<Longrightarrow> (\<And>a. tx_keeps J (g a)) \<Longrightarrow> tx_keeps J (case r of None \<Rightarrow> m | Some a \<Rightarrow> g a)"
  by (cases r) auto

lemma tx_keeps_pair [tx_rules]:
  "(\<And>a b. tx_keeps J (g a b)) \<Longrightarrow> tx_keeps J (case r of (a, b) \<Rightarrow> g a b)"
  by (cases r) auto

lemma tx_keeps_statement:
  "(\<And>ses t d. J d \<Longrightarrow> J (snd (f ses t d))) \<Longrightarrow> tx_keeps J (statement f)"
  by (auto simp: tx_keeps_def statement_def split: option.splits prod.splits) (metis snd_conv)

lemma tx_keeps_select [tx_rules]: "tx_keeps J (select_stmt rows locked ord n P)"
  unfolding select_stmt_def by (rule tx_keeps_statement) simp

lemma tx_keeps_update:
  assumes "\<And>t d. J d \<Longrightarrow> \<forall>r \<in> set (rows d). P r \<longrightarrow> fits (touch t (f r)) \<Longrightarrow>
    J (put (update_rows P (\<lambda>r. touch t (f r)) (rows d)) d)"
  shows "tx_keeps J (update_stmt rows put touch fits P f)"
  unfolding update_stmt_def by (rule tx_keeps_statement) (use assms in \<open>auto simp: Let_def list_all_iff\<close>)

lemma tx_keeps_insert:
  assumes "\<And>t d. J d \<Longrightarrow> fits (create (seq d) t r) \<Longrightarrow> J (bump (put (rows d @ [create (seq d) t r]) d))"
  shows "tx_keeps J (insert_stmt rows put seq bump create fits clash r)"
    and "tx_keeps J (insert_ignore_stmt rows put seq bump create fits clash r)"
  unfolding insert_stmt_def insert_ignore_stmt_def
  by (rule tx_keeps_statement; use assms in \<open>auto simp: Let_def\<close>)+

lemma tx_keeps_delete:
  assumes "\<And>d rs. J d \<Longrightarrow> set rs \<subseteq> set (rows d) \<Longrightarrow> J (put rs d)"
  shows "tx_keeps J (delete_stmt rows put n P)"
  unfolding delete_stmt_def
  by (rule tx_keeps_statement) (auto simp: Let_def intro!: assms [OF _ set_delete_rows])

lemma op_keeps_transaction [tx_rules]: "tx_keeps J m \<Longrightarrow> op_keeps J (transaction m)"
  unfolding op_keeps_def tx_keeps_def transaction_def
  by (auto split: prod.splits sum.splits option.splits) (metis snd_conv)+

lemma op_keeps_wrap [tx_rules]: "op_keeps J m \<Longrightarrow> op_keeps J (op_wrap ctx m)"
  by (simp add: op_keeps_def op_wrap_state)

lemma op_keeps_expect [tx_rules]: "op_keeps J m \<Longrightarrow> op_keeps J (expect_one err m)"
  by (simp add: op_keeps_def expect_one_state)

lemma op_keeps_one_row [tx_rules]: "op_keeps J m \<Longrightarrow> op_keeps J (one_row m)"
  by (simp add: op_keeps_def one_row_state)

section \<open>Predicates kept by the operations\<close>

text \<open>A predicate that the single statements keep is kept by the operations that are built from them.
  Only a Scheduler batch inserts Executions, and it updates none.\<close>

locale statement_predicate =
  fixes J :: "db \<Rightarrow> bool"
  assumes timers: "tx_keeps J (insert_timer t)" "tx_keeps J (update_timers P f)"
    and executions: "(\<And>r u. te_ID (touch_execution u (g r)) = te_ID r) \<Longrightarrow> tx_keeps J (update_executions P' g)"
      "tx_keeps J (delete_stmt executions put_executions n P'')"
    and outbox: "tx_keeps J (insert_outbox o')" "tx_keeps J (update_outbox Q h)"
      "tx_keeps J (delete_stmt outbox put_outbox n Q')"
begin

lemma execution_updates:
  "tx_keeps J (update_executions P (start_attempt owner token now until))"
  "tx_keeps J (update_executions P (renew_lease until))"
  "tx_keeps J (update_executions P (succeed_execution at code body ms))"
  "tx_keeps J (update_executions P (fail_execution retry at code body msg ms retryAt))"
  "tx_keeps J (update_executions P (give_up now))"
  "tx_keeps J (update_executions P (release_lease now))"
  "tx_keeps J (update_executions P (mark_enqueued now))"
  by (rule executions(1); simp add: touch_execution_def execution_row_defs Let_def give_up_def release_lease_def
      mark_enqueued_def)+

lemma timer_operations:
  "op_keeps J (timerRepo_Create t)" "op_keeps J (timerRepo_Delete i)"
  "op_keeps J (timerRepo_UpdateScheduleState i from to next)"
proof -
  show "op_keeps J (timerRepo_Create t)"
    unfolding timerRepo_Create_def by (intro tx_rules timers)
  have "op_keeps J (transaction (update_timers P f))" for P f by (intro tx_rules timers)
  then show "op_keeps J (timerRepo_Delete i)" "op_keeps J (timerRepo_UpdateScheduleState i from to next)"
    by (simp_all add: op_keeps_def timerRepo_Delete_state timerRepo_UpdateScheduleState_state)
qed

lemma execution_operations:
  "op_keeps J (claim_update i owner token now ttl)"
  "op_keeps J (executionRepo_Heartbeat i owner token until)"
  "op_keeps J (executionRepo_CompleteSuccess i owner token at code body ms)"
  "op_keeps J (executionRepo_CompleteFailure e owner token at code body msg ms retryAt retryable)"
  unfolding claim_update_def executionRepo_Heartbeat_def executionRepo_CompleteSuccess_def
    executionRepo_CompleteFailure_def Let_def
  by (intro tx_rules execution_updates outbox)+

lemma outbox_operations:
  "op_keeps J (outboxRepo_ClaimBatch owner now n ttl)"
  "op_keeps J (outboxRepo_MarkPublished ev owner msg at)"
  "op_keeps J (outboxRepo_MarkFailed ev owner err at)"
  unfolding outboxRepo_ClaimBatch_def outboxRepo_MarkPublished_def outboxRepo_MarkFailed_def Let_def
  by (intro tx_rules outbox)+

lemma recovery_operations:
  "op_keeps J (recoveryRepo_RecoverBatch now staleBefore n)"
  "op_keeps J (recoveryRepo_Cleanup outboxBefore executionBefore n)"
  unfolding recoveryRepo_RecoverBatch_def recoveryRepo_Cleanup_def recover_execution_def reenqueue_def Let_def
  by (intro tx_rules execution_updates executions(2) outbox)+

lemma steps:
  assumes "sys_step d d'" "J d"
  shows "J d' \<or> (\<exists>now n resolve ses. d' = snd (ScheduleDueBatch now n resolve ses d))"
  using assms(1)
  by cases (blast intro: op_keepsD assms(2) timer_operations execution_operations outbox_operations
      recovery_operations)+

end

locale batch_predicate =
  fixes J :: "db \<Rightarrow> bool"
  assumes advance: "tx_keeps J (update_timers P f)"
    and occurrence: "tx_keeps J (insert_execution_ignore (pending_execution i now snapshot at))"
    and event: "tx_keeps J (insert_outbox o')"
begin

lemma batch: "op_keeps J (ScheduleDueBatch now n resolve)"
  unfolding ScheduleDueBatch_def schedule_timer_def create_occurrence_def
  by (intro tx_rules advance occurrence event)

end

section \<open>Rows fit their columns\<close>

definition rows_fit :: "db \<Rightarrow> bool" where
  "rows_fit d \<longleftrightarrow>
     (\<forall>t \<in> set (timers d). timer_fits t) \<and> (\<forall>e \<in> set (executions d). execution_fits e) \<and>
     (\<forall>o' \<in> set (outbox d). outbox_fits o')"

lemma rows_fit_update:
  "tx_keeps rows_fit (update_timers P f)" "tx_keeps rows_fit (update_executions P' f')"
  "tx_keeps rows_fit (update_outbox P'' f'')"
  by (rule tx_keeps_update;
      auto simp: rows_fit_def put_timers_def put_executions_def put_outbox_def in_update_rows)+

lemma rows_fit_insert:
  "tx_keeps rows_fit (insert_timer t)" "tx_keeps rows_fit (insert_execution_ignore e)"
  "tx_keeps rows_fit (insert_outbox o')"
  by (rule tx_keeps_insert;
      auto simp: rows_fit_def put_timers_def put_executions_def put_outbox_def bump_timers_def
        bump_executions_def bump_outbox_def)+

lemma rows_fit_delete:
  "tx_keeps rows_fit (delete_stmt outbox put_outbox n P)"
  "tx_keeps rows_fit (delete_stmt executions put_executions n P')"
  by (rule tx_keeps_delete; auto simp: rows_fit_def put_executions_def put_outbox_def)+

interpretation fitting: statement_predicate rows_fit
  by unfold_locales (rule rows_fit_update rows_fit_insert rows_fit_delete)+

interpretation fitting_batch: batch_predicate rows_fit
  by unfold_locales (rule rows_fit_update rows_fit_insert)+

lemma sys_step_rows_fit: "sys_step d d' \<Longrightarrow> rows_fit d \<Longrightarrow> rows_fit d'"
  using fitting.steps op_keepsD [OF fitting_batch.batch] by blast

lemma reachable_rows_fit: "reachable d \<Longrightarrow> rows_fit d"
  by (induction rule: reachable.induct) (auto simp: rows_fit_def empty_db_def dest: sys_step_rows_fit)

section \<open>New Executions are pending\<close>

definition ids_within :: "int set \<Rightarrow> db \<Rightarrow> bool" where
  "ids_within I d \<longleftrightarrow> te_ID ` set (executions d) \<subseteq> I"

lemma touch_keeps_rows [simp]:
  "executions (put_timers ts d) = executions d" "executions (put_outbox os d) = executions d"
  "executions (put_executions es d) = es" "executions (bump_timers d) = executions d"
  "executions (bump_outbox d) = executions d" "executions (bump_executions d) = executions d"
  by (simp_all add: put_timers_def put_outbox_def put_executions_def bump_timers_def bump_outbox_def
      bump_executions_def)

interpretation ids: statement_predicate "ids_within I" for I
proof
  show "tx_keeps (ids_within I) (insert_timer t)" "tx_keeps (ids_within I) (insert_outbox o')" for t o'
    by (rule tx_keeps_insert; simp add: ids_within_def)+
  show "tx_keeps (ids_within I) (update_timers P f)" "tx_keeps (ids_within I) (update_outbox Q h)" for P f Q h
    by (rule tx_keeps_update; simp add: ids_within_def)+
  show "tx_keeps (ids_within I) (update_executions P g)" if "\<And>r u. te_ID (touch_execution u (g r)) = te_ID r" for P g
    by (rule tx_keeps_update) (use that in \<open>auto simp: ids_within_def image_subset_iff in_update_rows touch_execution_def\<close>)
  show "tx_keeps (ids_within I) (delete_stmt executions put_executions n P)"
    "tx_keeps (ids_within I) (delete_stmt outbox put_outbox n Q)" for n P Q
    by (rule tx_keeps_delete; auto simp: ids_within_def)+
qed

definition new_pending :: "int set \<Rightarrow> db \<Rightarrow> bool" where
  "new_pending I d \<longleftrightarrow> (\<forall>e \<in> set (executions d). te_ID e \<in> I \<or>
     te_Status e = ExecutionStatusPending)"

interpretation pending: batch_predicate "new_pending I" for I
proof
  show "tx_keeps (new_pending I) (update_timers P f)" for P f
    by (rule tx_keeps_update) (simp add: new_pending_def)
  show "tx_keeps (new_pending I) (insert_outbox o')" for o'
    by (rule tx_keeps_insert) (simp add: new_pending_def)
  show "tx_keeps (new_pending I) (insert_execution_ignore (pending_execution i now snapshot at))" for i now snapshot at
    by (rule tx_keeps_insert) (auto simp: new_pending_def create_execution_row_def pending_execution_def)
qed

lemma sys_step_new_pending:
  assumes "sys_step d d'"
  shows "new_pending (te_ID ` set (executions d)) d'"
proof -
  let ?I = "te_ID ` set (executions d)"
  have "ids_within ?I d' \<or> (\<exists>now n resolve ses. d' = snd (ScheduleDueBatch now n resolve ses d))"
    by (rule ids.steps [OF assms]) (simp add: ids_within_def)
  moreover have "new_pending ?I (snd (ScheduleDueBatch now n resolve ses d))" for now n resolve ses
    by (rule op_keepsD [OF pending.batch]) (simp add: new_pending_def)
  moreover have "new_pending ?I d'" if "ids_within ?I d'"
    using that by (auto simp: new_pending_def ids_within_def)
  ultimately show ?thesis by blast
qed

end
