(* ===== verification/Delivery.thy ===== *)
theory Delivery
  imports Row_Types
begin

text \<open>
  Progress of the path from an event in the outbox to a finished Execution, for processes that meet no
  fault and no competitor: what a Dispatcher's round publishes, and how a Worker's run of a message ends.
\<close>

section \<open>A quiet world\<close>

text \<open>Nothing fails, nobody interferes, and no event is locked.\<close>

definition quiet_world :: "world \<Rightarrow> bool" where
  "quiet_world w \<longleftrightarrow> world_alone w \<and>
     (\<forall>n. faultless (w_sessions w n) \<and> (\<forall>i. \<not> ses_outbox_locked (w_sessions w n) i))"

lemma quiet_db_ok: "quiet_world w \<Longrightarrow> db_ok (w_db w)"
  by (simp add: quiet_world_def world_alone_def world_ok_def)

lemma quiet_lone: "db_ok d \<Longrightarrow> quiet_world (lone_world t d)"
  by (simp add: quiet_world_def world_alone_def) (simp add: lone_world_def quiet_session_def faultless_def)

lemma quiet_call:
  assumes w: "quiet_world w" and ok: "\<And>ses d. db_ok d \<Longrightarrow> db_ok (snd (m ses d))"
    and run: "\<And>ses. faultless ses \<Longrightarrow> \<forall>i. \<not> ses_outbox_locked ses i \<Longrightarrow> \<exists>d'. m ses (w_db w) = (r, d') \<and> P d'"
  shows "\<exists>w'. call m w = (r, w') \<and> quiet_world w' \<and> P (w_db w')"
proof -
  have alone: "world_alone w" using w by (simp add: quiet_world_def)
  from w run [of "w_sessions w (w_calls w)"] obtain d' where
    d': "m (w_sessions w (w_calls w)) (w_db w) = (r, d')" "P d'" by (auto simp: quiet_world_def)
  let ?w = "w\<lparr>w_calls := w_calls w + 1, w_db := d'\<rparr>"
  have c: "call m w = (r, ?w)" using alone d'(1) by (simp add: call_def world_alone_def)
  moreover have "quiet_world ?w"
    using alone_call(1) [OF alone c ok] w by (simp add: quiet_world_def)
  ultimately show ?thesis using d'(2) by (intro exI [of _ ?w]) simp
qed

section \<open>One row of the Executions\<close>

definition set_execution :: "TimerExecution \<Rightarrow> db \<Rightarrow> db" where
  "set_execution y d = put_executions (map (\<lambda>r. if te_ID r = te_ID y then y else r) (executions d)) d"

lemma set_execution_twice [simp]:
  "te_ID x = te_ID y \<Longrightarrow> set_execution y (set_execution x d) = set_execution y d"
  by (simp add: set_execution_def put_executions_def)

lemma set_execution_row:
  "x \<in> set (executions d) \<Longrightarrow> te_ID y = te_ID x \<Longrightarrow> y \<in> set (executions (set_execution y d))"
  by (force simp: set_execution_def put_executions_def)

lemma set_execution_others:
  "e \<in> set (executions d) \<Longrightarrow> te_ID e \<noteq> te_ID y \<Longrightarrow> e \<in> set (executions (set_execution y d))"
  by (force simp: set_execution_def put_executions_def)

lemma set_execution_tables [simp]:
  "timers (set_execution y d) = timers d" "outbox (set_execution y d) = outbox d"
  by (simp_all add: set_execution_def put_executions_def)

text \<open>A conditional UPDATE by key reaches the one row that meets the condition, and succeeds on it.\<close>

lemma update_rows_one:
  assumes ok: "db_ok d" and x: "x \<in> set (executions d)" "P x"
    and P: "\<And>r. P r \<Longrightarrow> te_ID r = te_ID x" and g: "te_ID (g x) = te_ID x"
  shows "put_executions (update_rows P g (executions d)) d = set_execution (g x) d"
proof -
  have "(if P r then g r else r) = (if te_ID r = te_ID (g x) then g x else r)" if r: "r \<in> set (executions d)" for r
  proof (cases "te_ID r = te_ID x")
    case True
    with execution_by_id [OF ok r x(1)] x(2) g show ?thesis by simp
  next
    case False
    with P g show ?thesis by auto
  qed
  then show ?thesis by (simp add: set_execution_def update_rows_def cong: map_cong)
qed

lemma update_one:
  assumes "faultless ses" and ok: "db_ok d" and x: "x \<in> set (executions d)" "P x"
    and P: "\<And>r. P r \<Longrightarrow> te_ID r = te_ID x" and f: "te_ID (f x) = te_ID x"
    and "\<And>u. execution_fits (touch_execution u (f x))" "\<And>u. touch_execution u (f x) \<noteq> x"
  shows "\<exists>u. transaction (update_executions P f) ses d = (Inr 1, set_execution (touch_execution u (f x)) d)"
proof -
  have only: "r = x" if "r \<in> set (executions d)" "P r" for r
    using execution_by_id [OF ok that(1) x(1)] P [OF that(2)] .
  have "succeeds ses (\<lambda>y. y = d) (update_executions P f) (\<lambda>_ _. True)"
    by (rule ex.succeeds_update [OF assms(1)]) (use only assms(7) in auto)
  then obtain n d' where t: "transaction (update_executions P f) ses d = (Inr n, d')"
    by (rule transaction_succeeds [OF assms(1)]) auto
  then obtain u where u: "d' = put_executions (update_rows P (\<lambda>r. touch_execution u (f r)) (executions d)) d"
    "n = changed_rows P (\<lambda>r. touch_execution u (f r)) (executions d)" by (rule ex.update_effect)
  have "changed_rows P (\<lambda>r. touch_execution u (f r)) (executions d) = 1 \<longleftrightarrow>
      (\<exists>r \<in> set (executions d). P r \<and> touch_execution u (f r) \<noteq> r)"
    by (rule changed_rows_unique [OF db_ok_distinct(2) [OF ok] P])
  with x assms(8) u(2) have "n = 1" by blast
  moreover have "te_ID (touch_execution u (f x)) = te_ID x" using f by (simp add: touch_execution_def)
  ultimately show ?thesis using t u(1) update_rows_one [of d x P "\<lambda>r. touch_execution u (f r)", OF ok x P] by auto
qed

section \<open>A Worker's run\<close>

lemma Claim_succeeds:
  assumes w: "quiet_world w" and e: "e \<in> set (executions (w_db w))" "executable now e"
    and "token \<noteq> []" "varchar 128 owner" "varchar 64 token"
  obtains u y w' where "y = touch_execution u (start_attempt owner token now (time_add now ttl) e)"
    and "executionRepo_Claim (te_ID e) owner token now ttl w = (Inr (Some y, True), w')"
    and "quiet_world w'" "w_db w' = set_execution y (w_db w)"
proof -
  let ?f = "start_attempt owner token now (time_add now ttl)"
  let ?claimed = "\<lambda>d'. \<exists>u. d' = set_execution (touch_execution u (?f e)) (w_db w)"
  have ok: "db_ok (w_db w)" by (rule quiet_db_ok [OF w])
  have claim: "\<exists>d'. claim_update (te_ID e) owner token now ttl ses (w_db w) = (Inr 1, d') \<and> ?claimed d'"
    if "faultless ses" for ses
  proof -
    have "\<exists>u. transaction (update_executions (\<lambda>r. te_ID r = te_ID e \<and> executable now r) ?f) ses (w_db w) =
        (Inr 1, set_execution (touch_execution u (?f e)) (w_db w))"
      by (rule update_one [OF that ok e(1), where P = "\<lambda>r. te_ID r = te_ID e \<and> executable now r" and f = ?f])
         (use e(2) assms(5,6) in \<open>auto simp: execution_fits_def execution_row_defs text_column_def
            start_attempt_changes [unfolded execution_row_defs]\<close>)
    then show ?thesis by (auto simp: claim_update_def op_wrap_Inr)
  qed
  have "\<exists>w1. call (claim_update (te_ID e) owner token now ttl) w = (Inr 1, w1) \<and> quiet_world w1 \<and>
      ?claimed (w_db w1)"
    by (rule quiet_call [where P = ?claimed, OF w claim_update_ok [OF _ assms(4)]]) (use claim in blast)+
  then obtain w1 where w1: "call (claim_update (te_ID e) owner token now ttl) w = (Inr 1, w1)" "quiet_world w1"
    "?claimed (w_db w1)" by blast
  then obtain u where db1: "w_db w1 = set_execution (touch_execution u (?f e)) (w_db w)" by blast
  define y where "y = touch_execution u (?f e)"
  have y: "y \<in> set (executions (w_db w1))" "te_ID y = te_ID e"
    using set_execution_row [OF e(1), of y] by (simp_all add: db1 y_def execution_row_defs)
  have "first_row (filter (\<lambda>r. te_ID r = te_ID e) (executions (w_db w1))) = Some y"
  proof (cases "filter (\<lambda>r. te_ID r = te_ID e) (executions (w_db w1))")
    case Nil
    with y show ?thesis by (auto simp: filter_empty_conv)
  next
    case (Cons r rs)
    then have "r \<in> set (filter (\<lambda>r. te_ID r = te_ID e) (executions (w_db w1)))" by simp
    with execution_by_id [OF quiet_db_ok [OF w1(2)] _ y(1)] y(2) have "r = y" by auto
    with Cons show ?thesis by (simp add: first_row_def)
  qed
  then have read: "\<exists>d'. claim_read (te_ID e) ses (w_db w1) = (Inr (Some y), d') \<and> d' = w_db w1" if "faultless ses" for ses
    using that by (simp add: claim_read_def op_wrap_Inr query_def read_stmt_def statement_def faultless_def)
  have "\<exists>w2. call (claim_read (te_ID e)) w1 = (Inr (Some y), w2) \<and> quiet_world w2 \<and> w_db w2 = w_db w1"
    by (rule quiet_call [where P = "\<lambda>d. d = w_db w1", OF w1(2)]) (use read in \<open>auto simp: claim_read_state\<close>)
  then obtain w2 where "call (claim_read (te_ID e)) w1 = (Inr (Some y), w2)" "quiet_world w2" "w_db w2 = w_db w1"
    by blast
  with w1(1) db1 that [of y u w2] show ?thesis by (simp add: executionRepo_Claim_def y_def)
qed

lemma set_execution_same: "db_ok d \<Longrightarrow> y \<in> set (executions d) \<Longrightarrow> set_execution y d = d"
proof -
  assume ok: "db_ok d" and y: "y \<in> set (executions d)"
  have "map (\<lambda>r. if te_ID r = te_ID y then y else r) (executions d) = executions d"
    by (rule map_idI) (use execution_by_id [OF ok y] in auto)
  then show ?thesis by (simp add: set_execution_def put_executions_def)
qed

text \<open>A write fenced by a lease that is held.\<close>

lemma held_write:
  assumes w: "quiet_world w" and y: "y \<in> set (executions (w_db w))" "holds_lease i owner token y"
    and m: "m = one_row (op_wrap ctx (transaction (update_executions (holds_lease i owner token) f)))"
    and ok: "\<And>ses d. db_ok d \<Longrightarrow> db_ok (snd (m ses d))"
    and f: "te_ID (f y) = te_ID y" "\<And>u. execution_fits (touch_execution u (f y))" "\<And>u. touch_execution u (f y) \<noteq> y"
  shows "\<exists>u w'. call m w = (Inr True, w') \<and> quiet_world w' \<and>
    w_db w' = set_execution (touch_execution u (f y)) (w_db w)"
proof -
  let ?P = "\<lambda>d. \<exists>u. d = set_execution (touch_execution u (f y)) (w_db w)"
  have run: "\<exists>d'. m ses (w_db w) = (Inr True, d') \<and> ?P d'" if "faultless ses" for ses
  proof -
    have "\<exists>u. transaction (update_executions (holds_lease i owner token) f) ses (w_db w) =
        (Inr 1, set_execution (touch_execution u (f y)) (w_db w))"
      by (rule update_one [OF that quiet_db_ok [OF w] y(1)]) (use y(2) f in \<open>auto simp: holds_lease_def\<close>)
    then show ?thesis by (auto simp: m one_row_Inr op_wrap_Inr)
  qed
  have "\<exists>w'. call m w = (Inr True, w') \<and> quiet_world w' \<and> ?P (w_db w')"
    by (rule quiet_call [where P = ?P, OF w ok]) (use run in blast)+
  then show ?thesis by blast
qed

text \<open>The heartbeat keeps the lease while its ticks move on.\<close>

lemma heartbeat_keeps_lease:
  assumes "sw_repo w = world_execution_repo" "quiet_world s" "y \<in> set (executions (w_db s))"
    and "holds_lease i (sw_consumerID w) token y" "execution_fits y"
    and "te_LeaseUntil y = Some (time_add t0 (seconds (wc_LeaseTTLSeconds (sw_workerCfg w))))"
    and "sorted_wrt (<) (t0 # ticks)"
  shows "\<exists>s' u t. heartbeat w i token ticks s = (False, s') \<and> quiet_world s' \<and>
    w_db s' = set_execution (touch_execution u (renew_lease t y)) (w_db s)"
  using assms(2-)
proof (induction ticks arbitrary: t0 s y)
  case Nil
  have "touch_execution (te_UpdatedAt y) (renew_lease (the (te_LeaseUntil y)) y) = y"
    using Nil.prems(5) by (simp add: touch_execution_def renew_lease_def)
  with set_execution_same [OF quiet_db_ok [OF Nil.prems(1)] Nil.prems(2)] Nil.prems(1) show ?case
    by (intro exI [of _ s] exI [of _ "te_UpdatedAt y"] exI [of _ "the (te_LeaseUntil y)"]) simp
next
  case (Cons now ticks)
  let ?until = "time_add now (seconds (wc_LeaseTTLSeconds (sw_workerCfg w)))"
  have later: "Some ?until \<noteq> te_LeaseUntil y" using Cons.prems(5,6) by (simp add: time_add_def)
  have "\<exists>u s1. call (executionRepo_Heartbeat i (sw_consumerID w) token ?until) s = (Inr True, s1) \<and>
      quiet_world s1 \<and> w_db s1 = set_execution (touch_execution u (renew_lease ?until y)) (w_db s)"
  proof (rule held_write [OF Cons.prems(1-3) executionRepo_Heartbeat_def])
    show "touch_execution u (renew_lease ?until y) \<noteq> y" for u
      using later by (auto simp: execution_row_defs dest: arg_cong [where f = te_LeaseUntil])
  qed (use Cons.prems(4) in \<open>simp_all add: Heartbeat_ok execution_fits_def execution_row_defs\<close>)
  then obtain u s1 where s1: "call (executionRepo_Heartbeat i (sw_consumerID w) token ?until) s = (Inr True, s1)"
    "quiet_world s1" "w_db s1 = set_execution (touch_execution u (renew_lease ?until y)) (w_db s)" by blast
  let ?y = "touch_execution u (renew_lease ?until y)"
  have id: "te_ID ?y = te_ID y" by (simp add: execution_row_defs)
  have "\<exists>s' v t. heartbeat w i token ticks s1 = (False, s') \<and> quiet_world s' \<and>
      w_db s' = set_execution (touch_execution v (renew_lease t ?y)) (w_db s1)"
  proof (rule Cons.IH [OF s1(2)])
    show "?y \<in> set (executions (w_db s1))" unfolding s1(3) by (rule set_execution_row [OF Cons.prems(2) id])
  qed (use Cons.prems(3,4,6) in \<open>auto simp: holds_lease_def execution_fits_def execution_row_defs\<close>)
  then obtain s' v t where s': "heartbeat w i token ticks s1 = (False, s')" "quiet_world s'"
    "w_db s' = set_execution (touch_execution v (renew_lease t ?y)) (w_db s1)" by blast
  have "touch_execution v (renew_lease t ?y) = touch_execution v (renew_lease t y)"
    by (simp add: execution_row_defs)
  with s' s1 assms(1) id show ?case
    by (intro exI [of _ s'] exI [of _ v] exI [of _ t])
       (simp add: world_execution_repo_def touch_execution_def renew_lease_def)
qed

text \<open>A run whose callback succeeds.\<close>

definition succeeded_run :: "time \<Rightarrow> time \<Rightarrow> int \<Rightarrow> string \<Rightarrow> TimerExecution \<Rightarrow> TimerExecution \<Rightarrow> bool" where
  "succeeded_run startedAt finishedAt code body e e' \<longleftrightarrow>
     te_ID e' = te_ID e \<and> te_TimerID e' = te_TimerID e \<and> te_ScheduledAt e' = te_ScheduledAt e \<and>
     te_RequestSnapshot e' = te_RequestSnapshot e \<and> te_Status e' = ExecutionStatusSuccess \<and>
     te_Attempt e' = te_Attempt e + 1 \<and> te_StartedAt e' = Some startedAt \<and>
     te_FinishedAt e' = Some finishedAt \<and> te_ResponseCode e' = code \<and> te_ResponseBody e' = body \<and>
     te_ErrorMessage e' = [] \<and> te_DurationMS e' = Milliseconds (time_sub finishedAt startedAt)"

text \<open>A run up to the answer of its callback: the Execution is claimed, and the lease is kept.\<close>

definition attempt_rows :: "string \<Rightarrow> string \<Rightarrow> time \<Rightarrow> TimerExecution \<Rightarrow> TimerExecution \<Rightarrow> TimerExecution \<Rightarrow> bool" where
  "attempt_rows owner token startedAt e y z \<longleftrightarrow>
     (\<exists>u until v t. y = touch_execution u (start_attempt owner token startedAt until e) \<and>
        z = touch_execution v (renew_lease t y))"

lemma process_answered:
  assumes repo: "sw_repo w = world_execution_repo" and s: "quiet_world s"
    and e: "e \<in> set (executions (w_db s))" "executable (ae_startedAt env) e"
    and m: "sm_DecodeError m = []" "sm_ExecutionID m = te_ID e"
    and owner: "varchar 128 (sw_consumerID w)" and rand: "ae_rand env = Inr bytes"
    and snap: "unmarshal_snapshot (te_RequestSnapshot e) = Inr snapshot"
    and cb: "ae_callback env snapshot (te_ID e) = (code, body, err)"
    and ticks: "sorted_wrt (<) (ae_startedAt env # ae_heartbeats env)"
  obtains token y z s' where "attempt_rows (sw_consumerID w) token (ae_startedAt env) e y z"
    and "quiet_world s'" "w_db s' = set_execution z (w_db s)" "z \<in> set (executions (w_db s'))"
    and "holds_lease (te_ID e) (sw_consumerID w) token z"
    and "process w env m reclaimed (rep, q, s) =
      (let st = (if reclaimed then ReportWorkerRedelivery rep else rep, q, s') in case err of
         Some msg \<Rightarrow> finishFailure w m y token (ae_startedAt env) (ae_finishedAt env) code body msg
           (isRetryableCallbackFailure code) st
       | None \<Rightarrow> finishSuccess w m y token (ae_startedAt env) (ae_finishedAt env) code body st)"
proof -
  let ?t0 = "ae_startedAt env" and ?owner = "sw_consumerID w"
    and ?ttl = "seconds (wc_LeaseTTLSeconds (sw_workerCfg w))"
  from rand obtain token where token: "newRunToken (ae_rand env) = Inr token" by (simp add: newRunToken_def)
  have tok: "token \<noteq> []" "varchar 64 token"
    using newRunToken_nonempty [OF token] newRunToken_length [OF token] newRunToken_ascii [OF token]
    by (simp_all add: varcharI)
  obtain u y s1 where y: "y = touch_execution u (start_attempt ?owner token ?t0 (time_add ?t0 ?ttl) e)"
    and claim: "executionRepo_Claim (te_ID e) ?owner token ?t0 ?ttl s = (Inr (Some y, True), s1)"
    and s1: "quiet_world s1" "w_db s1 = set_execution y (w_db s)"
    by (rule Claim_succeeds [OF s e tok(1) owner tok(2)])
  have y1: "y \<in> set (executions (w_db s1))" "holds_lease (te_ID e) ?owner token y" "execution_fits y"
    "te_LeaseUntil y = Some (time_add ?t0 ?ttl)" "te_ID y = te_ID e"
    "te_RequestSnapshot y = te_RequestSnapshot e"
    unfolding s1(2) using set_execution_row [OF e(1), of y] owner tok(2)
    by (simp_all add: y holds_lease_def execution_fits_def execution_row_defs text_column_def)
  from heartbeat_keeps_lease [OF repo s1(1) y1(1-4) ticks] obtain s2 v t where
    hb: "heartbeat w (te_ID e) token (ae_heartbeats env) s1 = (False, s2)" and s2: "quiet_world s2"
    "w_db s2 = set_execution (touch_execution v (renew_lease t y)) (w_db s1)" by blast
  define z where "z = touch_execution v (renew_lease t y)"
  have z: "holds_lease (te_ID e) ?owner token z" "z \<in> set (executions (w_db s2))"
    "te_ID z = te_ID y"
    using set_execution_row [OF y1(1), of z] y1(2)
    by (simp_all add: z_def s2(2) holds_lease_def execution_row_defs)
  have "attempt_rows ?owner token ?t0 e y z" unfolding attempt_rows_def y z_def by blast
  moreover have "w_db s2 = set_execution z (w_db s)" by (simp add: s2(2) s1(2) z(3) flip: z_def)
  moreover have "1 \<le> te_ID e" using e(1) db_okD(2) [OF quiet_db_ok [OF s]] by (force simp: table_ok_def)
  then have "process w env m reclaimed (rep, q, s) =
      (let st = (if reclaimed then ReportWorkerRedelivery rep else rep, q, s2) in case err of
         Some msg \<Rightarrow> finishFailure w m y token ?t0 (ae_finishedAt env) code body msg
           (isRetryableCallbackFailure code) st
       | None \<Rightarrow> finishSuccess w m y token ?t0 (ae_finishedAt env) code body st)"
    using claim hb token
    by (simp add: process_def m Let_def repo world_execution_repo_def run_attempt_def y1(5,6) snap cb)
  ultimately show ?thesis using that [of token y z s2] s2(1) z by blast
qed

lemma process_succeeds:
  assumes repo: "sw_repo w = world_execution_repo" and s: "quiet_world s"
    and e: "e \<in> set (executions (w_db s))" "executable (ae_startedAt env) e"
    and m: "sm_DecodeError m = []" "sm_ExecutionID m = te_ID e"
    and owner: "varchar 128 (sw_consumerID w)" and rand: "ae_rand env = Inr bytes"
    and snap: "unmarshal_snapshot (te_RequestSnapshot e) = Inr snapshot"
    and cb: "ae_callback env snapshot (te_ID e) = (code, body, None)" "text_column body"
    and ticks: "sorted_wrt (<) (ae_startedAt env # ae_heartbeats env)"
  shows "\<exists>rep' s' e'. process w env m reclaimed (rep, q, s) = (rep',
      snd (ws_Ack (sw_stream w) (oc_Stream (sw_outboxCfg w)) (oc_ConsumerGroup (sw_outboxCfg w)) (sm_ID m) q), s') \<and>
    quiet_world s' \<and> w_db s' = set_execution e' (w_db s) \<and>
    succeeded_run (ae_startedAt env) (ae_finishedAt env) code body e e'"
proof -
  let ?t1 = "ae_finishedAt env" and ?owner = "sw_consumerID w"
    and ?ms = "Milliseconds (time_sub (ae_finishedAt env) (ae_startedAt env))"
  obtain token y z s2 where
    row: "attempt_rows ?owner token (ae_startedAt env) e y z" and s2: "quiet_world s2"
    "w_db s2 = set_execution z (w_db s)" "z \<in> set (executions (w_db s2))" "holds_lease (te_ID e) ?owner token z"
    and run: "process w env m reclaimed (rep, q, s) = finishSuccess w m y token (ae_startedAt env) ?t1 code body
      (if reclaimed then ReportWorkerRedelivery rep else rep, q, s2)"
    by (rule process_answered [OF repo s e m owner rand snap cb(1) ticks, of reclaimed rep q])
       (rule that; simp add: Let_def)
  let ?op = "executionRepo_CompleteSuccess (te_ID e) ?owner token ?t1 code body ?ms"
    and ?f = "succeed_execution ?t1 code body ?ms"
  have "\<exists>x s3. call ?op s2 = (Inr True, s3) \<and> quiet_world s3 \<and>
      w_db s3 = set_execution (touch_execution x (?f z)) (w_db s2)"
  proof (rule held_write [OF s2(1,3,4) executionRepo_CompleteSuccess_def])
    show "touch_execution u (?f z) \<noteq> z" for u
      by (rule completion_changes(1)) (use s2(4) in \<open>simp add: holds_lease_def\<close>)
  qed (use cb(2) in \<open>simp_all add: CompleteSuccess_ok execution_fits_def succeed_execution_def
      touch_execution_def varcharI text_column_def\<close>)
  then obtain x s3 where s3: "call ?op s2 = (Inr True, s3)" "quiet_world s3"
    "w_db s3 = set_execution (touch_execution x (?f z)) (w_db s2)" by blast
  let ?e' = "touch_execution x (?f z)"
  have "succeeded_run (ae_startedAt env) ?t1 code body e ?e'" "te_ID ?e' = te_ID z" "te_ID y = te_ID e"
    using row by (auto simp: attempt_rows_def succeeded_run_def execution_row_defs)
  then show ?thesis
    using run s3 s2(2)
    by (intro exI [of _ "ReportWorkerExecution ResultSuccess (time_sub ?t1 (ae_startedAt env))
          (if reclaimed then ReportWorkerRedelivery rep else rep)"] exI [of _ s3] exI [of _ ?e'])
       (simp add: finishSuccess_def repo world_execution_repo_def worker_ack_def)
qed

section \<open>A Dispatcher's round\<close>

text \<open>The publisher accepts every event, under identifiers that fit their column.\<close>

definition accepting :: "'p publisher \<Rightarrow> bool" where
  "accepting publish \<longleftrightarrow> (\<forall>stream maxLen e p. \<exists>msg p'. publish stream maxLen e p = (Inr msg, p') \<and> varchar 128 msg)"

definition claimed_events :: "string \<Rightarrow> OutboxEvent list \<Rightarrow> db \<Rightarrow> bool" where
  "claimed_events owner evs d \<longleftrightarrow> (\<forall>e \<in> set evs. \<exists>r \<in> set (outbox d). held_event (oe_EventID e) owner r)"

lemma changed_rows_claim:
  assumes ok: "db_ok d" and owner: "owner \<noteq> []" and until: "now \<le> until"
    and cs: "cs = claim_candidates ses now limit d"
  shows "changed_rows (\<lambda>e. oe_ID e \<in> oe_ID ` set cs) (claimed_row owner until u) (outbox d) = int (length cs)"
proof -
  have row: "r \<in> set cs" if "r \<in> set (outbox d)" "oe_ID r \<in> oe_ID ` set cs" for r
  proof -
    from that(2) obtain c where c: "c \<in> set cs" "oe_ID r = oe_ID c" by blast
    with table_ok_inj [OF db_okD(3) [OF ok] that(1)] claim_candidates_props(1) cs have "r = c" by blast
    with c(1) show ?thesis by simp
  qed
  have "claimed_row owner until u r \<noteq> r" if r: "r \<in> set cs" for r
  proof
    assume eq: "claimed_row owner until u r = r"
    have "oe_ClaimOwner r = owner" "oe_ClaimUntil r = Some until"
      by (subst eq [symmetric], simp add: claimed_row_def touch_outbox_def claim_event_def)+
    with claim_candidates_props(2) [OF r [unfolded cs]] owner until show False by (simp add: claimable_def)
  qed
  with row have "changed_rows (\<lambda>e. oe_ID e \<in> oe_ID ` set cs) (claimed_row owner until u) (outbox d) =
      int (length (filter (\<lambda>e. oe_ID e \<in> oe_ID ` set cs) (outbox d)))"
    by (intro changed_rows_all) blast
  moreover have "set (filter (\<lambda>e. oe_ID e \<in> oe_ID ` set cs) (outbox d)) = set cs"
    using row claim_candidates_props(1) cs by auto
  moreover have "distinct (outbox d)" "distinct cs"
    using db_ok_distinct(3) [OF ok] distinct_candidates [OF ok] cs by (simp_all add: distinct_map)
  ultimately show ?thesis by (metis distinct_card distinct_filter)
qed

text \<open>The statements of a claim: all claimable events are taken.\<close>

lemma claim_run:
  assumes ses: "faultless ses" "\<forall>i. \<not> ses_outbox_locked ses i" and ok: "db_ok d" and fit: "rows_fit d"
    and owner: "owner \<noteq> []" "varchar 128 owner" and ttl: "0 \<le> ttl" and n: "int (length (outbox d)) \<le> n"
  shows "claim_candidates ses now n d = filter (claimable now) (outbox d)"
    and "\<exists>d'. outboxRepo_ClaimBatch owner now n ttl ses d =
      (Inr (map (claim_event owner (time_add now ttl)) (filter (claimable now) (outbox d))), d')"
proof -
  let ?until = "time_add now ttl" and ?cs = "filter (claimable now) (outbox d)"
  have "int (length ?cs) \<le> n" using n length_filter_le [of "claimable now" "outbox d"] by linarith
  then show cs: "claim_candidates ses now n d = ?cs"
    using ses(2) by (simp add: claim_candidates_def list_take_all)
  have sel: "succeeds ses (\<lambda>x. x = d) (lock_outbox id n (claimable now)) (\<lambda>xs x. xs = ?cs \<and> x = d)"
    by (rule ob.succeeds_select [OF ses(1)]) (use cs in \<open>simp add: claim_candidates_def\<close>)
  have upd: "succeeds ses (\<lambda>x. x = d) (update_outbox (\<lambda>e. oe_ID e \<in> set (map oe_ID ?cs)) (claim_event owner ?until))
      (\<lambda>k x. k = int (length ?cs))"
  proof (rule ob.succeeds_update [OF ses(1)])
    show "outbox_fits (touch_outbox t (claim_event owner ?until r))" if "x = d" "r \<in> set (outbox x)" for t x r
      using that fit owner(2) by (auto simp: rows_fit_def outbox_fits_def touch_outbox_def claim_event_def)
    show "changed_rows (\<lambda>e. oe_ID e \<in> set (map oe_ID ?cs)) (\<lambda>r. touch_outbox t (claim_event owner ?until r))
        (outbox x) = int (length ?cs)" if "x = d" for t x
      using that changed_rows_claim [OF ok owner(1) _ cs [symmetric], of ?until t] ttl
      by (simp add: claimed_row_def [abs_def] time_add_def)
  qed
  let ?body = "\<lambda>events. if events = [] then tx_return []
      else (let ids = map oe_ID events; claimUntil = ?until
        in tx_bind (tx_wrap ''update outbox claim''
             (update_outbox (\<lambda>e. oe_ID e \<in> set ids) (claim_event owner claimUntil)))
             (\<lambda>affected. if affected \<noteq> int (length ids) then
                  tx_throw (claim_mismatch affected (int (length ids)))
                else tx_return (map (claim_event owner claimUntil) events)))"
  have "succeeds ses (\<lambda>x. x = d) (?body ?cs) (\<lambda>evs x. evs = map (claim_event owner ?until) ?cs)"
  proof (cases "?cs = []")
    case False
    show ?thesis
      unfolding if_not_P [OF False] Let_def
      by (rule succeeds_bind [OF succeeds_wrap [OF upd]]) (auto simp: succeeds_def tx_return_def)
  qed (simp add: succeeds_return)
  then have body: "succeeds ses (\<lambda>x. xs = ?cs \<and> x = d) (?body xs) (\<lambda>evs x. evs = map (claim_event owner ?until) ?cs)" for xs
    unfolding succeeds_def by blast
  show "\<exists>d'. outboxRepo_ClaimBatch owner now n ttl ses d = (Inr (map (claim_event owner ?until) ?cs), d')"
    unfolding outboxRepo_ClaimBatch_def
    by (rule transaction_succeeds [OF ses(1) succeeds_bind [OF succeeds_wrap [OF sel] body] refl]) blast
qed

lemma ClaimBatch_succeeds:
  assumes w: "quiet_world w" and fit: "rows_fit (w_db w)" and owner: "owner \<noteq> []" "varchar 128 owner"
    and ttl: "0 \<le> ttl" and n: "int (length (outbox (w_db w))) \<le> n"
  shows "\<exists>evs w'. call (outboxRepo_ClaimBatch owner now n ttl) w = (Inr evs, w') \<and> quiet_world w' \<and>
    executions (w_db w') = executions (w_db w) \<and> claimed_events owner evs (w_db w') \<and>
    oe_EventID ` set evs = oe_EventID ` {e \<in> set (outbox (w_db w)). claimable now e} \<and> rows_fit (w_db w') \<and>
    distinct (map oe_EventID evs)"
proof -
  let ?d = "w_db w" and ?until = "time_add now ttl"
  let ?cs = "filter (claimable now) (outbox (w_db w))"
  let ?P = "\<lambda>d'. executions d' = executions ?d \<and> claimed_events owner (map (claim_event owner ?until) ?cs) d' \<and>
    rows_fit d'"
  have run: "\<exists>d'. outboxRepo_ClaimBatch owner now n ttl ses ?d = (Inr (map (claim_event owner ?until) ?cs), d') \<and> ?P d'"
    if ses: "faultless ses" "\<forall>i. \<not> ses_outbox_locked ses i" for ses
  proof -
    note claim = claim_run [OF ses quiet_db_ok [OF w] fit owner ttl n, of now]
    from claim(2) obtain d' where
      d': "outboxRepo_ClaimBatch owner now n ttl ses ?d = (Inr (map (claim_event owner ?until) ?cs), d')" by blast
    have "rows_fit d'" using op_keepsD [OF fitting.outbox_operations(1) fit, of owner now n ttl ses] d' by simp
    moreover from ClaimBatch_result [OF d', unfolded claim(1)] consider "?cs = []" "d' = ?d" | u where
      "d' = put_outbox (update_rows (\<lambda>e. oe_ID e \<in> oe_ID ` set ?cs) (claimed_row owner ?until u) (outbox ?d)) ?d"
      unfolding claim_rel_def by blast
    then have "executions d' = executions ?d \<and> claimed_events owner (map (claim_event owner ?until) ?cs) d'"
    proof cases
      case 2
      have "\<exists>r \<in> set (outbox d'). held_event (oe_EventID c) owner r" if c: "c \<in> set ?cs" for c
      proof (rule bexI)
        show "claimed_row owner ?until u c \<in> set (outbox d')"
          using update_rows_image [of c "outbox ?d" "\<lambda>e. oe_ID e \<in> oe_ID ` set ?cs" "claimed_row owner ?until u"] c
          by (simp add: 2 put_outbox_def)
        show "held_event (oe_EventID c) owner (claimed_row owner ?until u c)"
          using c by (simp add: held_event_def claimed_row_def touch_outbox_def claim_event_def claimable_def)
      qed
      then show ?thesis unfolding claimed_events_def by (simp add: 2 put_outbox_def claim_event_def)
    qed (simp add: claimed_events_def)
    ultimately show ?thesis using d' by blast
  qed
  have "\<exists>w'. call (outboxRepo_ClaimBatch owner now n ttl) w = (Inr (map (claim_event owner ?until) ?cs), w') \<and>
      quiet_world w' \<and> ?P (w_db w')"
    by (rule quiet_call [where P = ?P, OF w ClaimBatch_ok [OF _ owner(1)]]) (use run in blast)+
  moreover have "oe_EventID ` set (map (claim_event owner ?until) ?cs) =
      oe_EventID ` {e \<in> set (outbox (w_db w)). claimable now e}"
    by (auto simp: claim_event_def image_iff)
  moreover have "distinct (map oe_EventID (map (claim_event owner ?until) ?cs))"
    using distinct_map_filter [OF db_ok_distinct(4) [OF quiet_db_ok [OF w]]] by (simp add: claim_event_def o_def)
  ultimately show ?thesis by blast
qed

lemma MarkPublished_succeeds:
  assumes w: "quiet_world w" and fit: "rows_fit (w_db w)" and r: "r \<in> set (outbox (w_db w))" "held_event ev owner r"
    and msg: "varchar 128 msg"
  shows "\<exists>w' u. call (outboxRepo_MarkPublished ev owner msg at) w = (Inr (), w') \<and> quiet_world w' \<and>
    rows_fit (w_db w') \<and> w_db w' = put_outbox (update_rows (held_event ev owner)
      (\<lambda>r. touch_outbox u (publish_event msg at r)) (outbox (w_db w))) (w_db w)"
proof -
  let ?d = "w_db w"
  let ?P = "\<lambda>d'. rows_fit d' \<and> (\<exists>u. d' = put_outbox (update_rows (held_event ev owner)
      (\<lambda>r. touch_outbox u (publish_event msg at r)) (outbox ?d)) ?d)"
  have ok: "db_ok ?d" by (rule quiet_db_ok [OF w])
  have run: "\<exists>d'. outboxRepo_MarkPublished ev owner msg at ses ?d = (Inr (), d') \<and> ?P d'" if ses: "faultless ses" for ses
  proof -
    have "succeeds ses (\<lambda>x. x = ?d) (update_outbox (held_event ev owner) (publish_event msg at)) (\<lambda>_ _. True)"
      by (rule ob.succeeds_update [OF ses])
         (use fit msg in \<open>auto simp: rows_fit_def outbox_fits_def touch_outbox_def publish_event_def
            varcharI text_column_def\<close>)
    then obtain n d' where t: "transaction (update_outbox (held_event ev owner) (publish_event msg at)) ses ?d = (Inr n, d')"
      by (rule transaction_succeeds [OF ses]) auto
    then obtain u where u: "d' = put_outbox (update_rows (held_event ev owner)
        (\<lambda>r. touch_outbox u (publish_event msg at r)) (outbox ?d)) ?d"
      "n = changed_rows (held_event ev owner) (\<lambda>r. touch_outbox u (publish_event msg at r)) (outbox ?d)"
      by (rule ob.update_effect)
    have "n = 1"
      unfolding u(2) using r one_row_outbox [OF ok, of "held_event ev owner" ev
        "\<lambda>r. touch_outbox u (publish_event msg at r)"]
      by (auto simp: held_event_def touch_outbox_def publish_event_def)
    with t have run: "outboxRepo_MarkPublished ev owner msg at ses ?d = (Inr (), d')"
      by (simp add: outboxRepo_MarkPublished_def expect_one_Inr op_wrap_Inr)
    with op_keepsD [OF fitting.outbox_operations(2) fit, of ev owner msg at ses] u(1) show ?thesis by auto
  qed
  have "\<exists>w'. call (outboxRepo_MarkPublished ev owner msg at) w = (Inr (), w') \<and> quiet_world w' \<and> ?P (w_db w')"
    by (rule quiet_call [where P = ?P, OF w MarkPublished_ok]) (use run in blast)+
  then show ?thesis by blast
qed

lemma published_after:
  assumes "r \<in> set (outbox d)" "oe_PublishedAt r \<noteq> None \<or> held_event ev owner r"
  shows "oe_EventID r \<in> published_ids (put_outbox (update_rows (held_event ev owner)
    (\<lambda>r. touch_outbox u (publish_event msg at r)) (outbox d)) d)"
proof -
  let ?g = "\<lambda>r. if held_event ev owner r then touch_outbox u (publish_event msg at r) else r"
  have "?g r \<in> set (update_rows (held_event ev owner) (\<lambda>r. touch_outbox u (publish_event msg at r)) (outbox d))"
    by (rule update_rows_image [OF assms(1)])
  moreover have "oe_EventID r = oe_EventID (?g r)" "oe_PublishedAt (?g r) \<noteq> None"
    using assms(2) by (auto simp: touch_outbox_def publish_event_def)
  ultimately show ?thesis unfolding published_ids_def by (intro rev_image_eqI [of "?g r"]) (simp_all add: put_outbox_def)
qed

lemma published_mono:
  assumes "r \<in> set (outbox d)" "held_event ev owner r"
  shows "insert ev (published_ids d) \<subseteq> published_ids (put_outbox (update_rows (held_event ev owner)
    (\<lambda>r. touch_outbox u (publish_event msg at r)) (outbox d)) d)"
  using assms published_after [of _ d ev owner u msg at] by (auto simp: published_ids_def held_event_def)

lemma claimed_events_after:
  assumes "claimed_events owner evs d" "ev \<notin> oe_EventID ` set evs"
  shows "claimed_events owner evs (put_outbox (update_rows (held_event ev owner) g (outbox d)) d)"
  unfolding claimed_events_def
proof
  fix e assume e: "e \<in> set evs"
  with assms(1) obtain r where r: "r \<in> set (outbox d)" "held_event (oe_EventID e) owner r"
    unfolding claimed_events_def by blast
  with e assms(2) have "\<not> held_event ev owner r" by (auto simp: held_event_def)
  with r update_rows_image [OF r(1), of "held_event ev owner" g]
  show "\<exists>r \<in> set (outbox (put_outbox (update_rows (held_event ev owner) g (outbox d)) d)).
      held_event (oe_EventID e) owner r" by (auto simp: put_outbox_def)
qed

lemma dispatch_events_publish:
  assumes "accepting publish" "\<And>k. \<not> du_done u k" "quiet_world s" "rows_fit (w_db s)"
    and "claimed_events owner evs (w_db s)" "distinct (map oe_EventID evs)" "logs_publications publish log"
  shows "\<exists>rep' p' s'. dispatch_events world_outbox_repo publish cfg owner u i evs (rep, p, s) = (True, rep', p', s') \<and>
    quiet_world s' \<and> executions (w_db s') = executions (w_db s) \<and> rows_fit (w_db s') \<and>
    oe_EventID ` set evs \<union> published_ids (w_db s) \<subseteq> published_ids (w_db s') \<and>
    oe_EventID ` set evs \<union> log p \<subseteq> log p'"
  using assms(3-6)
proof (induction evs arbitrary: i rep p s)
  case (Cons e evs)
  obtain msg p1 where pub: "publish (oc_Stream cfg) (oc_StreamMaxLen cfg) e p = (Inr msg, p1)" "varchar 128 msg"
    using assms(1) unfolding accepting_def by blast
  with assms(7) have log: "insert (oe_EventID e) (log p) \<subseteq> log p1" unfolding logs_publications_def by blast
  from Cons.prems(3) obtain r where r: "r \<in> set (outbox (w_db s))" "held_event (oe_EventID e) owner r"
    unfolding claimed_events_def by auto
  from MarkPublished_succeeds [OF Cons.prems(1,2) r pub(2), of "du_clock u i"] obtain s1 v where
    mark: "call (outboxRepo_MarkPublished (oe_EventID e) owner msg (du_clock u i)) s = (Inr (), s1)"
    and s1: "quiet_world s1" "rows_fit (w_db s1)" "w_db s1 = put_outbox (update_rows (held_event (oe_EventID e) owner)
      (\<lambda>r. touch_outbox v (publish_event msg (du_clock u i) r)) (outbox (w_db s))) (w_db s)" by blast
  have "claimed_events owner evs (w_db s1)"
    unfolding s1(3) by (rule claimed_events_after) (use Cons.prems(3,4) in \<open>auto simp: claimed_events_def\<close>)
  from Cons.IH [OF s1(1,2) this, of "Suc i" "ReportOutboxPublish True rep" p1] Cons.prems(4) obtain rep' p' s' where
    rest: "dispatch_events world_outbox_repo publish cfg owner u (Suc i) evs (ReportOutboxPublish True rep, p1, s1) =
      (True, rep', p', s')"
    and s': "quiet_world s'" "executions (w_db s') = executions (w_db s1)" "rows_fit (w_db s')"
      "oe_EventID ` set evs \<union> published_ids (w_db s1) \<subseteq> published_ids (w_db s')"
      "oe_EventID ` set evs \<union> log p1 \<subseteq> log p'" by auto
  have "insert (oe_EventID e) (published_ids (w_db s)) \<subseteq> published_ids (w_db s1)"
    unfolding s1(3) by (rule published_mono [OF r])
  moreover have "executions (w_db s1) = executions (w_db s)" by (simp add: s1(3))
  moreover have "dispatch_events world_outbox_repo publish cfg owner u i (e # evs) (rep, p, s) = (True, rep', p', s')"
    using rest mark assms(2) pub(1) by (simp add: dispatch_event_def world_outbox_repo_def)
  ultimately show ?case using s' log by (intro exI [of _ rep'] exI [of _ p'] exI [of _ s']) auto
qed simp

lemma dispatchOnce_publishes:
  assumes "accepting publish" "logs_publications publish log" "\<And>k. \<not> du_done u k"
    and s: "quiet_world s" "rows_fit (w_db s)" and owner: "owner \<noteq> []" "varchar 128 owner"
    and cfg: "0 \<le> seconds (oc_ClaimTTLSeconds cfg)" "int (length (outbox (w_db s))) \<le> oc_BatchSize cfg"
  shows "\<exists>rep' p' s'. dispatchOnce world_outbox_repo publish cfg owner u (rep, p, s) = (rep', p', s') \<and>
    quiet_world s' \<and> executions (w_db s') = executions (w_db s) \<and> rows_fit (w_db s') \<and>
    (\<forall>e \<in> set (outbox (w_db s)). claimable (du_now u) e \<longrightarrow>
       oe_EventID e \<in> published_ids (w_db s') \<and> oe_EventID e \<in> log p')"
proof -
  from ClaimBatch_succeeds [OF s owner cfg, of "du_now u"] obtain evs s1 where
    claim: "call (outboxRepo_ClaimBatch owner (du_now u) (oc_BatchSize cfg) (seconds (oc_ClaimTTLSeconds cfg))) s = (Inr evs, s1)"
    and s1: "quiet_world s1" "executions (w_db s1) = executions (w_db s)" "claimed_events owner evs (w_db s1)"
      "oe_EventID ` set evs = oe_EventID ` {e \<in> set (outbox (w_db s)). claimable (du_now u) e}" "rows_fit (w_db s1)"
      "distinct (map oe_EventID evs)" by blast
  from dispatch_events_publish [OF assms(1,3) s1(1,5,3,6) assms(2), where cfg = cfg and i = 0 and rep = rep and p = p]
  obtain rep' p' s2 where
    run: "dispatch_events world_outbox_repo publish cfg owner u 0 evs (rep, p, s1) = (True, rep', p', s2)"
    and s2: "quiet_world s2" "executions (w_db s2) = executions (w_db s1)" "rows_fit (w_db s2)"
      "oe_EventID ` set evs \<subseteq> published_ids (w_db s2)" "oe_EventID ` set evs \<subseteq> log p'" by auto
  let ?n = "int (length (filter (\<lambda>e. oe_PublishedAt e = None) (outbox (w_db s2))))"
  have "\<exists>s3. call outboxRepo_CountUnpublished s2 = (Inr ?n, s3) \<and> quiet_world s3 \<and> w_db s3 = w_db s2"
    by (rule quiet_call [where P = "\<lambda>d. d = w_db s2", OF s2(1)])
       (auto simp: CountUnpublished_state outboxRepo_CountUnpublished_def op_wrap_def query_read faultless_def)
  then obtain s3 where s3: "call outboxRepo_CountUnpublished s2 = (Inr ?n, s3)" "quiet_world s3" "w_db s3 = w_db s2"
    by blast
  have "dispatchOnce world_outbox_repo publish cfg owner u (rep, p, s) = (SetOutboxUnpublished ?n rep', p', s3)"
    using claim run s3(1) by (simp add: dispatchOnce_def refreshBacklogMetric_def world_outbox_repo_def)
  moreover have "oe_EventID e \<in> oe_EventID ` set evs" if "e \<in> set (outbox (w_db s))" "claimable (du_now u) e" for e
    unfolding s1(4) using that by blast
  ultimately show ?thesis using s1(2) s2 s3(2,3)
    by (intro exI [of _ "SetOutboxUnpublished ?n rep'"] exI [of _ p'] exI [of _ s3]) auto
qed

section \<open>Snapshots decode\<close>

lemma read_members_ordered:
  "ordered_keys m \<Longrightarrow> read_members m s = Some m' \<Longrightarrow> ordered_keys m'"
proof (induction m s rule: read_members.induct)
  case (1 m s)
  from 1(3) obtain k v r c r' where p: "read_pair s = Some ((k, v), r)" "skip_ws r = c # r'"
    by (subst (asm) read_members.simps) (auto split: option.split_asm list.split_asm)
  show ?case
  proof (cases "c = CHR '',''")
    case True
    with 1(3) p have "read_members (map_put k v m) r' = Some m'" by (subst (asm) read_members.simps) simp
    with 1(1) [OF p(1) refl refl p(2) True] ordered_map_put [OF 1(2)] show ?thesis by blast
  next
    case False
    with 1(3) p have "m' = map_put k v m" by (subst (asm) read_members.simps) (simp split: if_split_asm)
    with ordered_map_put [OF 1(2)] show ?thesis by simp
  qed
qed

lemma unmarshal_ordered: "unmarshal_string_map s = Inr m \<Longrightarrow> ordered_keys m"
  by (auto simp: unmarshal_string_map_def intro: read_members_ordered [of "[]"]
      split: list.splits if_splits option.splits)

lemma snapshot_decodes:
  assumes "buildRequestSnapshot t = Inr j"
  shows "\<exists>snapshot. unmarshal_snapshot j = Inr snapshot"
proof -
  from assms obtain headers where "(if td_CallbackHeaders t \<noteq> [] then unmarshal_string_map (td_CallbackHeaders t) else Inr []) = Inr headers"
    and j: "j = marshal_snapshot \<lparr>cs_URL = td_CallbackURL t, cs_Method = td_CallbackMethod t,
      cs_Body = td_CallbackBody t, cs_Headers = headers\<rparr>"
    by (auto simp: buildRequestSnapshot_def split: sum.splits)
  then have "ordered_keys headers" by (auto dest: unmarshal_ordered split: if_splits)
  then have "unmarshal_snapshot j = Inr \<lparr>cs_URL = td_CallbackURL t, cs_Method = td_CallbackMethod t,
      cs_Body = td_CallbackBody t, cs_Headers = headers\<rparr>"
    unfolding j by (intro unmarshal_marshal_snapshot) simp
  then show ?thesis by blast
qed

lemma claimable_mono: "claimable now e \<Longrightarrow> now \<le> now' \<Longrightarrow> claimable now' e"
  by (auto simp: claimable_def split: option.splits)

end
