(* ===== verification/Retries.thy ===== *)
theory Retries
  imports Delivery
begin

text \<open>
  What becomes of an Execution whose callback keeps failing: every attempt that may be repeated leaves
  it waiting with a retry event of its own, the last one ends it as FAILED.
\<close>

section \<open>A failure is recorded\<close>

lemma CompleteFailure_succeeds:
  assumes ses: "faultless ses" and ok: "db_ok d" and z: "z \<in> set (executions d)" "holds_lease (te_ID x) owner token z"
    and retry: "retry = (retryable \<and> te_Attempt x < te_MaxAttempts x)"
    and fits: "\<And>u. execution_fits (touch_execution u (fail_execution retry at code body msg ms retryAt z))"
    and event: "retry \<Longrightarrow> in_int64 (te_ID x) \<and> in_int64 (te_Attempt x) \<and>
      (\<forall>o' \<in> set (outbox d). oe_EventID o' \<noteq> retry_event_id (te_ID x) (te_Attempt x))"
  obtains u d' where "executionRepo_CompleteFailure x owner token at code body msg ms retryAt retryable ses d =
      (Inr (True, retry), d')"
    and "executions d' = executions (set_execution (touch_execution u (fail_execution retry at code body msg ms retryAt z)) d)"
    and "timers d' = timers d"
    and "if retry then \<exists>i v. outbox d' = outbox d @ [create_outbox_row i v (retry_event x retryAt at)]
      else outbox d' = outbox d"
proof -
  let ?P = "holds_lease (te_ID x) owner token" and ?f = "fail_execution retry at code body msg ms retryAt"
  have only: "r = z" if "r \<in> set (executions d)" "?P r" for r
    using execution_by_id [OF ok that(1) z(1)] that(2) z(2) by (simp add: holds_lease_def)
  have "succeeds ses (\<lambda>d1. d1 = d) (update_executions ?P ?f) (\<lambda>_ d1. outbox d1 = outbox d)"
    by (rule ex.succeeds_update [OF ses]) (use only fits in \<open>auto simp: put_executions_def\<close>)
  moreover have "succeeds ses (\<lambda>d1. outbox d1 = outbox d) (insert_outbox (retry_event x retryAt at)) (\<lambda>_ _. True)"
    if retry
    by (rule ob.succeeds_insert [OF ses])
       (use event [OF that] in \<open>auto simp: outbox_fits_def create_outbox_row_def same_event_def retry_event_def
          newExecutionOutboxEvent_def new_event_def varcharI event_id_lengths text_column_def
          OutboxAggregateTimerExecution_def OutboxEventExecutionRetry_def\<close>)
  ultimately have "succeeds ses (\<lambda>d1. d1 = d) (tx_bind (update_executions ?P ?f) (\<lambda>affected.
      if affected \<noteq> 1 then tx_return (False, False) else if \<not> retry then tx_return (True, False)
      else tx_bind (insert_outbox (retry_event x retryAt at)) (\<lambda>_. tx_return (True, True)))) (\<lambda>_ _. True)"
    by (intro succeeds_bind) (auto intro: succeeds_return succeeds_bind)
  then obtain res d' where run: "executionRepo_CompleteFailure x owner token at code body msg ms retryAt retryable ses d =
      (Inr res, d')"
    unfolding executionRepo_CompleteFailure_def Let_def retry [symmetric] op_wrap_Inr
    by (rule transaction_succeeds [OF ses]) auto
  from CompleteFailure_Inr [OF run ok retry] obtain u d1 where
    d1: "d1 = put_executions (update_rows ?P (\<lambda>r. touch_execution u (?f r)) (executions d)) d"
    and res: "fst res = (\<exists>e \<in> set (executions d). ?P e)" "snd res = (fst res \<and> retry)"
    and d': "if snd res then \<exists>v. let o' = create_outbox_row (outbox_seq d1) v (retry_event x retryAt at) in
        (\<forall>y \<in> set (outbox d). oe_EventID y \<noteq> oe_EventID o') \<and> d' = bump_outbox (put_outbox (outbox d1 @ [o']) d1)
      else d' = d1"
    unfolding failed_rel_def by blast
  have "res = (True, retry)" using res z by (cases res) auto
  have "d1 = set_execution (touch_execution u (?f z)) d"
    unfolding d1 by (rule update_rows_one [of d z ?P, OF ok z]) (use z(2) in \<open>auto simp: holds_lease_def execution_row_defs Let_def\<close>)
  with d' \<open>res = (True, retry)\<close> run that [of d' u] show ?thesis
    by (auto simp: Let_def put_outbox_def bump_outbox_def split: if_splits) blast
qed

section \<open>A run whose callback fails\<close>

definition failed_run :: "time \<Rightarrow> bool \<Rightarrow> time \<Rightarrow> TimerExecution \<Rightarrow> TimerExecution \<Rightarrow> bool" where
  "failed_run finishedAt retry retryAt e e' \<longleftrightarrow>
     te_ID e' = te_ID e \<and> te_TimerID e' = te_TimerID e \<and> te_ScheduledAt e' = te_ScheduledAt e \<and>
     te_RequestSnapshot e' = te_RequestSnapshot e \<and> te_MaxAttempts e' = te_MaxAttempts e \<and>
     te_Attempt e' = te_Attempt e + 1 \<and> te_FinishedAt e' = Some finishedAt \<and>
     (if retry then te_Status e' = ExecutionStatusRetryWait \<and> te_NextAttemptAt e' = Some retryAt
      else te_Status e' = ExecutionStatusFailed)"

text \<open>What a message, its run and the answer of the callback must be like for the failure to be recorded as
  one that may be repeated.\<close>

definition failing_run :: "int \<Rightarrow> attempt_env \<times> StreamMessage \<Rightarrow> bool" where
  "failing_run i r \<longleftrightarrow> (case r of (env, m) \<Rightarrow>
     sm_DecodeError m = [] \<and> sm_ExecutionID m = i \<and> (\<exists>bytes. ae_rand env = Inr bytes) \<and>
     sorted_wrt (<) (ae_startedAt env # ae_heartbeats env) \<and>
     (\<forall>snapshot. \<exists>code body err. ae_callback env snapshot i = (code, body, Some err) \<and>
        isRetryableCallbackFailure code \<and> text_column body \<and> text_column (truncateWorkerError err)))"

definition acknowledged :: "('q, 's) StreamWorker \<Rightarrow> StreamMessage \<Rightarrow> 'q \<Rightarrow> 'q" where
  "acknowledged w m q =
     snd (ws_Ack (sw_stream w) (oc_Stream (sw_outboxCfg w)) (oc_ConsumerGroup (sw_outboxCfg w)) (sm_ID m) q)"

definition retry_names :: "int \<Rightarrow> db \<Rightarrow> int set" where
  "retry_names i d = {a. \<exists>o' \<in> set (outbox d). oe_EventID o' = retry_event_id i a}"

lemma process_fails:
  assumes repo: "sw_repo w = world_execution_repo" and s: "quiet_world s" and owner: "varchar 128 (sw_consumerID w)"
    and e: "e \<in> set (executions (w_db s))" "executable (ae_startedAt env) e"
    and snap: "unmarshal_snapshot (te_RequestSnapshot e) = Inr snapshot"
    and run: "failing_run (te_ID e) (env, m)" and ids: "in_int64 (te_ID e)" "in_int64 (te_Attempt e + 1)"
    and event: "te_Attempt e + 1 \<notin> retry_names (te_ID e) (w_db s)"
  obtains rep' s' e' where "process w env m reclaimed (rep, q, s) = (rep', acknowledged w m q, s')"
    and "quiet_world s'" "executions (w_db s') = executions (set_execution e' (w_db s))"
    and "failed_run (ae_finishedAt env) (te_Attempt e + 1 < te_MaxAttempts e)
      (time_add (ae_finishedAt env) (retryBackoff (sw_workerCfg w) (te_Attempt e + 1))) e e'"
    and "timers (w_db s') = timers (w_db s)"
    and "retry_names (te_ID e) (w_db s') = retry_names (te_ID e) (w_db s) \<union>
      (if te_Attempt e + 1 < te_MaxAttempts e then {te_Attempt e + 1} else {})"
proof -
  let ?t0 = "ae_startedAt env" and ?t1 = "ae_finishedAt env" and ?owner = "sw_consumerID w"
    and ?retry = "te_Attempt e + 1 < te_MaxAttempts e"
    and ?retryAt = "time_add (ae_finishedAt env) (retryBackoff (sw_workerCfg w) (te_Attempt e + 1))"
    and ?ms = "Milliseconds (time_sub (ae_finishedAt env) (ae_startedAt env))"
  from run obtain bytes code body err where m: "sm_DecodeError m = []" "sm_ExecutionID m = te_ID e"
    and rand: "ae_rand env = Inr bytes" and ticks: "sorted_wrt (<) (?t0 # ae_heartbeats env)"
    and cb: "ae_callback env snapshot (te_ID e) = (code, body, Some err)" "isRetryableCallbackFailure code"
      "text_column body" "text_column (truncateWorkerError err)"
    unfolding failing_run_def prod.case by metis
  obtain token y z s2 where row: "attempt_rows ?owner token ?t0 e y z" and s2: "quiet_world s2"
    "w_db s2 = set_execution z (w_db s)" "z \<in> set (executions (w_db s2))" "holds_lease (te_ID e) ?owner token z"
    and proc: "process w env m reclaimed (rep, q, s) = finishFailure w m y token ?t0 ?t1 code body err True
      (if reclaimed then ReportWorkerRedelivery rep else rep, q, s2)"
    by (rule process_answered [OF repo s e m owner rand snap cb(1) ticks, of reclaimed rep q])
       (rule that; simp add: Let_def cb(2))
  from row have y: "te_ID y = te_ID e" "te_Attempt y = te_Attempt e + 1" "te_MaxAttempts y = te_MaxAttempts e"
    by (auto simp: attempt_rows_def execution_row_defs)
  let ?op = "executionRepo_CompleteFailure y ?owner token ?t1 code body (truncateWorkerError err) ?ms ?retryAt True"
    and ?f = "fail_execution ?retry ?t1 code body (truncateWorkerError err) ?ms ?retryAt"
  let ?Q = "\<lambda>d'. \<exists>u. executions d' = executions (set_execution (touch_execution u (?f z)) (w_db s2)) \<and>
      timers d' = timers (w_db s2) \<and>
      (if ?retry then \<exists>i v. outbox d' = outbox (w_db s2) @ [create_outbox_row i v (retry_event y ?retryAt ?t1)]
       else outbox d' = outbox (w_db s2))"
  have fits: "execution_fits (touch_execution u (?f z))" for u
    using cb(3,4) by (simp add: execution_fits_def execution_row_defs varcharI Let_def)
  have "\<exists>d'. ?op ses (w_db s2) = (Inr (True, ?retry), d') \<and> ?Q d'" if ses: "faultless ses" for ses
  proof -
    obtain u d' where "?op ses (w_db s2) = (Inr (True, ?retry), d')"
      and "executions d' = executions (set_execution (touch_execution u (?f z)) (w_db s2))"
      and "timers d' = timers (w_db s2)"
      and "if ?retry then \<exists>i v. outbox d' = outbox (w_db s2) @ [create_outbox_row i v (retry_event y ?retryAt ?t1)]
        else outbox d' = outbox (w_db s2)"
      by (rule CompleteFailure_succeeds [OF ses quiet_db_ok [OF s2(1)] s2(3), where x = y and owner = ?owner
            and token = token and retry = ?retry and retryable = True and at = ?t1 and code = code and body = body
            and msg = "truncateWorkerError err" and ms = ?ms and retryAt = ?retryAt])
         (use s2(2,4) y ids event fits in \<open>auto simp: retry_names_def\<close>)
    then show ?thesis by blast
  qed
  then have "\<exists>s3. call ?op s2 = (Inr (True, ?retry), s3) \<and> quiet_world s3 \<and> ?Q (w_db s3)"
    by (intro quiet_call [where P = ?Q, OF s2(1)] CompleteFailure_ok) blast+
  then obtain s3 u where s3: "call ?op s2 = (Inr (True, ?retry), s3)" "quiet_world s3"
    "executions (w_db s3) = executions (set_execution (touch_execution u (?f z)) (w_db s2))"
    "timers (w_db s3) = timers (w_db s2)"
    "if ?retry then \<exists>i v. outbox (w_db s3) = outbox (w_db s2) @ [create_outbox_row i v (retry_event y ?retryAt ?t1)]
      else outbox (w_db s3) = outbox (w_db s2)"
    by blast
  let ?e' = "touch_execution u (?f z)"
  have e': "failed_run ?t1 ?retry ?retryAt e ?e'" "te_ID z = te_ID ?e'"
    using row by (auto simp: failed_run_def attempt_rows_def execution_row_defs Let_def)
  have "0 \<le> te_ID e" using e(1) db_okD(2) [OF quiet_db_ok [OF s]] by (force simp: table_ok_def)
  then have "retry_names (te_ID e) (w_db s3) = retry_names (te_ID e) (w_db s) \<union> (if ?retry then {te_Attempt e + 1} else {})"
    using s3(5) s2(2) y
    by (auto simp: retry_names_def create_outbox_row_def retry_event_def newExecutionOutboxEvent_def new_event_def
        retry_event_id_inject split: if_splits)
  moreover have "process w env m reclaimed (rep, q, s) =
      ((let rep = ReportWorkerExecution ResultFailed (time_sub ?t1 ?t0) (if reclaimed then ReportWorkerRedelivery rep else rep)
        in if ?retry then ReportWorkerRetry rep else rep), acknowledged w m q, s3)"
    using proc s3(1) y
    by (simp add: finishFailure_def repo world_execution_repo_def worker_ack_def acknowledged_def Let_def)
  ultimately show ?thesis using that [of _ s3 ?e'] e' s3(2-4) s2(2) by simp
qed

section \<open>All runs of an Execution\<close>

text \<open>The runs come one after the other, none before the retry that the one before it scheduled.\<close>

fun on_time :: "('q, 's) StreamWorker \<Rightarrow> time \<Rightarrow> int \<Rightarrow> (attempt_env \<times> StreamMessage) list \<Rightarrow> bool" where
  "on_time w t a [] \<longleftrightarrow> True"
| "on_time w t a ((env, m) # runs) \<longleftrightarrow> t \<le> ae_startedAt env \<and>
     on_time w (time_add (ae_finishedAt env) (retryBackoff (sw_workerCfg w) (a + 1))) (a + 1) runs"

definition run_messages ::
  "('q, 's) StreamWorker \<Rightarrow> (attempt_env \<times> StreamMessage) list \<Rightarrow> ('q, 's) worker_state \<Rightarrow> ('q, 's) worker_state" where
  "run_messages w runs st = fold (\<lambda>(env, m). process w env m False) runs st"

definition tried :: "nat \<Rightarrow> TimerExecution \<Rightarrow> TimerExecution \<Rightarrow> bool" where
  "tried n e e' \<longleftrightarrow> te_ID e' = te_ID e \<and> te_MaxAttempts e' = te_MaxAttempts e \<and> te_Attempt e' = te_Attempt e + int n \<and>
     te_Status e' = (if n = 0 then te_Status e else if te_Attempt e' = te_MaxAttempts e then ExecutionStatusFailed
       else ExecutionStatusRetryWait)"

lemma failing_runs:
  assumes repo: "sw_repo w = world_execution_repo" and owner: "varchar 128 (sw_consumerID w)"
  shows "quiet_world s \<Longrightarrow> e \<in> set (executions (w_db s)) \<Longrightarrow> \<forall>now \<ge> t. executable now e \<Longrightarrow>
    unmarshal_snapshot (te_RequestSnapshot e) = Inr snapshot \<Longrightarrow> list_all (failing_run (te_ID e)) runs \<Longrightarrow>
    on_time w t (te_Attempt e) runs \<Longrightarrow> in_int64 (te_ID e) \<Longrightarrow> in_int64 (te_MaxAttempts e) \<Longrightarrow> 0 \<le> te_Attempt e \<Longrightarrow>
    te_Attempt e + int (length runs) \<le> te_MaxAttempts e \<Longrightarrow>
    \<forall>a \<in> retry_names (te_ID e) (w_db s). a \<le> te_Attempt e \<Longrightarrow>
    \<exists>rep' s' e'. run_messages w runs (rep, q, s) = (rep', fold (\<lambda>(_, m). acknowledged w m) runs q, s') \<and>
      quiet_world s' \<and> e' \<in> set (executions (w_db s')) \<and> tried (length runs) e e' \<and> timers (w_db s') = timers (w_db s) \<and>
      (\<forall>x \<in> set (executions (w_db s)). te_ID x \<noteq> te_ID e \<longrightarrow> x \<in> set (executions (w_db s'))) \<and>
      retry_names (te_ID e) (w_db s') = retry_names (te_ID e) (w_db s) \<union>
        {a. te_Attempt e < a \<and> a \<le> te_Attempt e + int (length runs) \<and> a < te_MaxAttempts e}"
proof (induction runs arbitrary: s e t rep q)
  case Nil
  then show ?case by (auto simp: run_messages_def tried_def)
next
  case (Cons r runs)
  obtain env m where r: "r = (env, m)" by force
  let ?a = "te_Attempt e + 1" and ?retryAt = "time_add (ae_finishedAt env) (retryBackoff (sw_workerCfg w) (te_Attempt e + 1))"
  have a: "in_int64 ?a" using Cons.prems(8,9,10) by (simp add: in_int64_def int64_min_def)
  have exec: "executable (ae_startedAt env) e" using Cons.prems(3,6) by (simp add: r)
  have run: "failing_run (te_ID e) (env, m)" using Cons.prems(5) by (simp add: r)
  have event: "?a \<notin> retry_names (te_ID e) (w_db s)" using Cons.prems(11) by force
  obtain rep1 s1 e1 where p: "process w env m False (rep, q, s) = (rep1, acknowledged w m q, s1)"
    and s1: "quiet_world s1" "executions (w_db s1) = executions (set_execution e1 (w_db s))"
    and e1: "failed_run (ae_finishedAt env) (?a < te_MaxAttempts e) ?retryAt e e1" and tm: "timers (w_db s1) = timers (w_db s)"
    and names: "retry_names (te_ID e) (w_db s1) = retry_names (te_ID e) (w_db s) \<union> (if ?a < te_MaxAttempts e then {?a} else {})"
    by (rule process_fails [OF repo Cons.prems(1) owner Cons.prems(2) exec Cons.prems(4) run Cons.prems(7) a event,
          of False rep q])
  have id: "te_ID e1 = te_ID e" and same: "te_RequestSnapshot e1 = te_RequestSnapshot e"
    "te_MaxAttempts e1 = te_MaxAttempts e" "te_Attempt e1 = ?a"
    using e1 by (simp_all add: failed_run_def)
  have row: "e1 \<in> set (executions (w_db s1))" unfolding s1(2) by (rule set_execution_row [OF Cons.prems(2) id])
  have others: "x \<in> set (executions (w_db s1))" if "x \<in> set (executions (w_db s))" "te_ID x \<noteq> te_ID e" for x
    unfolding s1(2) using set_execution_others that id by metis
  show ?case
  proof (cases "runs = []")
    case True
    have "tried 1 e e1" using e1 Cons.prems(10) True by (auto simp: tried_def failed_run_def split: if_splits)
    with True p r s1(1) row tm others names Cons.prems(10) show ?thesis
      by (intro exI [of _ rep1] exI [of _ s1] exI [of _ e1]) (auto simp: run_messages_def)
  next
    case False
    then have more: "?a < te_MaxAttempts e" using Cons.prems(10) by (cases runs) auto
    have exec1: "\<forall>now \<ge> ?retryAt. executable now e1" using e1 more by (simp add: failed_run_def executable_def)
    have "\<exists>rep' s' e'. run_messages w runs (rep1, acknowledged w m q, s1) =
        (rep', fold (\<lambda>(_, m). acknowledged w m) runs (acknowledged w m q), s') \<and>
      quiet_world s' \<and> e' \<in> set (executions (w_db s')) \<and> tried (length runs) e1 e' \<and> timers (w_db s') = timers (w_db s1) \<and>
      (\<forall>x \<in> set (executions (w_db s1)). te_ID x \<noteq> te_ID e1 \<longrightarrow> x \<in> set (executions (w_db s'))) \<and>
      retry_names (te_ID e1) (w_db s') = retry_names (te_ID e1) (w_db s1) \<union>
        {a. te_Attempt e1 < a \<and> a \<le> te_Attempt e1 + int (length runs) \<and> a < te_MaxAttempts e1}"
    proof (rule Cons.IH [OF s1(1) row exec1])
      show "unmarshal_snapshot (te_RequestSnapshot e1) = Inr snapshot" "list_all (failing_run (te_ID e1)) runs"
        "on_time w ?retryAt (te_Attempt e1) runs" "in_int64 (te_ID e1)" "in_int64 (te_MaxAttempts e1)"
        "0 \<le> te_Attempt e1" "te_Attempt e1 + int (length runs) \<le> te_MaxAttempts e1"
        using Cons.prems(4-10) by (simp_all add: same id r)
      show "\<forall>a \<in> retry_names (te_ID e1) (w_db s1). a \<le> te_Attempt e1"
        unfolding id same names using Cons.prems(11) by (auto split: if_splits)
    qed
    then obtain rep' s' e' where "run_messages w runs (rep1, acknowledged w m q, s1) =
        (rep', fold (\<lambda>(_, m). acknowledged w m) runs (acknowledged w m q), s')"
      and "quiet_world s'" "e' \<in> set (executions (w_db s'))" and t: "tried (length runs) e1 e'"
      and "timers (w_db s') = timers (w_db s1)"
      and "\<forall>x \<in> set (executions (w_db s1)). te_ID x \<noteq> te_ID e \<longrightarrow> x \<in> set (executions (w_db s'))"
      and n: "retry_names (te_ID e) (w_db s') = retry_names (te_ID e) (w_db s1) \<union>
        {a. ?a < a \<and> a \<le> ?a + int (length runs) \<and> a < te_MaxAttempts e}" unfolding id same by blast
    moreover have "tried (length (r # runs)) e e'" using t False by (simp add: tried_def id same)
    moreover have "retry_names (te_ID e) (w_db s') = retry_names (te_ID e) (w_db s) \<union>
        {a. te_Attempt e < a \<and> a \<le> te_Attempt e + int (length (r # runs)) \<and> a < te_MaxAttempts e}"
      unfolding n names using more by auto
    ultimately show ?thesis using p r others tm
      by (intro exI [of _ rep'] exI [of _ s'] exI [of _ e']) (simp add: run_messages_def)
  qed
qed

end
