(* ===== verification/Recovery_Progress.thy ===== *)
theory Recovery_Progress
  imports Row_Types Sample_Data
begin

text \<open>
  Recovery comes to an end: a batch of \<^verbatim>\<open>recovery_repo.go\<close> that meets no fault succeeds, and
  the successive scans of the Reconciler use up what there is to recover, at least a batch at a time.
\<close>

section \<open>A batch uses up what it takes\<close>

definition backlog :: "time \<Rightarrow> time \<Rightarrow> db \<Rightarrow> TimerExecution list" where
  "backlog now staleBefore d = filter (recoverable now staleBefore) (executions d)"

lemma recoverable_mono:
  "recoverable now staleBefore e \<Longrightarrow> now \<le> now' \<Longrightarrow> staleBefore \<le> staleBefore' \<Longrightarrow> recoverable now' staleBefore' e"
  by (auto simp: recoverable_def stale_def before_def split: option.splits)

text \<open>An Execution that has been recovered is not recoverable until its new event is stale.\<close>

lemma recovered_row_settled:
  assumes "recoverable now' staleBefore' e" "staleBefore \<le> now"
  shows "\<not> recoverable T staleBefore (touch_execution u (recover_row now e))"
  using assms by (auto simp: recoverable_def stale_def before_def recover_row_def give_up_def
      release_lease_def mark_enqueued_def touch_execution_def)

lemma backlog_after:
  assumes ok: "db_ok d" and run: "recoveryRepo_RecoverBatch now staleBefore limit ses d = (Inr res, d')"
    and S: "S \<le> now"
  shows "backlog T S d' = filter (\<lambda>e. e \<notin> set (recovery_batch ses now staleBefore limit d)) (backlog T S d)"
proof -
  let ?b = "recovery_batch ses now staleBefore limit d"
  have row: "(if e \<in> set ?b then \<not> recoverable T S e' else e' = e)"
    if "e \<in> set (executions d)" "recovered now (te_ID ` set ?b) e e'" for e e'
  proof (cases "e \<in> set ?b")
    case True
    with that(2) obtain u where "e' = touch_execution u (recover_row now e)" by (auto simp: recovered_def)
    with recovery_batch_props(2) [OF ok True] recovered_row_settled S True show ?thesis by auto
  next
    case False
    have "x = e" if "x \<in> set ?b" "te_ID x = te_ID e" for x
      using execution_by_id [OF ok _ \<open>e \<in> set (executions d)\<close> that(2)] recovery_batch_props(2) [OF ok that(1)]
      by blast
    with False have "te_ID e \<notin> te_ID ` set ?b" by force
    with that(2) False show ?thesis by (simp add: recovered_def)
  qed
  have "list_all2 (recovered now (te_ID ` set ?b)) (executions d) (executions d')"
    using RecoverBatch_result [OF ok run] by (simp add: recovery_done_def recovery_state_def)
  then have "list_all2 (\<lambda>e e'. if e \<in> set ?b then \<not> recoverable T S e' else e' = e) (executions d) (executions d')"
    by (rule list.rel_mono_strong) (rule row)
  then show ?thesis
    unfolding backlog_def by (induction rule: list_all2_induct) (auto split: if_splits)
qed

lemma length_filter_outside:
  assumes "distinct xs" "distinct ys" "set ys \<subseteq> set xs"
  shows "length (filter (\<lambda>x. x \<notin> set ys) xs) = length xs - length ys"
proof -
  have "length (filter (\<lambda>x. x \<notin> set ys) xs) = card (set xs - set ys)"
    using distinct_card [of "filter (\<lambda>x. x \<notin> set ys) xs"] assms(1) by (simp add: set_diff_eq)
  with assms show ?thesis by (simp add: card_Diff_subset distinct_card)
qed

lemma backlog_shrinks:
  assumes ok: "db_ok d" and run: "recoveryRepo_RecoverBatch now staleBefore limit ses d = (Inr res, d')"
    and "S \<le> now" "now \<le> T" "staleBefore \<le> S"
  shows "length (backlog T S d') = length (backlog T S d) - length (recovery_batch ses now staleBefore limit d)"
proof -
  let ?b = "recovery_batch ses now staleBefore limit d"
  have "distinct (backlog T S d)" "distinct ?b"
    using db_ok_distinct(2) [OF ok] recovery_batch_props(1) [OF ok, of ses now staleBefore limit]
    by (simp_all add: backlog_def distinct_map)
  moreover have "set ?b \<subseteq> set (backlog T S d)"
    using recovery_batch_props(2) [OF ok] recoverable_mono [OF _ assms(4,5)] by (auto simp: backlog_def)
  ultimately show ?thesis by (simp add: backlog_after [OF ok run assms(3)] length_filter_outside)
qed

text \<open>Without locked rows the limit alone bounds a batch.\<close>

lemma length_recovery_batch:
  assumes "\<And>i. \<not> ses_execution_locked ses i" "0 \<le> limit"
  shows "length (recovery_batch ses now staleBefore limit d) = min (nat limit) (length (backlog now staleBefore d))"
  using assms by (simp add: recovery_batch_def by_scheduled_at_def list_take_def backlog_def)

section \<open>A batch that meets no fault succeeds\<close>

text \<open>What the statements of a batch need: the rows fit, and the events still to be written for the
  Executions in \<open>I\<close> have names of their own.\<close>

definition recovery_room :: "time \<Rightarrow> int set \<Rightarrow> db \<Rightarrow> bool" where
  "recovery_room now I d \<longleftrightarrow>
     (\<forall>e \<in> set (executions d). execution_fits e) \<and>
     (\<forall>o' \<in> set (outbox d). \<forall>i \<in> I. oe_EventID o' \<noteq> recovery_event_id i now)"

lemma recovery_room_update:
  assumes "faultless ses" "\<And>u e. execution_fits e \<Longrightarrow> execution_fits (touch_execution u (f e))"
  shows "succeeds ses (recovery_room now I) (update_executions P f) (\<lambda>_. recovery_room now I)"
  by (rule ex.succeeds_update [OF assms(1)])
     (use assms(2) in \<open>auto simp: recovery_room_def put_executions_def in_update_rows\<close>)

lemma recovery_rows_fit:
  assumes "execution_fits e"
  shows "execution_fits (touch_execution u (give_up now e))"
    and "execution_fits (touch_execution u (release_lease now e))"
    and "execution_fits (touch_execution u (mark_enqueued now e))"
  using assms by (simp_all add: execution_fits_def touch_execution_def give_up_def release_lease_def
      mark_enqueued_def varcharI text_column_def)

lemma recovery_room_insert:
  assumes "faultless ses" "i \<notin> I" "0 \<le> i" "\<forall>j \<in> I. 0 \<le> j" "in_int64 i" "in_int64 now"
  shows "succeeds ses (recovery_room now (insert i I)) (insert_outbox (recovery_event i now))
    (\<lambda>_. recovery_room now I)"
  by (rule ob.succeeds_insert [OF assms(1)])
     (use assms in \<open>auto simp: recovery_room_def outbox_fits_def create_outbox_row_def event_defs same_event_def
        varcharI text_column_def put_outbox_def bump_outbox_def recovery_event_id_inject\<close>)

lemma recover_execution_succeeds:
  assumes "faultless ses" "te_ID x \<notin> I" "0 \<le> te_ID x" "\<forall>j \<in> I. 0 \<le> j" "in_int64 (te_ID x)" "in_int64 now"
  shows "succeeds ses (recovery_room now (insert (te_ID x) I)) (recover_execution now x res)
    (\<lambda>_. recovery_room now I)"
proof -
  have update: "succeeds ses (recovery_room now K) (update_executions P f) (\<lambda>_. recovery_room now K)"
    if "f \<in> {give_up now, release_lease now, mark_enqueued now}" for K P f
    by (rule recovery_room_update [OF assms(1)]) (use that recovery_rows_fit in auto)
  have weaker: "recovery_room now (insert (te_ID x) I) d \<Longrightarrow> recovery_room now I d" for d
    by (simp add: recovery_room_def)
  have enq: "succeeds ses (recovery_room now (insert (te_ID x) I)) (reenqueue now x res) (\<lambda>_. recovery_room now I)"
    for res
    unfolding reenqueue_def
    by (rule succeeds_bind [OF recovery_room_insert [OF assms]], rule succeeds_bind [OF update], simp,
        rule succeeds_return)
  have give: "succeeds ses (recovery_room now (insert (te_ID x) I))
      (tx_bind (update_executions (same_run x) (give_up now)) (\<lambda>affected. tx_return (f affected)))
      (\<lambda>_. recovery_room now I)" for f :: "int \<Rightarrow> RecoveryResult"
    by (rule succeeds_bind [OF update], simp, rule succeeds_return) (rule weaker)
  have release: "succeeds ses (recovery_room now (insert (te_ID x) I))
      (tx_bind (update_executions (same_run x) (release_lease now)) (\<lambda>_. reenqueue now x res))
      (\<lambda>_. recovery_room now I)" for res
    by (rule succeeds_bind [OF update enq]) simp
  show ?thesis
    unfolding recover_execution_def Let_def by (auto intro: enq give release)
qed

lemma RecoverBatch_succeeds:
  assumes "faultless ses" and ok: "db_ok d" and "rows_fit d" "in_int64 now"
    and ids: "\<And>x. x \<in> set (recovery_batch ses now staleBefore limit d) \<Longrightarrow> in_int64 (te_ID x) \<and>
      (\<forall>o' \<in> set (outbox d). oe_EventID o' \<noteq> recovery_event_id (te_ID x) now)"
  obtains res d' where "recoveryRepo_RecoverBatch now staleBefore limit ses d = (Inr res, d')"
proof -
  let ?b = "recovery_batch ses now staleBefore limit d"
  have "recovery_room now (te_ID ` set ?b) d"
    using assms(3) ids by (auto simp: recovery_room_def rows_fit_def)
  have sel: "succeeds ses (\<lambda>x. x = d) (lock_executions by_scheduled_at limit (recoverable now staleBefore))
      (\<lambda>xs x. xs = ?b \<and> x = d)"
    by (rule ex.succeeds_select [OF assms(1)]) (simp add: recovery_batch_def)
  have "succeeds ses (recovery_room now (te_ID ` set ?b)) (tx_each (recover_execution now) ?b no_recovery)
      (\<lambda>_. recovery_room now (te_ID ` set ?b - te_ID ` set ?b))"
  proof -
    let ?R = "\<lambda>(xs :: TimerExecution list) (_ :: RecoveryResult). recovery_room now (te_ID ` set ?b - te_ID ` set xs)"
    have "succeeds ses (?R [] no_recovery) (tx_each (recover_execution now) ?b no_recovery) (?R ?b)"
    proof (rule succeeds_each [where R = ?R])
      fix xs x ys b assume split: "?b = xs @ x # ys"
      then have x: "x \<in> set ?b" by simp
      from split recovery_batch_props(1) [OF ok, of ses now staleBefore limit]
      have "te_ID x \<notin> te_ID ` set xs" by simp
      with x have new: "te_ID ` set ?b - te_ID ` set xs = insert (te_ID x) (te_ID ` set ?b - te_ID ` set (xs @ [x]))"
        by auto
      have pos: "0 \<le> te_ID y" if "y \<in> set ?b" for y
        using recovery_batch_props(2) [OF ok that] db_okD(2) [OF ok] by (force simp: table_ok_def)
      show "succeeds ses (?R xs b) (recover_execution now x b) (?R (xs @ [x]))"
        unfolding new by (rule recover_execution_succeeds [OF assms(1)]) (use x ids pos assms(4) in auto)
    qed
    then show ?thesis by simp
  qed
  then have "succeeds ses (\<lambda>x. xs = ?b \<and> x = d) (tx_each (recover_execution now) xs no_recovery) (\<lambda>_ _. True)" for xs
    using \<open>recovery_room now (te_ID ` set ?b) d\<close> unfolding succeeds_def by blast
  from transaction_succeeds [OF assms(1) succeeds_bind [OF sel this] refl] that show ?thesis
    unfolding recoveryRepo_RecoverBatch_def op_wrap_Inr by blast
qed

section \<open>Successive scans\<close>

text \<open>A scan of the Reconciler: its clock, the age it asks for, and its session.\<close>

record scan =
  sn_now :: time
  sn_stale :: time
  sn_session :: session

primrec run_scans :: "int \<Rightarrow> scan list \<Rightarrow> db \<Rightarrow> db option" where
  "run_scans limit [] d = Some d"
| "run_scans limit (s # ss) d =
     (case recoveryRepo_RecoverBatch (sn_now s) (sn_stale s) limit (sn_session s) d of
        (Inl _, _) \<Rightarrow> None
      | (Inr _, d') \<Rightarrow> run_scans limit ss d')"

text \<open>A scan that meets no fault and no lock, at a time at which what is left is already due.\<close>

definition fair_scan :: "time \<Rightarrow> time \<Rightarrow> TimerExecution list \<Rightarrow> scan \<Rightarrow> bool" where
  "fair_scan T S xs s \<longleftrightarrow>
     faultless (sn_session s) \<and> (\<forall>i. \<not> ses_execution_locked (sn_session s) i) \<and>
     S \<le> sn_now s \<and> sn_now s \<le> T \<and> sn_stale s \<le> S \<and> in_int64 (sn_now s) \<and>
     (\<forall>x \<in> set xs. recoverable (sn_now s) (sn_stale s) x)"

text \<open>No event has the name that a scan would give to an event of its own.\<close>

definition unannounced :: "scan list \<Rightarrow> TimerExecution list \<Rightarrow> db \<Rightarrow> bool" where
  "unannounced ss xs d \<longleftrightarrow>
     (\<forall>x \<in> set xs. \<forall>s \<in> set ss. \<forall>o' \<in> set (outbox d). oe_EventID o' \<noteq> recovery_event_id (te_ID x) (sn_now s))"

lemma RecoverBatch_events:
  assumes ok: "db_ok d" and run: "recoveryRepo_RecoverBatch now staleBefore limit ses d = (Inr res, d')"
    and "o' \<in> set (outbox d')" "o' \<notin> set (outbox d)"
  obtains x where "x \<in> set (recovery_batch ses now staleBefore limit d)" "oe_EventID o' = recovery_event_id (te_ID x) now"
proof -
  let ?b = "recovery_batch ses now staleBefore limit d"
  from RecoverBatch_result [OF ok run] obtain evs where
    evs: "outbox d' = outbox d @ evs" "list_all2 (recovery_for now) (filter (\<lambda>x. \<not> exhausted x) ?b) evs"
    by (auto simp: recovery_done_def recovery_state_def)
  then have "list_all2 (\<lambda>o' x. recovery_for now x o') evs (filter (\<lambda>x. \<not> exhausted x) ?b)"
    by (simp add: list_all2_conv_all_nth)
  moreover from assms(3,4) evs(1) have "o' \<in> set evs" by simp
  ultimately obtain x where "x \<in> set (filter (\<lambda>x. \<not> exhausted x) ?b)" "recovery_for now x o'"
    by (rule list_all2_partner)
  with that show ?thesis by (auto simp: recovery_for_def create_outbox_row_def event_defs)
qed

lemma unannounced_after:
  assumes ok: "db_ok d" and run: "recoveryRepo_RecoverBatch now staleBefore limit ses d = (Inr res, d')"
    and S: "S \<le> now" and names: "unannounced ss (backlog T S d) d"
  shows "unannounced ss (backlog T S d') d'"
  unfolding unannounced_def
proof (intro ballI notI)
  fix x s o' assume x: "x \<in> set (backlog T S d')" and s: "s \<in> set ss" and o': "o' \<in> set (outbox d')"
    and eq: "oe_EventID o' = recovery_event_id (te_ID x) (sn_now s)"
  from x backlog_after [OF ok run S] have x': "x \<in> set (backlog T S d)"
    "x \<notin> set (recovery_batch ses now staleBefore limit d)" by auto
  with names s eq have "o' \<notin> set (outbox d)" unfolding unannounced_def by blast
  with RecoverBatch_events [OF ok run o'] obtain y where
    y: "y \<in> set (recovery_batch ses now staleBefore limit d)" "oe_EventID o' = recovery_event_id (te_ID y) now" .
  have rows: "x \<in> set (executions d)" "y \<in> set (executions d)"
    using x'(1) recovery_batch_props(2) [OF ok y(1)] by (simp_all add: backlog_def)
  then have "0 \<le> te_ID x" "0 \<le> te_ID y" using db_okD(2) [OF ok] by (force simp: table_ok_def)+
  with eq y(2) have "te_ID x = te_ID y" by (simp add: recovery_event_id_inject)
  with execution_by_id [OF ok rows] x'(2) y(1) show False by simp
qed

lemma RecoverBatch_rows_fit:
  "rows_fit d \<Longrightarrow> recoveryRepo_RecoverBatch now staleBefore limit ses d = (r, d') \<Longrightarrow> rows_fit d'"
  using op_keepsD [OF fitting.recovery_operations(1), of d now staleBefore limit ses] by simp

lemma scans_drain:
  assumes "db_ok d" "rows_fit d" "0 < limit"
    and "\<And>s. s \<in> set ss \<Longrightarrow> fair_scan T S (backlog T S d) s"
    and "unannounced ss (backlog T S d) d" "\<And>x. x \<in> set (backlog T S d) \<Longrightarrow> in_int64 (te_ID x)"
  shows "\<exists>d'. run_scans limit ss d = Some d' \<and>
    length (backlog T S d') = length (backlog T S d) - length ss * nat limit"
  using assms
proof (induction ss arbitrary: d)
  case (Cons s ss)
  let ?b = "recovery_batch (sn_session s) (sn_now s) (sn_stale s) limit d"
  from Cons.prems(4) [of s] have fair: "faultless (sn_session s)" "\<And>i. \<not> ses_execution_locked (sn_session s) i"
    "S \<le> sn_now s" "sn_now s \<le> T" "sn_stale s \<le> S" "in_int64 (sn_now s)"
    and due: "\<And>x. x \<in> set (backlog T S d) \<Longrightarrow> recoverable (sn_now s) (sn_stale s) x"
    by (auto simp: fair_scan_def)
  have "backlog (sn_now s) (sn_stale s) d = backlog T S d"
    unfolding backlog_def
    by (rule filter_cong [OF refl]) (use due recoverable_mono [OF _ fair(4,5)] in \<open>auto simp: backlog_def\<close>)
  then have len: "length ?b = min (nat limit) (length (backlog T S d))"
    using length_recovery_batch [OF fair(2)] Cons.prems(3) by simp
  have sub: "x \<in> set (backlog T S d)" if "x \<in> set ?b" for x
    using recovery_batch_props(2) [OF Cons.prems(1) that] recoverable_mono [OF _ fair(4,5)] by (simp add: backlog_def)
  obtain res d' where run: "recoveryRepo_RecoverBatch (sn_now s) (sn_stale s) limit (sn_session s) d = (Inr res, d')"
    by (rule RecoverBatch_succeeds [OF fair(1) Cons.prems(1,2) fair(6)])
       (use sub Cons.prems(5,6) in \<open>auto simp: unannounced_def\<close>)
  note after = backlog_after [OF Cons.prems(1) run fair(3), of T]
  have "\<exists>d''. run_scans limit ss d' = Some d'' \<and>
      length (backlog T S d'') = length (backlog T S d') - length ss * nat limit"
  proof (rule Cons.IH)
    show "db_ok d'" using RecoverBatch_ok [OF Cons.prems(1)] run by (metis snd_conv)
    show "rows_fit d'" by (rule RecoverBatch_rows_fit [OF Cons.prems(2) run])
    show "fair_scan T S (backlog T S d') r" if "r \<in> set ss" for r
      using Cons.prems(4) [of r] that after by (simp add: fair_scan_def)
    show "unannounced ss (backlog T S d') d'"
      by (rule unannounced_after [OF Cons.prems(1) run fair(3)]) (use Cons.prems(5) in \<open>simp add: unannounced_def\<close>)
  qed (use Cons.prems(3,6) after in auto)
  moreover have "m - (min l m + k) = m - (l + k)" for l m k :: nat by (simp add: min_def)
  ultimately show ?case using run backlog_shrinks [OF Cons.prems(1) run fair(3-5)] len by auto
qed simp

text \<open>C16: Recovery terminates.  Scans that meet no fault and no locked row all succeed, each uses up a
  full batch of the backlog or the rest of it, and as many scans as the backlog has batches leave no
  Execution to recover, provided nothing falls due in between.\<close>

theorem recovery_terminates:
  assumes "db_ok d" "rows_fit d" "0 < limit"
    and "\<And>s. s \<in> set ss \<Longrightarrow> fair_scan T S (backlog T S d) s"
    and "unannounced ss (backlog T S d) d" "\<And>x. x \<in> set (backlog T S d) \<Longrightarrow> in_int64 (te_ID x)"
    and "int (length (backlog T S d)) \<le> int (length ss) * limit"
  shows "\<exists>d'. run_scans limit ss d = Some d' \<and> (\<forall>e \<in> set (executions d'). \<not> recoverable T S e)"
proof -
  have "int (length ss * nat limit) = int (length ss) * limit" using assms(3) by simp
  with assms(7) have "length (backlog T S d) \<le> length ss * nat limit" by linarith
  with scans_drain [OF assms(1-6)] show ?thesis by (auto simp: backlog_def filter_empty_conv)
qed

definition two_scans :: "scan list" where
  "two_scans = [\<lparr>sn_now = 300, sn_stale = 100, sn_session = quiet_session 300\<rparr>,
     \<lparr>sn_now = 310, sn_stale = 110, sn_session = quiet_session 310\<rparr>]"

lemma sample_backlog: "backlog 310 110 sample_db = [pending_sample, running_sample]"
  by (simp add: backlog_def sample_defs recoverable_def stale_def before_def)

theorem recovery_terminates_witness:
  "\<exists>d'. run_scans 1 two_scans sample_db = Some d' \<and> (\<forall>e \<in> set (executions d'). \<not> recoverable 310 110 e)"
proof (rule recovery_terminates [OF sample_db_ok])
  show "rows_fit sample_db"
    by (simp add: rows_fit_def sample_defs timer_fits_def execution_fits_def outbox_fits_def varcharI text_column_def
        event_defs in_int64_def int64_min_def int64_max_def)
  show "fair_scan 310 110 (backlog 310 110 sample_db) s" if "s \<in> set two_scans" for s
    using that by (auto simp: two_scans_def fair_scan_def sample_backlog sample_defs recoverable_def stale_def
        before_def in_int64_def int64_min_def int64_max_def)
  show "unannounced two_scans (backlog 310 110 sample_db) sample_db"
    by (auto simp: unannounced_def two_scans_def sample_backlog sample_defs)
qed (auto simp: sample_backlog two_scans_def sample_defs in_int64_def int64_min_def int64_max_def)

end
