(* ===== verification/Delivery_Properties.thy ===== *)
theory Delivery_Properties
  imports Retries Recovery_Progress Boundary_Properties
begin

text \<open>
  That work gets done: what is announced is published, what is published runs, and an occurrence that
  falls due ends as a finished Execution when nothing goes wrong.
\<close>

text \<open>A healthy run succeeds.  When a Worker gets a message of an Execution that can be executed, no
  fault or competitor interferes, the snapshot decodes, the callback answers with success and a body
  that fits its column, and the heartbeats follow one another, then the Execution ends as SUCCESS with
  one attempt more and the response recorded, nothing else changes, and the message is acknowledged.\<close>

lemma healthy_run_succeeds:
  assumes "sw_repo w = world_execution_repo" "quiet_world s"
    and "e \<in> set (executions (w_db s))" "executable (ae_startedAt env) e"
    and "sm_DecodeError m = []" "sm_ExecutionID m = te_ID e"
    and "varchar 128 (sw_consumerID w)" "ae_rand env = Inr bytes"
    and "unmarshal_snapshot (te_RequestSnapshot e) = Inr snapshot"
    and "ae_callback env snapshot (te_ID e) = (code, body, None)" "text_column body"
    and "sorted_wrt (<) (ae_startedAt env # ae_heartbeats env)"
  shows "\<exists>rep' s' e'. process w env m reclaimed (rep, q, s) = (rep', acknowledged w m q, s') \<and>
    e' \<in> set (executions (w_db s')) \<and> succeeded_run (ae_startedAt env) (ae_finishedAt env) code body e e' \<and>
    (\<forall>x \<in> set (executions (w_db s)). te_ID x \<noteq> te_ID e \<longrightarrow> x \<in> set (executions (w_db s'))) \<and>
    timers (w_db s') = timers (w_db s) \<and> outbox (w_db s') = outbox (w_db s)"
proof -
  from process_succeeds [OF assms, of reclaimed rep q] obtain rep' s' e' where
    run: "process w env m reclaimed (rep, q, s) = (rep', acknowledged w m q, s')"
    and db: "w_db s' = set_execution e' (w_db s)"
    and e': "succeeded_run (ae_startedAt env) (ae_finishedAt env) code body e e'"
    unfolding acknowledged_def by blast
  have "te_ID e' = te_ID e" using e' by (simp add: succeeded_run_def)
  with run e' set_execution_row [OF assms(3)] set_execution_others [of _ "w_db s" e'] show ?thesis
    unfolding db [symmetric] by (intro exI [of _ rep'] exI [of _ s'] exI [of _ e']) (simp add: db)
qed

definition beating_attempt :: attempt_env where
  "beating_attempt = sample_attempt\<lparr>ae_heartbeats := [21, 22, 24]\<rparr>"

lemma stage3_waiting:
  "stage_execution \<in> set (executions stage3)" "executable 20 stage_execution" "te_ID stage_execution = 1"
  "unmarshal_snapshot (te_RequestSnapshot stage_execution) = Inr sample_snapshot"
  by (simp_all add: stage_defs pending_execution_def create_execution_row_def executable_def
      unmarshal_marshal_snapshot)

text \<open>A round publishes everything.  A Dispatcher's round that meets no fault, with a stream that
  accepts and a batch size that covers the outbox, leaves every claimable event recorded as published and
  accepted by the stream, and touches no Execution.\<close>

lemma round_publishes_everything:
  assumes "reachable (w_db s)" "quiet_world s" "accepting publish" "logs_publications publish log"
    and "\<And>k. \<not> du_done u k" "owner \<noteq> []" "varchar 128 owner"
    and "0 \<le> seconds (oc_ClaimTTLSeconds cfg)" "int (length (outbox (w_db s))) \<le> oc_BatchSize cfg"
  shows "\<exists>rep' p' s'. dispatchOnce world_outbox_repo publish cfg owner u (rep, p, s) = (rep', p', s') \<and>
    (\<forall>o' \<in> set (outbox (w_db s)). claimable (du_now u) o' \<longrightarrow>
       oe_EventID o' \<in> published_ids (w_db s') \<inter> log p') \<and>
    executions (w_db s') = executions (w_db s)"
  using dispatchOnce_publishes [OF assms(3,4,5,2) reachable_rows_fit [OF assms(1)] assms(6-9), of rep p] by auto

lemma executable_mono: "executable now e \<Longrightarrow> now \<le> now' \<Longrightarrow> executable now' e"
  by (auto simp: executable_def split: option.splits)

text \<open>Every stored snapshot decodes: a batch wrote it, and no operation changes it.\<close>

lemma sys_step_snapshot:
  assumes "db_ok d" "sys_step d d'" "e' \<in> set (executions d')"
  shows "(\<exists>e \<in> set (executions d). te_RequestSnapshot e' = te_RequestSnapshot e) \<or>
    (\<exists>snapshot. unmarshal_snapshot (te_RequestSnapshot e') = Inr snapshot)"
proof (cases "te_ID e' \<in> te_ID ` set (executions d)")
  case True
  then obtain y where y: "y \<in> set (executions d)" "te_ID e' = te_ID y" by blast
  with sys_step_rows [OF assms(2,1)] assms(3) obtain x where x: "x \<in> set (executions d')" "execution_step y x"
    unfolding executions_step_def by metis
  with execution_by_id [OF sys_step_ok [OF assms(2,1)] x(1) assms(3)] y(2) have "execution_step y e'"
    by (simp add: execution_step_def)
  with y(1) show ?thesis by (auto simp: execution_step_def)
next
  case False
  with ids.steps [OF assms(2), of "te_ID ` set (executions d)"] assms(3) obtain now n resolve ses where
    d': "d' = snd (ScheduleDueBatch now n resolve ses d)" by (auto simp: ids_within_def)
  obtain r where run: "ScheduleDueBatch now n resolve ses d = (r, d')" by (metis d' prod.collapse)
  have new: "e' \<notin> set (executions d)" using False by blast
  show ?thesis
  proof (cases r)
    case (Inl err)
    with ScheduleDueBatch_error run assms(3) new show ?thesis by blast
  next
    case (Inr res)
    from batch_announces [OF assms(1) run [unfolded Inr] assms(3) new] snapshot_decodes show ?thesis by blast
  qed
qed

lemma reachable_snapshots_decode:
  "reachable d \<Longrightarrow> e \<in> set (executions d) \<Longrightarrow> \<exists>snapshot. unmarshal_snapshot (te_RequestSnapshot e) = Inr snapshot"
proof (induction arbitrary: e rule: reachable.induct)
  case (reachable_step d d')
  from sys_step_snapshot [OF reachable_ok [OF reachable_step(1)] reachable_step(2,4)] reachable_step(3)
  show ?case by fastforce
qed (simp add: empty_db_def)

text \<open>An event that can be claimed, of an Execution that can be executed, is delivered: the Dispatcher's next
  round publishes it, and the Worker that gets the message runs the Execution to success.\<close>

lemma announced_execution_succeeds:
  assumes "reachable (w_db s)" "quiet_world s" "o' \<in> set (outbox (w_db s))" "claimable (du_now u) o'"
    and "accepting publish" "logs_publications publish log" "\<And>k. \<not> du_done u k" "owner \<noteq> []" "varchar 128 owner"
    and "0 \<le> seconds (oc_ClaimTTLSeconds cfg)" "int (length (outbox (w_db s))) \<le> oc_BatchSize cfg"
    and "e \<in> set (executions (w_db s))" "executable (ae_startedAt env) e"
    and "unmarshal_snapshot (te_RequestSnapshot e) = Inr snapshot"
    and "sw_repo w = world_execution_repo" "varchar 128 (sw_consumerID w)" "ae_rand env = Inr bytes"
    and "sorted_wrt (<) (ae_startedAt env # ae_heartbeats env)" "sm_DecodeError m = []" "sm_ExecutionID m = te_ID e"
    and "ae_callback env snapshot (te_ID e) = (code, body, None)" "text_column body"
  shows "\<exists>rep1 p1 s1. dispatchOnce world_outbox_repo publish cfg owner u (rep, p, s) = (rep1, p1, s1) \<and>
    oe_EventID o' \<in> published_ids (w_db s1) \<inter> log p1 \<and>
    (\<exists>rep2 s2 e'. process w env m reclaimed (rep', q, s1) = (rep2, acknowledged w m q, s2) \<and>
       e' \<in> set (executions (w_db s2)) \<and>
       succeeded_run (ae_startedAt env) (ae_finishedAt env) code body e e')"
proof -
  from dispatchOnce_publishes [OF assms(5,6,7,2) reachable_rows_fit [OF assms(1)] assms(8-11), of rep p]
  obtain rep1 p1 s1 where round: "dispatchOnce world_outbox_repo publish cfg owner u (rep, p, s) = (rep1, p1, s1)"
    and s1: "quiet_world s1" "executions (w_db s1) = executions (w_db s)"
    "\<forall>x \<in> set (outbox (w_db s)). claimable (du_now u) x \<longrightarrow>
       oe_EventID x \<in> published_ids (w_db s1) \<and> oe_EventID x \<in> log p1" by blast
  have e: "e \<in> set (executions (w_db s1))" using assms(12) by (simp add: s1(2))
  from process_succeeds [OF assms(15) s1(1) e assms(13,19,20,16,17,14,21,22,18), of reclaimed rep' q]
  obtain rep2 s2 e' where run: "process w env m reclaimed (rep', q, s1) = (rep2, acknowledged w m q, s2)"
    and db: "w_db s2 = set_execution e' (w_db s1)"
    and e': "succeeded_run (ae_startedAt env) (ae_finishedAt env) code body e e'" unfolding acknowledged_def by blast
  have "e' \<in> set (executions (w_db s2))"
    unfolding db by (rule set_execution_row [OF e]) (use e' in \<open>simp add: succeeded_run_def\<close>)
  with round s1(3) assms(3,4) run e' show ?thesis by auto
qed

text \<open>C6: An occurrence that falls due runs to success.  Take an Execution that a Scheduler batch has
  just created.  The next Dispatcher's round hands its READY event to the stream and records it as
  published, and a Worker that then gets the message ends it as SUCCESS at its first attempt and
  acknowledges the message: provided no fault or competitor interferes, the batch size covers the
  outbox, and the callback answers with success.\<close>

theorem due_occurrence_runs_to_success:
  assumes "reachable d" "ScheduleDueBatch now n resolve ses d = (Inr res, w_db s)"
    and "e \<in> set (executions (w_db s))" "e \<notin> set (executions d)"
    and "quiet_world s" "accepting publish" "logs_publications publish log" "\<And>k. \<not> du_done u k"
    and "owner \<noteq> []" "varchar 128 owner" "now \<le> du_now u"
    and "0 \<le> seconds (oc_ClaimTTLSeconds cfg)" "int (length (outbox (w_db s))) \<le> oc_BatchSize cfg"
    and "sw_repo w = world_execution_repo" "varchar 128 (sw_consumerID w)" "ae_rand env = Inr bytes"
    and "te_ScheduledAt e \<le> ae_startedAt env" "sorted_wrt (<) (ae_startedAt env # ae_heartbeats env)"
    and "sm_DecodeError m = []" "sm_ExecutionID m = te_ID e"
    and "\<And>snapshot. ae_callback env snapshot (te_ID e) = (code, body, None)" "text_column body"
  shows "\<exists>rep1 p1 s1. dispatchOnce world_outbox_repo publish cfg owner u (rep, p, s) = (rep1, p1, s1) \<and>
    ready_event_id (te_ID e) \<in> published_ids (w_db s1) \<inter> log p1 \<and>
    (\<exists>rep2 s2 e'. process w env m reclaimed (rep', q, s1) = (rep2, acknowledged w m q, s2) \<and>
       e' \<in> set (executions (w_db s2)) \<and> te_Attempt e' = 1 \<and>
       succeeded_run (ae_startedAt env) (ae_finishedAt env) code body e e')"
proof -
  have d1: "reachable (w_db s)" using reachable_step [OF assms(1) schedule_batch, of now n resolve ses] assms(2) by simp
  note new = batch_announces [OF reachable_ok [OF assms(1)] assms(2-4)]
  from new obtain o' where o': "o' \<in> set (outbox (w_db s))" "oe_EventID o' = ready_event_id (te_ID e)"
    "claimable now o'" by blast
  from new snapshot_decodes obtain snapshot where snap: "unmarshal_snapshot (te_RequestSnapshot e) = Inr snapshot" by blast
  have "executable (ae_startedAt env) e" using assms(17) new by (simp add: executable_def)
  from announced_execution_succeeds [OF d1 assms(5) o'(1) claimable_mono [OF o'(3) assms(11)] assms(6-10,12,13,3) this
      snap assms(14-16,18-22), of rep p reclaimed rep' q]
  show ?thesis using new unfolding o'(2) by (fastforce simp: succeeded_run_def)
qed

lemma scheduled_quiet: "quiet_world (lone_world t scheduled_stage)"
proof -
  have "reachable scheduled_stage"
    using reachable_step [OF stages_reachable(2) schedule_batch, of 15 10 sample_resolve "quiet_session 15"]
    by (simp add: scheduled_stage_run)
  then show ?thesis by (intro quiet_lone reachable_ok)
qed

theorem due_occurrence_runs_to_success_witness:
  "\<exists>rep1 p1 s1 rep2 s2. dispatchOnce world_outbox_repo logging_publisher sample_outbox_cfg ''a'' sample_round
      (NewReporter, {}, lone_world 20 scheduled_stage) = (rep1, p1, s1) \<and>
    process sample_worker beating_attempt sample_message False (NewReporter, 0, s1) = (rep2, 1, s2) \<and>
    (\<exists>e' \<in> set (executions (w_db s2)). te_ID e' = 1 \<and> te_Status e' = ExecutionStatusSuccess)"
proof -
  let ?s = "lone_world 20 scheduled_stage"
  have db: "w_db ?s = scheduled_stage" by (simp add: lone_world_def)
  have run: "ScheduleDueBatch 15 10 sample_resolve (quiet_session 15) stage2 = (Inr one_scheduled, w_db ?s)"
    by (simp add: db scheduled_stage_run)
  have e: "stage_execution \<in> set (executions (w_db ?s))" "stage_execution \<notin> set (executions stage2)"
    unfolding db by (simp_all add: scheduled_stage_def stage3_def stage2_def stage1_def empty_db_def)
  have "quiet_world ?s" by (rule scheduled_quiet)
  moreover have "logs_publications logging_publisher (\<lambda>p. p)" "accepting logging_publisher"
    by (auto simp: logs_publications_def accepting_def logging_publisher_def varcharI)
  moreover have "0 \<le> seconds (oc_ClaimTTLSeconds sample_outbox_cfg)" "int (length (outbox (w_db ?s))) \<le> oc_BatchSize sample_outbox_cfg"
    unfolding db by (simp_all add: sample_outbox_cfg_def seconds_def nanos_per_second_def wrap64_def scheduled_stage_def stage3_def)
  ultimately show ?thesis
    using due_occurrence_runs_to_success [OF stages_reachable(2) run e, of logging_publisher "\<lambda>p. p" sample_round
        "''a''" sample_outbox_cfg sample_worker beating_attempt "\<lambda>_. 0" sample_message 200 "[]" NewReporter "{}"
        False NewReporter 0] stage3_waiting(3)
    by (auto simp: sample_worker_def beating_attempt_def sample_attempt_def sample_message_def sample_round_def
        acknowledged_def counting_stream_def succeeded_run_def varcharI text_column_def stage_execution_def
        create_execution_row_def pending_execution_def)
qed

section \<open>An Execution that was lost\<close>

text \<open>C8: A stalled Execution is brought back to success.  Take an Execution whose Worker died, so that its
  lease ran out before its last attempt, or whose event was lost, so that nobody has enqueued it for long.  Once a
  recovery batch has taken it, the next Dispatcher's round hands the recovery event to the stream, and a Worker that
  then gets the message ends it as SUCCESS, provided no further fault or competitor interferes, the batch size covers
  the outbox, and the callback answers with success.\<close>

theorem stalled_execution_recovered:
  assumes "reachable d" "recoveryRepo_RecoverBatch now staleBefore limit ses d = (Inr res, w_db s)"
    and "x \<in> set (recovery_batch ses now staleBefore limit d)"
    and "te_Status x = ExecutionStatusRunning \<Longrightarrow> te_Attempt x < te_MaxAttempts x"
    and "quiet_world s" "accepting publish" "logs_publications publish log" "\<And>k. \<not> du_done u k"
    and "owner \<noteq> []" "varchar 128 owner" "now \<le> du_now u"
    and "0 \<le> seconds (oc_ClaimTTLSeconds cfg)" "int (length (outbox (w_db s))) \<le> oc_BatchSize cfg"
    and "sw_repo w = world_execution_repo" "varchar 128 (sw_consumerID w)" "ae_rand env = Inr bytes"
    and "now \<le> ae_startedAt env" "sorted_wrt (<) (ae_startedAt env # ae_heartbeats env)"
    and "sm_DecodeError m = []" "sm_ExecutionID m = te_ID x"
    and "\<And>snapshot. ae_callback env snapshot (te_ID x) = (code, body, None)" "text_column body"
  shows "\<exists>rep1 p1 s1. dispatchOnce world_outbox_repo publish cfg owner u (rep, p, s) = (rep1, p1, s1) \<and>
    recovery_event_id (te_ID x) now \<in> published_ids (w_db s1) \<inter> log p1 \<and>
    (\<exists>rep2 s2 e'. process w env m reclaimed (rep', q, s1) = (rep2, acknowledged w m q, s2) \<and>
       e' \<in> set (executions (w_db s2)) \<and> te_Attempt e' = te_Attempt x + 1 \<and>
       te_RequestSnapshot e' = te_RequestSnapshot x \<and> te_ID e' = te_ID x \<and> te_Status e' = ExecutionStatusSuccess)"
proof -
  have d1: "reachable (w_db s)"
    using reachable_step [OF assms(1) recover, of now staleBefore limit ses] assms(2) by simp
  note ok = reachable_ok [OF assms(1)]
  from recovery_batch_props(2) [OF ok assms(3)] have x: "x \<in> set (executions d)" "recoverable now staleBefore x" by auto
  from recovery_outcome [OF ok assms(2,3)] assms(4) obtain e o' where
    e: "e \<in> set (executions (w_db s))" "executable now e" "te_ID e = te_ID x"
    and o': "o' \<in> set (outbox (w_db s))" "oe_EventID o' = recovery_event_id (te_ID x) now" "claimable now o'"
    by (auto split: if_splits)
  from recovery_row [OF ok assms(2) x(1)] obtain e0 where e0: "e0 \<in> set (executions (w_db s))"
    "recovered now (te_ID ` set (recovery_batch ses now staleBefore limit d)) x e0" .
  from recovered_id [OF e0(2)] e0 have "recovered now (te_ID ` set (recovery_batch ses now staleBefore limit d)) x e"
    using execution_by_id [OF reachable_ok [OF d1] _ e(1)] e(3) by metis
  with assms(3) obtain v where "e = touch_execution v (recover_row now x)" by (auto simp: recovered_def)
  then have row: "te_Attempt e = te_Attempt x" "te_RequestSnapshot e = te_RequestSnapshot x"
    by (simp_all add: touch_execution_def recover_row_def give_up_def release_lease_def mark_enqueued_def)
  from reachable_snapshots_decode [OF assms(1) x(1)] obtain snapshot where
    snap: "unmarshal_snapshot (te_RequestSnapshot e) = Inr snapshot" unfolding row by blast
  have ready: "executable (ae_startedAt env) e" by (rule executable_mono [OF e(2) assms(17)])
  from announced_execution_succeeds [OF d1 assms(5) o'(1) claimable_mono [OF o'(3) assms(11)] assms(6-10,12,13) e(1) ready
      snap assms(14-16,18,19), of code body rep p reclaimed rep' q] assms(20-22)
  show ?thesis unfolding o'(2) e(3) by (fastforce simp: succeeded_run_def row e(3))
qed

text \<open>The Worker that ran the Execution of \<open>stage4\<close> never came back.\<close>

definition lost_stage :: db where
  "lost_stage = stage4\<lparr>executions := [touch_execution 300 (mark_enqueued 300 (touch_execution 300
       (release_lease 300 running_stage)))],
     outbox := outbox stage4 @ [create_outbox_row 2 300 (recovery_event 1 300)], outbox_seq := 3\<rparr>"

lemma lost_stage_run:
  "recoveryRepo_RecoverBatch 300 100 10 (quiet_session 300) stage4 =
     (Inr \<lparr>rr_Reenqueued = 1, rr_ExpiredLeases = 1, rr_FinalFailures = 0\<rparr>, lost_stage)"
  by (simp add: recoveryRepo_RecoverBatch_def recover_execution_def reenqueue_def recovery_event_def
      newExecutionOutboxEvent_def run_defs recoverable_def stale_def before_def by_scheduled_at_def lost_stage_def
      running_stage_def stage_defs start_attempt_def pending_execution_def same_run_def release_lease_def
      mark_enqueued_def event_defs no_recovery_def recovery_event_id_inject)

definition late_attempt :: attempt_env where
  "late_attempt = sample_attempt\<lparr>ae_startedAt := 400, ae_heartbeats := [401, 405], ae_finishedAt := 410\<rparr>"

theorem stalled_execution_recovered_witness:
  "\<exists>rep1 p1 s1 rep2 s2. dispatchOnce world_outbox_repo logging_publisher sample_outbox_cfg ''a'' (sample_round\<lparr>du_now := 310\<rparr>)
      (NewReporter, {}, lone_world 310 lost_stage) = (rep1, p1, s1) \<and>
    process sample_worker late_attempt sample_message False (NewReporter, 0, s1) = (rep2, 1, s2) \<and>
    (\<exists>e' \<in> set (executions (w_db s2)). te_ID e' = 1 \<and> te_Status e' = ExecutionStatusSuccess)"
proof -
  let ?s = "lone_world 310 lost_stage"
  have db: "w_db ?s = lost_stage" by (simp add: lone_world_def)
  have run: "recoveryRepo_RecoverBatch 300 100 10 (quiet_session 300) stage4 =
      (Inr \<lparr>rr_Reenqueued = 1, rr_ExpiredLeases = 1, rr_FinalFailures = 0\<rparr>, w_db ?s)"
    by (simp add: db lost_stage_run)
  have x: "running_stage \<in> set (recovery_batch (quiet_session 300) 300 100 10 stage4)"
    "te_Status running_stage = ExecutionStatusRunning \<Longrightarrow> te_Attempt running_stage < te_MaxAttempts running_stage"
    by (simp_all add: recovery_batch_def by_scheduled_at_def stage4_def running_stage_def recoverable_def before_def
        list_take_def touch_execution_def start_attempt_def stage_execution_def create_execution_row_def
        pending_execution_def)
  have "reachable lost_stage"
    using reachable_step [OF stages_reachable(4) recover, of 300 100 10 "quiet_session 300"] by (simp add: lost_stage_run)
  then have quiet: "quiet_world ?s" by (intro quiet_lone reachable_ok)
  moreover have "logs_publications logging_publisher (\<lambda>p. p)" "accepting logging_publisher"
    by (auto simp: logs_publications_def accepting_def logging_publisher_def varcharI)
  moreover have "0 \<le> seconds (oc_ClaimTTLSeconds sample_outbox_cfg)" "int (length (outbox (w_db ?s))) \<le> oc_BatchSize sample_outbox_cfg"
    unfolding db by (simp_all add: sample_outbox_cfg_def seconds_def nanos_per_second_def wrap64_def lost_stage_def
        stage4_def stage3_def)
  ultimately show ?thesis
    using stalled_execution_recovered [OF stages_reachable(4) run x, of logging_publisher "\<lambda>p. p"
        "sample_round\<lparr>du_now := 310\<rparr>" "''a''" sample_outbox_cfg sample_worker late_attempt "\<lambda>_. 0" sample_message
        200 "[]" NewReporter "{}" False NewReporter 0] running_stage_row(3)
    by (auto simp: sample_worker_def late_attempt_def sample_attempt_def sample_message_def sample_round_def
        acknowledged_def counting_stream_def varcharI text_column_def)
qed

section \<open>A callback that keeps failing\<close>

text \<open>A new Execution has no retry event yet.\<close>

lemma new_execution_unretried:
  assumes "db_ok d" "ScheduleDueBatch now n resolve ses d = (Inr res, d')"
    and "e \<in> set (executions d')" "e \<notin> set (executions d)"
  shows "retry_names (te_ID e) d' = {}"
proof (rule ccontr)
  assume "retry_names (te_ID e) d' \<noteq> {}"
  then obtain a o' where o': "o' \<in> set (outbox d')" "oe_EventID o' = retry_event_id (te_ID e) a"
    by (auto simp: retry_names_def)
  have ok: "db_ok d'" using ScheduleDueBatch_ok [OF assms(1,2)] .
  have pos: "0 \<le> te_ID x" if "x \<in> set (executions d')" for x
    using table_ok_bounds [OF db_okD(2) [OF ok] that] by simp
  from event_execution [OF ok o'(1)] obtain x where x: "x \<in> set (executions d')" "event_of x o'" .
  with o' retry_event_id_inject [OF pos pos] assms(3) have "oe_AggregateID o' = te_ID e"
    by (auto simp: event_of_def)
  moreover from batch_announces [OF assms] obtain o1 where "o1 \<in> set (outbox d')" "oe_AggregateID o1 = te_ID e"
    "oe_EventID o1 = ready_event_id (te_ID e)" by blast
  moreover have "\<exists>!o'. o' \<in> set (outbox d') \<and> oe_AggregateID o' = te_ID e" using batch_announces [OF assms] by blast
  ultimately have "o' = o1" using o'(1) by blast
  with o'(2) \<open>oe_EventID o1 = ready_event_id (te_ID e)\<close> show False by simp
qed

text \<open>C7: A callback that keeps failing is given up.  Take an Execution that a Scheduler batch has just
  created and a Worker that runs it whenever its retry is due, with answers that may be retried and no fault or
  competitor: after one or two runs it waits for the next, which has a retry event of its own; the third
  run ends it as FAILED, and nothing announces it any more.  Every message is acknowledged, each run counts as
  one attempt, and no other row is touched.\<close>

theorem failing_callback_given_up:
  assumes "reachable d" "ScheduleDueBatch now n resolve ses d = (Inr res, w_db s)"
    and "e \<in> set (executions (w_db s))" "e \<notin> set (executions d)" "quiet_world s"
    and "sw_repo w = world_execution_repo" "varchar 128 (sw_consumerID w)" "in_int64 (te_ID e)"
    and "list_all (failing_run (te_ID e)) runs" "on_time w (te_ScheduledAt e) 0 runs" "length runs \<le> 3"
  shows "\<exists>rep' s' e'. run_messages w runs (rep, q, s) = (rep', fold (\<lambda>(_, m). acknowledged w m) runs q, s') \<and>
    e' \<in> set (executions (w_db s')) \<and> te_ID e' = te_ID e \<and> te_Attempt e' = int (length runs) \<and>
    te_Status e' = (if length runs = 0 then ExecutionStatusPending else if length runs = 3 then ExecutionStatusFailed
      else ExecutionStatusRetryWait) \<and>
    retry_names (te_ID e) (w_db s') = {a. 1 \<le> a \<and> a \<le> int (length runs) \<and> a \<le> 2} \<and>
    timers (w_db s') = timers (w_db s) \<and>
    (\<forall>x \<in> set (executions (w_db s)). te_ID x \<noteq> te_ID e \<longrightarrow> x \<in> set (executions (w_db s')))"
proof -
  note ok = reachable_ok [OF assms(1)]
  note new = batch_announces [OF ok assms(2-4)]
  from new snapshot_decodes obtain snapshot where snap: "unmarshal_snapshot (te_RequestSnapshot e) = Inr snapshot" by blast
  have due: "\<forall>now \<ge> te_ScheduledAt e. executable now e" using new by (simp add: executable_def)
  have none: "retry_names (te_ID e) (w_db s) = {}" by (rule new_execution_unretried [OF ok assms(2-4)])
  have pending: "te_Attempt e = 0" "te_MaxAttempts e = 3" "te_Status e = ExecutionStatusPending" using new by auto
  from failing_runs [OF assms(6,7,5,3) due snap assms(9) _ assms(8), of rep q] assms(10,11) none
  obtain rep' s' e' where "run_messages w runs (rep, q, s) = (rep', fold (\<lambda>(_, m). acknowledged w m) runs q, s')"
    and "e' \<in> set (executions (w_db s'))" and t: "tried (length runs) e e'" and "timers (w_db s') = timers (w_db s)"
    and "\<forall>x \<in> set (executions (w_db s)). te_ID x \<noteq> te_ID e \<longrightarrow> x \<in> set (executions (w_db s'))"
    and n: "retry_names (te_ID e) (w_db s') = {a. 0 < a \<and> a \<le> int (length runs) \<and> a < 3}"
    by (auto simp: pending in_int64_def int64_min_def int64_max_def)
  moreover have "te_ID e' = te_ID e" "te_Attempt e' = int (length runs)"
    "te_Status e' = (if length runs = 0 then ExecutionStatusPending else if length runs = 3 then ExecutionStatusFailed
      else ExecutionStatusRetryWait)" using t by (auto simp: tried_def pending)
  moreover have "{a. 0 < a \<and> a \<le> int (length runs) \<and> a < 3} = {a. 1 \<le> a \<and> a \<le> int (length runs) \<and> a \<le> 2}"
    by auto
  ultimately show ?thesis by (intro exI [of _ rep'] exI [of _ s'] exI [of _ e']) simp
qed

definition failing_attempt :: "time \<Rightarrow> attempt_env" where
  "failing_attempt t = \<lparr>ae_rand = Inr (\<lambda>_. 0), ae_startedAt = t, ae_heartbeats = [t + 1], ae_finishedAt = t + 5,
     ae_callback = (\<lambda>_ _. (500, [], Some ''boom''))\<rparr>"

definition failing_sample :: "(attempt_env \<times> StreamMessage) list" where
  "failing_sample = [(failing_attempt 20, sample_message), (failing_attempt (2 * 10 ^ 9), sample_message),
     (failing_attempt (5 * 10 ^ 9), sample_message)]"

theorem failing_callback_given_up_witness:
  "\<exists>rep' s'. run_messages sample_worker failing_sample (NewReporter, 0, lone_world 20 scheduled_stage) = (rep', 3, s') \<and>
     (\<exists>e' \<in> set (executions (w_db s')). te_ID e' = 1 \<and> te_Status e' = ExecutionStatusFailed)"
proof -
  let ?s = "lone_world 20 scheduled_stage"
  have db: "w_db ?s = scheduled_stage" by (simp add: lone_world_def)
  have run: "ScheduleDueBatch 15 10 sample_resolve (quiet_session 15) stage2 = (Inr one_scheduled, w_db ?s)"
    by (simp add: db scheduled_stage_run)
  have e: "stage_execution \<in> set (executions (w_db ?s))" "stage_execution \<notin> set (executions stage2)"
    unfolding db by (simp_all add: scheduled_stage_def stage3_def stage2_def stage1_def empty_db_def)
  have quiet: "quiet_world ?s" by (rule scheduled_quiet)
  have "list_all (failing_run (te_ID stage_execution)) failing_sample"
    by (simp add: failing_sample_def failing_run_def failing_attempt_def sample_message_def stage3_waiting(3)
        isRetryableCallbackFailure_def truncateWorkerError_def truncate_error_def TrimSpace_def is_space_def text_column_def)
  moreover have "on_time sample_worker (te_ScheduledAt stage_execution) 0 failing_sample"
    by (simp add: failing_sample_def failing_attempt_def stage_execution_def create_execution_row_def
        pending_execution_def sample_worker_def sample_worker_cfg_def retryBackoff_def seconds_def nanos_per_second_def
        time_add_def wrap64_def Let_def)
  ultimately show ?thesis
    using failing_callback_given_up [OF stages_reachable(2) run e quiet, of sample_worker failing_sample NewReporter 0]
      stage3_waiting(3)
    by (auto simp: sample_worker_def varcharI failing_sample_def acknowledged_def counting_stream_def in_int64_def
        int64_min_def int64_max_def)
qed

end
