(* ===== verification/Settlement.thy ===== *)
theory Settlement
  imports Delivery_Properties
begin

text \<open>
  What becomes of everything that is unfinished once the faults stop: recovery scans take every Execution that
  nobody works on, and after them the messages, in whatever order and however often they arrive, end each one.
\<close>

section \<open>Recovery scans\<close>

text \<open>What scans up to the time \<open>T\<close> may do to a row: nothing, give it up after its last attempt, or make
  it executable and announce it by an event of the outbox \<open>evs\<close>.\<close>

definition announced :: "time \<Rightarrow> OutboxEvent list \<Rightarrow> TimerExecution \<Rightarrow> bool" where
  "announced T evs e \<longleftrightarrow> executable T e \<and> (\<exists>o' \<in> set evs. oe_AggregateID o' = te_ID e \<and> claimable T o')"

definition scanned :: "time \<Rightarrow> OutboxEvent list \<Rightarrow> TimerExecution \<Rightarrow> TimerExecution \<Rightarrow> bool" where
  "scanned T evs e e' \<longleftrightarrow> te_ID e' = te_ID e \<and>
     (e' = e \<or> \<not> IsTerminal e \<and>
        (if exhausted e then te_Status e' = ExecutionStatusFailed
         else \<not> IsTerminal e' \<and> \<not> exhausted e' \<and> announced T evs e'))"

lemma announced_mono: "announced T evs e \<Longrightarrow> T \<le> T' \<Longrightarrow> set evs \<subseteq> set evs' \<Longrightarrow> announced T' evs' e"
  unfolding announced_def using executable_mono claimable_mono by blast

lemma recoverable_unfinished: "recoverable now staleBefore e \<Longrightarrow> \<not> IsTerminal e"
  by (auto simp: recoverable_def IsTerminal_def)

lemma scanned_trans:
  assumes "scanned T evs a b" "scanned T evs' b c" "set evs \<subseteq> set evs'"
  shows "scanned T evs' a c"
proof (cases "b = a \<or> c = b")
  case True
  with assms show ?thesis by (auto simp: scanned_def dest: announced_mono [OF _ order_refl assms(3)])
next
  case False
  with assms(1,2) show ?thesis by (auto simp: scanned_def IsTerminal_def split: if_splits)
qed

lemma RecoverBatch_scanned:
  assumes ok: "db_ok d" and run: "recoveryRepo_RecoverBatch now staleBefore limit ses d = (Inr res, d')" and "now \<le> T"
  shows "list_all2 (scanned T (outbox d')) (executions d) (executions d')" "set (outbox d) \<subseteq> set (outbox d')"
    "db_ok d'"
proof -
  let ?b = "recovery_batch ses now staleBefore limit d"
  from RecoverBatch_result [OF ok run] have rows: "list_all2 (recovered now (te_ID ` set ?b)) (executions d) (executions d')"
    and ok': "db_ok d'" by (simp_all add: recovery_done_def recovery_state_def)
  from rows show "list_all2 (scanned T (outbox d')) (executions d) (executions d')"
  proof (rule list.rel_mono_strong)
    fix e e' assume e: "e \<in> set (executions d)" "e' \<in> set (executions d')" and r: "recovered now (te_ID ` set ?b) e e'"
    show "scanned T (outbox d') e e'"
    proof (cases "te_ID e \<in> te_ID ` set ?b")
      case False
      with r show ?thesis by (simp add: recovered_def scanned_def)
    next
      case True
      then obtain x where x: "x \<in> set ?b" "te_ID x = te_ID e" by auto
      with execution_by_id [OF ok _ e(1)] recovery_batch_props(2) [OF ok x(1)] have e_b: "e \<in> set ?b" by metis
      then have "\<not> IsTerminal e" using recovery_batch_props(2) [OF ok e_b] recoverable_unfinished by blast
      have "\<exists>x' \<in> set (executions d'). te_ID x' = te_ID e \<and>
          (if exhausted e then te_Status x' = ExecutionStatusFailed
           else te_Status x' = (if te_Status e = ExecutionStatusRunning then ExecutionStatusRetryWait else te_Status e) \<and>
             executable now x' \<and> (\<exists>o' \<in> set (outbox d'). oe_AggregateID o' = te_ID e \<and> claimable now o'))"
        using recovery_outcome [OF ok run e_b] unfolding exhausted_def
        by (elim bexE) (rule bexI [rotated], assumption, auto split: if_splits)
      then obtain x' where x': "x' \<in> set (executions d')" "te_ID x' = te_ID e"
        and out: "if exhausted e then te_Status x' = ExecutionStatusFailed
          else te_Status x' = (if te_Status e = ExecutionStatusRunning then ExecutionStatusRetryWait else te_Status e) \<and>
            executable now x' \<and> (\<exists>o' \<in> set (outbox d'). oe_AggregateID o' = te_ID e \<and> claimable now o')"
        by blast
      have "e' = x'" using execution_by_id [OF ok' e(2) x'(1)] recovered_id [OF r] x'(2) by simp
      with out x'(2) \<open>\<not> IsTerminal e\<close> \<open>now \<le> T\<close> show ?thesis
        unfolding scanned_def announced_def
        by (auto simp: IsTerminal_def exhausted_def intro: executable_mono claimable_mono split: if_splits)
    qed
  qed
  show "set (outbox d) \<subseteq> set (outbox d')"
    using RecoverBatch_result [OF ok run] by (auto simp: recovery_done_def recovery_state_def)
  show "db_ok d'" by (rule ok')
qed

lemma run_scans_scanned:
  assumes "db_ok d" "run_scans limit ss d = Some d'" "\<And>s. s \<in> set ss \<Longrightarrow> sn_now s \<le> T"
  shows "list_all2 (scanned T (outbox d')) (executions d) (executions d') \<and> set (outbox d) \<subseteq> set (outbox d')"
  using assms
proof (induction ss arbitrary: d)
  case Nil
  then show ?case by (auto simp: scanned_def intro: list.rel_refl)
next
  case (Cons s ss)
  then obtain res d1 where run: "recoveryRepo_RecoverBatch (sn_now s) (sn_stale s) limit (sn_session s) d = (Inr res, d1)"
    and rest: "run_scans limit ss d1 = Some d'" by (auto split: prod.splits sum.splits)
  note first = RecoverBatch_scanned [OF Cons.prems(1) run, of T]
  have T: "sn_now s \<le> T" "\<And>s. s \<in> set ss \<Longrightarrow> sn_now s \<le> T" using Cons.prems(3) by auto
  from Cons.IH [OF first(3) [OF T(1)] rest T(2)] have
    later: "list_all2 (scanned T (outbox d')) (executions d1) (executions d')" "set (outbox d1) \<subseteq> set (outbox d')" by auto
  have "list_all2 (scanned T (outbox d')) (executions d) (executions d')"
    by (rule list_all2_trans [OF _ first(1) [OF T(1)] later(1)]) (rule scanned_trans [OF _ _ later(2)])
  with first(2) [OF T(1)] later(2) show ?case by blast
qed


section \<open>Messages\<close>

text \<open>A message that cannot claim its Execution is acknowledged when the Execution is terminal or gone.\<close>

lemma Claim_refused:
  assumes w: "quiet_world w" and none: "\<And>e. e \<in> set (executions (w_db w)) \<Longrightarrow> te_ID e = i \<Longrightarrow> \<not> executable now e"
    and "token \<noteq> []"
  obtains w' where "executionRepo_Claim i owner token now ttl w =
      (Inr (first_row (filter (\<lambda>e. te_ID e = i) (executions (w_db w))), False), w')"
    and "quiet_world w'" "w_db w' = w_db w"
proof -
  let ?row = "first_row (filter (\<lambda>e. te_ID e = i) (executions (w_db w)))"
  let ?P = "\<lambda>e. te_ID e = i \<and> executable now e" and ?f = "start_attempt owner token now (time_add now ttl)"
  have claim: "\<exists>d'. claim_update i owner token now ttl ses (w_db w) = (Inr 0, d') \<and> d' = w_db w" if ses: "faultless ses" for ses
  proof -
    have "succeeds ses (\<lambda>y. y = w_db w) (update_executions ?P ?f) (\<lambda>_ _. True)"
      by (rule ex.succeeds_update [OF ses]) (use none in auto)
    then obtain n d' where t: "transaction (update_executions ?P ?f) ses (w_db w) = (Inr n, d')"
      by (rule transaction_succeeds [OF ses]) auto
    then obtain u where "d' = put_executions (update_rows ?P (\<lambda>r. touch_execution u (?f r)) (executions (w_db w))) (w_db w)"
      "n = changed_rows ?P (\<lambda>r. touch_execution u (?f r)) (executions (w_db w))" by (rule ex.update_effect)
    moreover have "update_rows ?P g (executions (w_db w)) = executions (w_db w)" "changed_rows ?P g (executions (w_db w)) = 0" for g
      using none by (auto simp: update_rows_def changed_rows_def filter_empty_conv intro!: map_idI)
    ultimately have "n = 0" "d' = w_db w" by (simp_all add: put_executions_def)
    with t show ?thesis by (simp add: claim_update_def op_wrap_Inr)
  qed
  have "\<exists>w1. call (claim_update i owner token now ttl) w = (Inr 0, w1) \<and> quiet_world w1 \<and> w_db w1 = w_db w"
    by (rule quiet_call [where P = "\<lambda>d. d = w_db w", OF w claim_update_ok [OF _ assms(3)]]) (use claim in blast)+
  then obtain w1 where w1: "call (claim_update i owner token now ttl) w = (Inr 0, w1)" "quiet_world w1" "w_db w1 = w_db w"
    by blast
  have read: "\<exists>d'. claim_read i ses (w_db w1) = (Inr ?row, d') \<and> d' = w_db w1" if "faultless ses" for ses
    using that by (simp add: w1(3) claim_read_def op_wrap_Inr query_def read_stmt_def statement_def faultless_def)
  have "\<exists>w2. call (claim_read i) w1 = (Inr ?row, w2) \<and> quiet_world w2 \<and> w_db w2 = w_db w1"
    by (rule quiet_call [where P = "\<lambda>d. d = w_db w1", OF w1(2)]) (use read in \<open>auto simp: claim_read_state\<close>)
  then obtain w2 where "call (claim_read i) w1 = (Inr ?row, w2)" "quiet_world w2" "w_db w2 = w_db w1" by blast
  with w1 that [of w2] show ?thesis by (simp add: executionRepo_Claim_def split: option.split)
qed

text \<open>What a message and its run must be like for the callback to answer with success, from the time \<open>T\<close> on.\<close>

definition answering_run :: "time \<Rightarrow> attempt_env \<times> StreamMessage \<Rightarrow> bool" where
  "answering_run T r \<longleftrightarrow> (case r of (env, m) \<Rightarrow>
     T \<le> ae_startedAt env \<and> (\<exists>bytes. ae_rand env = Inr bytes) \<and>
     sorted_wrt (<) (ae_startedAt env # ae_heartbeats env) \<and>
     (\<forall>snapshot i. \<exists>code body. ae_callback env snapshot i = (code, body, None) \<and> text_column body))"

text \<open>A database in which whatever is unfinished can be run from \<open>T\<close> on.\<close>

definition runnable :: "time \<Rightarrow> db \<Rightarrow> bool" where
  "runnable T d \<longleftrightarrow> (\<forall>e \<in> set (executions d). IsTerminal e \<or>
     executable T e \<and> (\<exists>snapshot. unmarshal_snapshot (te_RequestSnapshot e) = Inr snapshot))"

definition delivered :: "int set \<Rightarrow> TimerExecution \<Rightarrow> TimerExecution \<Rightarrow> bool" where
  "delivered I e e' \<longleftrightarrow>
     (if te_ID e \<in> I \<and> \<not> IsTerminal e
      then te_ID e' = te_ID e \<and> te_Status e' = ExecutionStatusSuccess \<and> te_Attempt e' = te_Attempt e + 1
      else e' = e)"

definition decoded_id :: "attempt_env \<times> StreamMessage \<Rightarrow> int set" where
  "decoded_id r = (if sm_DecodeError (snd r) = [] then {sm_ExecutionID (snd r)} else {})"

lemma process_delivers:
  assumes repo: "sw_repo w = world_execution_repo" and owner: "varchar 128 (sw_consumerID w)"
    and s: "quiet_world s" and T: "runnable T (w_db s)" and run: "answering_run T (env, m)"
  shows "\<exists>rep' s'. process w env m reclaimed (rep, q, s) = (rep', acknowledged w m q, s') \<and> quiet_world s' \<and>
    list_all2 (delivered (decoded_id (env, m))) (executions (w_db s)) (executions (w_db s'))"
proof -
  note ok = quiet_db_ok [OF s]
  have pos: "1 \<le> te_ID e" if "e \<in> set (executions (w_db s))" for e
    using that db_okD(2) [OF ok] by (force simp: table_ok_def)
  have same: "list_all2 (delivered I) (executions (w_db s)) (executions (w_db s))"
    if "\<And>e. e \<in> set (executions (w_db s)) \<Longrightarrow> te_ID e \<in> I \<Longrightarrow> IsTerminal e" for I
    using that by (auto simp: delivered_def list_all2_same)
  consider "sm_DecodeError m \<noteq> [] \<or> sm_ExecutionID m < 1"
    | e where "sm_DecodeError m = []" "e \<in> set (executions (w_db s))" "te_ID e = sm_ExecutionID m" "\<not> IsTerminal e"
    | "sm_DecodeError m = []" "1 \<le> sm_ExecutionID m"
      "\<And>e. e \<in> set (executions (w_db s)) \<Longrightarrow> te_ID e = sm_ExecutionID m \<Longrightarrow> IsTerminal e"
    by fastforce
  then show ?thesis
  proof cases
    case 1
    then have "process w env m reclaimed (rep, q, s) = (rep, acknowledged w m q, s)"
      by (auto simp: process_def worker_ack_def acknowledged_def)
    moreover have "list_all2 (delivered (decoded_id (env, m))) (executions (w_db s)) (executions (w_db s))"
      by (rule same) (use 1 pos in \<open>fastforce simp: decoded_id_def split: if_splits\<close>)
    ultimately show ?thesis using s by blast
  next
    case (2 e)
    from T 2(2,4) obtain snapshot where e: "executable T e" "unmarshal_snapshot (te_RequestSnapshot e) = Inr snapshot"
      by (auto simp: runnable_def)
    from run obtain bytes code body where "T \<le> ae_startedAt env" and r: "ae_rand env = Inr bytes"
      "sorted_wrt (<) (ae_startedAt env # ae_heartbeats env)" "ae_callback env snapshot (te_ID e) = (code, body, None)"
      "text_column body" unfolding answering_run_def prod.case by metis
    with e(1) have now: "executable (ae_startedAt env) e" by (blast intro: executable_mono)
    from process_succeeds [OF repo s 2(2) now 2(1) 2(3) [symmetric] owner r(1) e(2) r(3,4,2), of reclaimed rep q]
    obtain rep' s' e' where p: "process w env m reclaimed (rep, q, s) = (rep', acknowledged w m q, s')" "quiet_world s'"
      and db: "w_db s' = set_execution e' (w_db s)"
      and e': "succeeded_run (ae_startedAt env) (ae_finishedAt env) code body e e'"
      unfolding acknowledged_def by blast
    have "delivered (decoded_id (env, m)) x (if te_ID x = te_ID e' then e' else x)" if "x \<in> set (executions (w_db s))" for x
      using execution_by_id [OF ok that 2(2)] e' 2(1,3,4)
      by (auto simp: delivered_def decoded_id_def succeeded_run_def)
    then have "list_all2 (delivered (decoded_id (env, m))) (executions (w_db s)) (executions (w_db s'))"
      by (simp add: db set_execution_def put_executions_def list_all2_map2 list_all2_same)
    with p show ?thesis by blast
  next
    case 3
    from run obtain bytes where "ae_rand env = Inr bytes" by (auto simp: answering_run_def)
    then obtain token where token: "newRunToken (ae_rand env) = Inr token" by (simp add: newRunToken_def)
    let ?row = "first_row (filter (\<lambda>e. te_ID e = sm_ExecutionID m) (executions (w_db s)))"
    have none: "\<not> executable (ae_startedAt env) e" if "e \<in> set (executions (w_db s))" "te_ID e = sm_ExecutionID m" for e
      using 3(3) [OF that] by (auto simp: executable_def IsTerminal_def)
    obtain s' where c: "executionRepo_Claim (sm_ExecutionID m) (sw_consumerID w) token (ae_startedAt env)
        (seconds (wc_LeaseTTLSeconds (sw_workerCfg w))) s = (Inr (?row, False), s')" and s': "quiet_world s'" "w_db s' = w_db s"
      by (rule Claim_refused [OF s none newRunToken_nonempty [OF token]])
    have "IsTerminal e" if "?row = Some e" for e
    proof -
      from that have "e \<in> set (filter (\<lambda>e. te_ID e = sm_ExecutionID m) (executions (w_db s)))"
        by (cases "filter (\<lambda>e. te_ID e = sm_ExecutionID m) (executions (w_db s))") (auto simp: first_row_def)
      with 3(3) show ?thesis by simp
    qed
    then have "process w env m reclaimed (rep, q, s) =
        (if reclaimed then ReportWorkerRedelivery rep else rep, acknowledged w m q, s')"
      using c token 3(1,2)
      by (auto simp: process_def Let_def repo world_execution_repo_def worker_ack_def acknowledged_def split: option.split)
    moreover have "list_all2 (delivered (decoded_id (env, m))) (executions (w_db s)) (executions (w_db s'))"
      unfolding s'(2) by (rule same) (use 3 in \<open>auto simp: decoded_id_def\<close>)
    ultimately show ?thesis using s' by blast
  qed
qed


text \<open>Messages may come in any order, and more than once.\<close>

lemma delivered_trans: "delivered I a b \<Longrightarrow> delivered J b c \<Longrightarrow> delivered (I \<union> J) a c"
  by (auto simp: delivered_def IsTerminal_def split: if_splits)

lemma delivered_runnable: "list_all2 (delivered I) (executions d) (executions d') \<Longrightarrow> runnable T d \<Longrightarrow> runnable T d'"
  unfolding runnable_def
proof (induction rule: list_all2_induct)
  case (Cons e es e' es')
  then show ?case by (auto simp: delivered_def IsTerminal_def split: if_splits)
qed simp

lemma run_messages_deliver:
  assumes "sw_repo w = world_execution_repo" "varchar 128 (sw_consumerID w)"
    and "quiet_world s" "runnable T (w_db s)" "list_all (answering_run T) runs"
  shows "\<exists>rep' s'. run_messages w runs (rep, q, s) = (rep', fold (\<lambda>(_, m). acknowledged w m) runs q, s') \<and>
    list_all2 (delivered (\<Union> (decoded_id ` set runs))) (executions (w_db s)) (executions (w_db s'))"
  using assms(3-)
proof (induction runs arbitrary: s rep q)
  case Nil
  then show ?case by (auto simp: run_messages_def delivered_def list_all2_same)
next
  case (Cons r runs)
  obtain env m where r: "r = (env, m)" by force
  have run: "answering_run T (env, m)" using Cons.prems(3) by (simp add: r)
  from process_delivers [OF assms(1,2) Cons.prems(1,2) run, of False rep q] obtain rep1 s1 where
    p: "process w env m False (rep, q, s) = (rep1, acknowledged w m q, s1)" and s1: "quiet_world s1"
    and d1: "list_all2 (delivered (decoded_id r)) (executions (w_db s)) (executions (w_db s1))" by (auto simp: r)
  have "list_all (answering_run T) runs" using Cons.prems(3) by simp
  from Cons.IH [OF s1 delivered_runnable [OF d1 Cons.prems(2)] this, of rep1 "acknowledged w m q"] obtain rep' s' where
    rest: "run_messages w runs (rep1, acknowledged w m q, s1) =
      (rep', fold (\<lambda>(_, m). acknowledged w m) runs (acknowledged w m q), s')"
    and d2: "list_all2 (delivered (\<Union> (decoded_id ` set runs))) (executions (w_db s1)) (executions (w_db s'))" by blast
  have "list_all2 (delivered (\<Union> (decoded_id ` set (r # runs)))) (executions (w_db s)) (executions (w_db s'))"
    using list_all2_trans [OF delivered_trans d1 d2] by simp
  with p rest show ?case by (auto simp: run_messages_def r)
qed

section \<open>Everything that is unfinished\<close>

definition unfinished :: "db \<Rightarrow> TimerExecution list" where
  "unfinished d = filter (\<lambda>e. \<not> IsTerminal e) (executions d)"

lemma unfinished_recoverable:
  assumes "db_ok d" "e \<in> set (unfinished d)"
  shows "\<exists>t. \<forall>now \<ge> t. \<forall>staleBefore \<ge> t. recoverable now staleBefore e"
proof -
  have row: "execution_row_ok e" "\<not> IsTerminal e" using assms db_okD(5) by (auto simp: unfinished_def)
  have late: "recoverable now staleBefore e"
    if "te_ScheduledAt e \<le> now" "\<And>t. te_NextAttemptAt e = Some t \<Longrightarrow> t \<le> now"
      "\<And>t. te_LeaseUntil e = Some t \<Longrightarrow> t < now" "\<And>t. te_LastEnqueuedAt e = Some t \<Longrightarrow> t < staleBefore"
    for now staleBefore
  proof -
    have "stale staleBefore e" using that(4) by (auto simp: stale_def before_def split: option.splits)
    with row that(1-3) show ?thesis
      by (cases "te_Status e") (auto simp: recoverable_def before_def execution_row_ok_def IsTerminal_def)
  qed
  define stamp where "stamp x = (case x of None \<Rightarrow> 0 | Some t \<Rightarrow> t + 1)" for x :: "time option"
  have stamp: "stamp (Some t) = t + 1" for t by (simp add: stamp_def)
  define l where "l = [te_ScheduledAt e, stamp (te_NextAttemptAt e), stamp (te_LeaseUntil e), stamp (te_LastEnqueuedAt e)]"
  have "recoverable now staleBefore e" if "Max (set l) \<le> now" "Max (set l) \<le> staleBefore" for now staleBefore
  proof -
    have m: "\<forall>x \<in> set l. x \<le> now \<and> x \<le> staleBefore"
      using that order_trans [OF Max_ge [OF finite_set]] by blast
    show ?thesis by (rule late) (use m in \<open>auto simp: l_def stamp\<close>)
  qed
  then show ?thesis by blast
qed

lemma eventually_all:
  fixes P :: "'a \<Rightarrow> time \<Rightarrow> time \<Rightarrow> bool"
  assumes "\<And>x. x \<in> set xs \<Longrightarrow> \<exists>t. \<forall>a \<ge> t. \<forall>b \<ge> t. P x a b"
  shows "\<exists>t. \<forall>a \<ge> t. \<forall>b \<ge> t. \<forall>x \<in> set xs. P x a b"
  using assms
proof (induction xs)
  case (Cons x xs)
  then obtain t t' where "\<forall>a \<ge> t. \<forall>b \<ge> t. P x a b" "\<forall>a \<ge> t'. \<forall>b \<ge> t'. \<forall>x \<in> set xs. P x a b" by (metis list.set_intros)
  then show ?case by (intro exI [of _ "max t t'"]) simp
qed simp

lemma run_scans_reachable: "reachable d \<Longrightarrow> run_scans limit ss d = Some d' \<Longrightarrow> reachable d'"
proof (induction ss arbitrary: d)
  case (Cons s ss)
  have "reachable (snd (recoveryRepo_RecoverBatch (sn_now s) (sn_stale s) limit (sn_session s) d))"
    by (rule reachable_step [OF Cons.prems(1) recover])
  with Cons show ?case by (auto split: prod.splits sum.splits)
qed simp

text \<open>Enough scans leave every unfinished Execution announced, but for those given up.\<close>

definition scans_outcome :: "time \<Rightarrow> OutboxEvent list \<Rightarrow> TimerExecution \<Rightarrow> TimerExecution \<Rightarrow> bool" where
  "scans_outcome T evs x e \<longleftrightarrow> te_ID e = te_ID x \<and>
     (if IsTerminal x then e = x else if exhausted x then te_Status e = ExecutionStatusFailed
      else \<not> IsTerminal e \<and> announced T evs e)"

lemma scans_settle:
  assumes "reachable d" "0 < limit" "\<And>s. s \<in> set ss \<Longrightarrow> fair_scan T S (unfinished d) s"
    and "unannounced ss (unfinished d) d" "\<And>x. x \<in> set (unfinished d) \<Longrightarrow> in_int64 (te_ID x)"
    and "int (length (unfinished d)) \<le> int (length ss) * limit"
  obtains d' where "run_scans limit ss d = Some d'" "reachable d'"
    and "list_all2 (scans_outcome T (outbox d')) (executions d) (executions d')"
proof -
  note ok = reachable_ok [OF assms(1)]
  have due: "recoverable T S x" if "x \<in> set (unfinished d)" for x
  proof (cases ss)
    case Nil
    with assms(6) that show ?thesis by (cases "unfinished d") auto
  next
    case (Cons s ss')
    with assms(3) [of s] that show ?thesis by (auto simp: fair_scan_def intro: recoverable_mono)
  qed
  have b: "backlog T S d = unfinished d"
    unfolding backlog_def unfinished_def
    by (rule filter_cong [OF refl]) (use due recoverable_unfinished in \<open>auto simp: unfinished_def\<close>)
  from scans_drain [OF ok reachable_rows_fit [OF assms(1)] assms(2), of ss T S, unfolded b, OF assms(3-5)] obtain d' where
    run: "run_scans limit ss d = Some d'" and len: "length (backlog T S d') = length (unfinished d) - length ss * nat limit"
    by blast
  have "int (length ss * nat limit) = int (length ss) * limit" using assms(2) by simp
  with assms(6) len have none: "backlog T S d' = []" by simp
  have T: "sn_now s \<le> T" if "s \<in> set ss" for s using assms(3) [OF that] by (simp add: fair_scan_def)
  have "list_all2 (scans_outcome T (outbox d')) (executions d) (executions d')"
  proof (rule list.rel_mono_strong [OF run_scans_scanned [OF ok run T, THEN conjunct1]])
    fix x e assume x: "x \<in> set (executions d)" "e \<in> set (executions d')" "scanned T (outbox d') x e"
    have "e \<noteq> x" if "\<not> IsTerminal x"
      using due [of x] that x(1,2) none by (auto simp: unfinished_def backlog_def filter_empty_conv)
    with x(3) show "scans_outcome T (outbox d') x e" by (auto simp: scanned_def scans_outcome_def)
  qed auto
  with run that run_scans_reachable [OF assms(1) run] show ?thesis by blast
qed



text \<open>How an Execution of the state before has ended: a finished one as it was, a lost last attempt as FAILED, and
  everything else as SUCCESS.\<close>

definition concluded :: "TimerExecution \<Rightarrow> TimerExecution \<Rightarrow> bool" where
  "concluded x e \<longleftrightarrow> te_ID e = te_ID x \<and>
     (if IsTerminal x then e = x
      else te_Status e = (if exhausted x then ExecutionStatusFailed else ExecutionStatusSuccess))"

text \<open>What has been announced is handed over to the stream, and the messages settle it.\<close>

lemma announced_handed_over:
  assumes s: "quiet_world s" "rows_fit (w_db s)" and rows: "list_all2 (scans_outcome T (outbox (w_db s))) xs (executions (w_db s))"
    and "accepting publish" "logs_publications publish log" "\<And>k. \<not> du_done u k" "owner \<noteq> []" "varchar 128 owner"
    and "T \<le> du_now u" "0 \<le> seconds (oc_ClaimTTLSeconds cfg)" "int (length (outbox (w_db s))) \<le> oc_BatchSize cfg"
  obtains rep1 p1 s1 where "dispatchOnce world_outbox_repo publish cfg owner u (rep, p, s) = (rep1, p1, s1)"
    and "quiet_world s1" "executions (w_db s1) = executions (w_db s)"
    and "\<And>x. x \<in> set xs \<Longrightarrow> \<not> IsTerminal x \<Longrightarrow> \<not> exhausted x \<Longrightarrow>
      \<exists>o' \<in> set (outbox (w_db s)). oe_AggregateID o' = te_ID x \<and> oe_EventID o' \<in> published_ids (w_db s1) \<inter> log p1"
proof -
  from dispatchOnce_publishes [OF assms(4-6) s assms(7,8,10,11), of rep p] obtain rep1 p1 s1 where
    s1: "dispatchOnce world_outbox_repo publish cfg owner u (rep, p, s) = (rep1, p1, s1)" "quiet_world s1"
      "executions (w_db s1) = executions (w_db s)"
    and pub: "\<forall>e \<in> set (outbox (w_db s)). claimable (du_now u) e \<longrightarrow> oe_EventID e \<in> published_ids (w_db s1) \<inter> log p1"
    by auto
  have "\<exists>o' \<in> set (outbox (w_db s)). oe_AggregateID o' = te_ID x \<and> oe_EventID o' \<in> published_ids (w_db s1) \<inter> log p1"
    if "x \<in> set xs" "\<not> IsTerminal x" "\<not> exhausted x" for x
  proof -
    from rows that obtain e where "announced T (outbox (w_db s)) e" "te_ID e = te_ID x"
      by (elim list_all2_partner) (auto simp: scans_outcome_def)
    with pub claimable_mono [OF _ assms(9)] show ?thesis unfolding announced_def by metis
  qed
  with s1 that show ?thesis by blast
qed

lemma messages_settle:
  assumes "reachable d" and rows: "list_all2 (scans_outcome T (outbox d)) xs (executions d)"
    and s: "quiet_world s" "executions (w_db s) = executions d"
    and w: "sw_repo w = world_execution_repo" "varchar 128 (sw_consumerID w)" "list_all (answering_run T) runs"
    and ids: "\<And>x. x \<in> set xs \<Longrightarrow> \<not> IsTerminal x \<Longrightarrow> \<not> exhausted x \<Longrightarrow> te_ID x \<in> \<Union> (decoded_id ` set runs)"
  shows "\<exists>rep' s'. run_messages w runs (rep, q, s) = (rep', fold (\<lambda>(_, m). acknowledged w m) runs q, s') \<and>
    list_all2 concluded xs (executions (w_db s'))"
proof -
  let ?I = "\<Union> (decoded_id ` set runs)"
  have "runnable T (w_db s)"
    unfolding runnable_def s(2)
  proof
    fix e assume e: "e \<in> set (executions d)"
    from rows have "list_all2 (\<lambda>e x. scans_outcome T (outbox d) x e) (executions d) xs"
      by (simp add: list_all2_conv_all_nth)
    then obtain x where "scans_outcome T (outbox d) x e" using e by (rule list_all2_partner)
    with reachable_snapshots_decode [OF assms(1) e]
    show "IsTerminal e \<or> executable T e \<and> (\<exists>snapshot. unmarshal_snapshot (te_RequestSnapshot e) = Inr snapshot)"
      by (auto simp: scans_outcome_def announced_def IsTerminal_def split: if_splits)
  qed
  from run_messages_deliver [OF w(1,2) s(1) this w(3), of rep q] obtain rep' s' where
    run: "run_messages w runs (rep, q, s) = (rep', fold (\<lambda>(_, m). acknowledged w m) runs q, s')"
    and del: "list_all2 (delivered ?I) (executions d) (executions (w_db s'))" by (auto simp: s(2))
  have "list_all2 (\<lambda>x e. x \<in> set xs \<and> scans_outcome T (outbox d) x e) xs (executions d)"
    by (rule list.rel_mono_strong [OF rows]) simp
  then have "list_all2 concluded xs (executions (w_db s'))"
  proof (rule list_all2_trans [OF _ _ del, rotated])
    fix x e c assume "x \<in> set xs \<and> scans_outcome T (outbox d) x e" "delivered ?I e c"
    with ids [of x] show "concluded x c"
      by (auto simp: concluded_def scans_outcome_def delivered_def IsTerminal_def split: if_splits)
  qed
  with run show ?thesis by blast
qed

text \<open>C4: No accepted work is lost.  Take any state that the processes can have reached, whatever faults,
  crashes and lost messages led to it.  There is a time from which every unfinished Execution can be recovered; and
  when from then on nothing fails or competes, as many scans of the Reconciler as the unfinished Executions have
  batches, one round of the Dispatcher, and Workers that get the announced messages, in any order and any number of
  times, end every Execution: those whose last attempt was lost as FAILED, all others as SUCCESS, while the
  finished ones stay as they were.\<close>

theorem unfinished_work_settled:
  assumes "reachable d" "0 < limit" "\<And>s. s \<in> set ss \<Longrightarrow> fair_scan T S (unfinished d) s"
    and "unannounced ss (unfinished d) d" "\<And>x. x \<in> set (unfinished d) \<Longrightarrow> in_int64 (te_ID x)"
    and "int (length (unfinished d)) \<le> int (length ss) * limit"
    and "accepting publish" "logs_publications publish log" "\<And>k. \<not> du_done u k" "owner \<noteq> []" "varchar 128 owner"
    and "T \<le> du_now u" "0 \<le> seconds (oc_ClaimTTLSeconds cfg)"
    and "sw_repo w = world_execution_repo" "varchar 128 (sw_consumerID w)" "list_all (answering_run T) runs"
    and "\<And>x. x \<in> set (unfinished d) \<Longrightarrow> \<not> exhausted x \<Longrightarrow> te_ID x \<in> \<Union> (decoded_id ` set runs)"
  shows "(\<exists>t. \<forall>now \<ge> t. \<forall>staleBefore \<ge> t. \<forall>x \<in> set (unfinished d). recoverable now staleBefore x) \<and>
    (\<exists>d'. run_scans limit ss d = Some d' \<and>
      (\<forall>s. quiet_world s \<and> w_db s = d' \<and> int (length (outbox d')) \<le> oc_BatchSize cfg \<longrightarrow>
        (\<exists>rep1 p1 s1 rep2 s2. dispatchOnce world_outbox_repo publish cfg owner u (rep, p, s) = (rep1, p1, s1) \<and>
          (\<forall>x \<in> set (unfinished d). exhausted x \<or> (\<exists>o' \<in> set (outbox d'). oe_AggregateID o' = te_ID x \<and>
             oe_EventID o' \<in> published_ids (w_db s1) \<inter> log p1)) \<and>
          run_messages w runs (rep', q, s1) = (rep2, fold (\<lambda>(_, m). acknowledged w m) runs q, s2) \<and>
          list_all2 concluded (executions d) (executions (w_db s2)))))"
proof (intro conjI)
  show "\<exists>t. \<forall>now \<ge> t. \<forall>staleBefore \<ge> t. \<forall>x \<in> set (unfinished d). recoverable now staleBefore x"
    by (rule eventually_all) (rule unfinished_recoverable [OF reachable_ok [OF assms(1)]])
  obtain d' where d': "run_scans limit ss d = Some d'" "reachable d'"
    "list_all2 (scans_outcome T (outbox d')) (executions d) (executions d')"
    by (rule scans_settle [OF assms(1-6)])
  show "\<exists>d'. run_scans limit ss d = Some d' \<and>
      (\<forall>s. quiet_world s \<and> w_db s = d' \<and> int (length (outbox d')) \<le> oc_BatchSize cfg \<longrightarrow>
        (\<exists>rep1 p1 s1 rep2 s2. dispatchOnce world_outbox_repo publish cfg owner u (rep, p, s) = (rep1, p1, s1) \<and>
          (\<forall>x \<in> set (unfinished d). exhausted x \<or> (\<exists>o' \<in> set (outbox d'). oe_AggregateID o' = te_ID x \<and>
             oe_EventID o' \<in> published_ids (w_db s1) \<inter> log p1)) \<and>
          run_messages w runs (rep', q, s1) = (rep2, fold (\<lambda>(_, m). acknowledged w m) runs q, s2) \<and>
          list_all2 concluded (executions d) (executions (w_db s2))))"
  proof (intro exI [of _ d'] conjI allI impI d'(1), elim conjE)
    fix s assume s: "quiet_world s" "w_db s = d'" and size: "int (length (outbox d')) \<le> oc_BatchSize cfg"
    obtain rep1 p1 s1 where round: "dispatchOnce world_outbox_repo publish cfg owner u (rep, p, s) = (rep1, p1, s1)"
      and s1: "quiet_world s1" "executions (w_db s1) = executions d'"
      and pub: "\<And>x. x \<in> set (executions d) \<Longrightarrow> \<not> IsTerminal x \<Longrightarrow> \<not> exhausted x \<Longrightarrow>
        \<exists>o' \<in> set (outbox d'). oe_AggregateID o' = te_ID x \<and> oe_EventID o' \<in> published_ids (w_db s1) \<inter> log p1"
      by (rule announced_handed_over [OF s(1) reachable_rows_fit, unfolded s(2), OF d'(2,3) assms(7-13) size, of rep p]) blast
    from messages_settle [OF d'(2,3) s1 assms(14-16), of rep' q] assms(17) obtain rep2 s2 where
      "run_messages w runs (rep', q, s1) = (rep2, fold (\<lambda>(_, m). acknowledged w m) runs q, s2)"
      "list_all2 concluded (executions d) (executions (w_db s2))" by (auto simp: unfinished_def)
    with round pub show "\<exists>rep1 p1 s1 rep2 s2. dispatchOnce world_outbox_repo publish cfg owner u (rep, p, s) = (rep1, p1, s1) \<and>
        (\<forall>x \<in> set (unfinished d). exhausted x \<or> (\<exists>o' \<in> set (outbox d'). oe_AggregateID o' = te_ID x \<and>
           oe_EventID o' \<in> published_ids (w_db s1) \<inter> log p1)) \<and>
        run_messages w runs (rep', q, s1) = (rep2, fold (\<lambda>(_, m). acknowledged w m) runs q, s2) \<and>
        list_all2 concluded (executions d) (executions (w_db s2))"
      by (fastforce simp: unfinished_def)
  qed
qed

definition late_scan :: scan where
  "late_scan = \<lparr>sn_now = 300, sn_stale = 100, sn_session = quiet_session 300\<rparr>"

text \<open>The Worker of \<open>stage4\<close> never came back; its message arrives twice, among one that does not decode.\<close>

definition late_messages :: "(attempt_env \<times> StreamMessage) list" where
  "late_messages = [(late_attempt, sample_message\<lparr>sm_DecodeError := ''x''\<rparr>), (late_attempt, sample_message),
     (late_attempt, sample_message)]"

theorem unfinished_work_settled_witness:
  "\<exists>rep1 p1 s1 rep2 s2. dispatchOnce world_outbox_repo logging_publisher sample_outbox_cfg ''a''
      (sample_round\<lparr>du_now := 310\<rparr>) (NewReporter, {}, lone_world 310 lost_stage) = (rep1, p1, s1) \<and>
    run_messages sample_worker late_messages (NewReporter, 0, s1) = (rep2, 3, s2) \<and>
    list_all2 concluded [running_stage] (executions (w_db s2))"
proof -
  have un: "unfinished stage4 = [running_stage]" "executions stage4 = [running_stage]"
    by (simp_all add: unfinished_def stage4_def running_stage_def IsTerminal_def touch_execution_def start_attempt_def)
  have x: "te_ID running_stage = 1" "\<not> exhausted running_stage"
    "\<And>now. 300 \<le> now \<Longrightarrow> recoverable now staleBefore running_stage" for staleBefore
    by (simp_all add: running_stage_def exhausted_def recoverable_def before_def touch_execution_def start_attempt_def
        stage_execution_def create_execution_row_def pending_execution_def)
  have scan: "run_scans 10 [late_scan] stage4 = Some lost_stage" by (simp add: late_scan_def lost_stage_run)
  have "reachable lost_stage" by (rule run_scans_reachable [OF stages_reachable(4) scan])
  then have quiet: "quiet_world (lone_world 310 lost_stage)" by (intro quiet_lone reachable_ok)
  have db: "w_db (lone_world 310 lost_stage) = lost_stage" by (simp add: lone_world_def)
  have fair: "fair_scan 310 110 (unfinished stage4) s" if "s \<in> set [late_scan]" for s
    using that x(3) by (simp add: fair_scan_def late_scan_def un in_int64_def int64_min_def int64_max_def)
  have names: "unannounced [late_scan] (unfinished stage4) stage4"
    by (simp add: unannounced_def un late_scan_def x(1) stage4_def stage3_def create_outbox_row_def event_defs)
  have "logs_publications logging_publisher (\<lambda>p. p)" "accepting logging_publisher"
    by (auto simp: logs_publications_def accepting_def logging_publisher_def varcharI)
  moreover have "list_all (answering_run 310) late_messages"
    by (simp add: late_messages_def answering_run_def late_attempt_def sample_attempt_def text_column_def)
  moreover have "0 \<le> seconds (oc_ClaimTTLSeconds sample_outbox_cfg)" "int (length (outbox lost_stage)) \<le> oc_BatchSize sample_outbox_cfg"
    by (simp_all add: sample_outbox_cfg_def seconds_def nanos_per_second_def wrap64_def lost_stage_def stage4_def stage3_def)
  moreover have "varchar 128 ''a''" "varchar 128 (sw_consumerID sample_worker)" "sw_repo sample_worker = world_execution_repo"
    by (simp_all add: varcharI sample_worker_def)
  moreover have "te_ID running_stage \<in> \<Union> (decoded_id ` set late_messages)"
    by (simp add: x(1) late_messages_def decoded_id_def sample_message_def)
  ultimately have "\<exists>rep1 p1 s1 rep2 s2. dispatchOnce world_outbox_repo logging_publisher sample_outbox_cfg ''a''
      (sample_round\<lparr>du_now := 310\<rparr>) (NewReporter, {}, lone_world 310 lost_stage) = (rep1, p1, s1) \<and>
    run_messages sample_worker late_messages (NewReporter, 0, s1) =
      (rep2, fold (\<lambda>(_, m). acknowledged sample_worker m) late_messages 0, s2) \<and>
    list_all2 concluded [running_stage] (executions (w_db s2))"
    using unfinished_work_settled [OF stages_reachable(4) _ fair names, of 10 logging_publisher "\<lambda>p. p"
        "sample_round\<lparr>du_now := 310\<rparr>" "''a''" sample_outbox_cfg sample_worker late_messages NewReporter "{}" NewReporter 0,
        THEN conjunct2, unfolded scan option.inject] quiet db x(1)
    by (fastforce simp: un in_int64_def int64_min_def int64_max_def sample_round_def)
  moreover have "fold (\<lambda>(_, m). acknowledged sample_worker m) late_messages 0 = 3"
    by (simp add: late_messages_def acknowledged_def counting_stream_def sample_worker_def)
  ultimately show ?thesis by simp
qed

end
