(* ===== verification/Catch_Up.thy ===== *)
theory Catch_Up
  imports Schedule_Properties Delivery
begin

text \<open>
  The Scheduler catches up: the polling loop of \<^verbatim>\<open>service/scheduler.go\<close> leaves no Timer
  overdue, because every round of \<^verbatim>\<open>ScheduleDueBatch\<close> takes the Timers with the earliest
  trigger times and uses up trigger times that were missed.
\<close>

section \<open>Missed trigger times\<close>

text \<open>The number of trigger times from \<open>t\<close> up to \<open>T\<close>, each found from the one before; a schedule
  that ends or does not advance is not followed further.\<close>

function missed :: "(time \<Rightarrow> time result) \<Rightarrow> time \<Rightarrow> time \<Rightarrow> nat" where
  "missed f T t =
     (if t \<le> T then
        (case f t of Inl e \<Rightarrow> 1 | Inr t' \<Rightarrow> if t < t' then Suc (missed f T t') else 1)
      else 0)"
  by pat_completeness auto
termination
  by (relation "measure (\<lambda>(f, T, t). nat (T + 1 - t))") auto

declare missed.simps [simp del]

lemma missed_past [simp]: "T < t \<Longrightarrow> missed f T t = 0"
  by (subst missed.simps) simp

lemma missed_step: "t \<le> T \<Longrightarrow> f t = Inr t' \<Longrightarrow> t < t' \<Longrightarrow> missed f T t = Suc (missed f T t')"
  by (subst missed.simps) simp

lemma missed_pos: "t \<le> T \<Longrightarrow> 0 < missed f T t"
  by (subst missed.simps) (simp split: sum.splits)

text \<open>A schedule that yields a later time for every time from \<open>S\<close> to \<open>T\<close>, and no earlier one for a
  later time.\<close>

definition regular :: "(time \<Rightarrow> time result) \<Rightarrow> time \<Rightarrow> time \<Rightarrow> bool" where
  "regular f S T \<longleftrightarrow> (\<forall>t. S \<le> t \<longrightarrow> t \<le> T \<longrightarrow>
     (\<exists>t'. f t = Inr t' \<and> t < t' \<and> (\<forall>s s'. S \<le> s \<longrightarrow> s \<le> t \<longrightarrow> f s = Inr s' \<longrightarrow> s' \<le> t')))"

lemma regular_next: "regular f S T \<Longrightarrow> S \<le> t \<Longrightarrow> t \<le> T \<Longrightarrow> \<exists>t'. f t = Inr t' \<and> t < t'"
  unfolding regular_def by blast

lemma regular_le:
  "regular f S T \<Longrightarrow> S \<le> s \<Longrightarrow> s \<le> t \<Longrightarrow> t \<le> T \<Longrightarrow> f s = Inr s' \<Longrightarrow> f t = Inr t' \<Longrightarrow> s' \<le> t'"
  unfolding regular_def by (drule spec [of _ t]) auto

lemma regular_sub:
  assumes "regular f S N" "S \<le> S'" "T \<le> N"
  shows "regular f S' T"
  unfolding regular_def
proof (intro allI impI)
  fix t assume t: "S' \<le> t" "t \<le> T"
  with assms(2,3) have "S \<le> t" "t \<le> N" by auto
  with assms(1) obtain t' where "f t = Inr t'" "t < t'"
    and "\<And>s s'. S \<le> s \<Longrightarrow> s \<le> t \<Longrightarrow> f s = Inr s' \<Longrightarrow> s' \<le> t'" unfolding regular_def by blast
  with assms(2) show "\<exists>t'. f t = Inr t' \<and> t < t' \<and> (\<forall>s s'. S' \<le> s \<longrightarrow> s \<le> t \<longrightarrow> f s = Inr s' \<longrightarrow> s' \<le> t')"
    by (meson order_trans)
qed

lemma missed_antitone:
  assumes "regular f S T" "S \<le> a" "a \<le> b"
  shows "missed f T b \<le> missed f T a"
  using assms
proof (induction "nat (T + 1 - a)" arbitrary: a b rule: less_induct)
  case less
  show ?case
  proof (cases "b \<le> T")
    case True
    from regular_next [OF less.prems(1) _ this] less.prems(2,3) obtain b' where b': "f b = Inr b'" "b < b'" by auto
    from regular_next [OF less.prems(1), of a] less.prems(2,3) True obtain a' where a': "f a = Inr a'" "a < a'" by auto
    from regular_le [OF less.prems(1-3) True a'(1) b'(1)] have "a' \<le> b'" .
    then have "missed f T b' \<le> missed f T a'"
      using less.hyps [of a' b'] less.prems a' True by simp
    with missed_step [of a T f a'] missed_step [of b T f b'] a' b'(1,2) True less.prems(3) show ?thesis by simp
  qed simp
qed

lemma missed_fires:
  assumes "fires f t ts next" "\<And>s s'. f s = Inr s' \<Longrightarrow> s < s'" "\<forall>s \<in> set ts. s \<le> T"
  shows "missed f T t = length ts + missed f T next"
  using assms
proof (induction ts arbitrary: t)
  case (Cons s ts)
  then obtain t' where "s = t" "f t = Inr t'" "fires f t' ts next" by (auto simp: fires_Cons)
  with Cons missed_step [of t T f t'] show ?case by auto
qed simp

lemma fires_last: "fires f t ts next \<Longrightarrow> ts \<noteq> [] \<Longrightarrow> \<exists>s. f s = Inr next"
proof (induction ts arbitrary: t)
  case (Cons s ts)
  then show ?case by (cases ts) (auto simp: fires_Cons)
qed simp

section \<open>Resolving a valid Timer\<close>

text \<open>What the Scheduler needs of an ACTIVE Timer: a schedule that goes on from its trigger time to the time
  \<open>N\<close>, a known policy and headers that decode.\<close>

definition resolvable :: "'c cron_lib \<Rightarrow> time \<Rightarrow> TimerDefinition \<Rightarrow> bool" where
  "resolvable lib N t \<longleftrightarrow> td_Status t = TimerStatusActive \<longrightarrow>
     (case td_NextFireAt t of None \<Rightarrow> True | Some at \<Rightarrow> regular (NextTriggerTime lib (td_CronExpr t)) at N) \<and>
     (case td_MisfirePolicy t of MisfirePolicyOther s \<Rightarrow> s = [] | _ \<Rightarrow> True) \<and>
     \<not> isl (buildRequestSnapshot t)"

lemma catch_up_total:
  assumes "\<And>t. S \<le> t \<Longrightarrow> t \<le> now \<Longrightarrow> \<exists>t'. f t = Inr t' \<and> t < t'" "S \<le> cursor"
  shows "\<exists>occs next. catch_up f now limit acc cursor = Inr (occs, next)"
  using assms
proof (induction f now limit acc cursor rule: catch_up.induct)
  case (1 f now limit acc cursor)
  show ?case
  proof (cases "cursor \<le> now \<and> int (length acc) < limit")
    case True
    with "1.prems" obtain c where c: "f cursor = Inr c" "cursor < c" by blast
    with "1.prems"(2) have "S \<le> c" by simp
    from "1.IH" [OF True c(1) "1.prems"(1) this] True c(1) show ?thesis by (subst catch_up.simps) simp
  next
    case False
    then have "catch_up f now limit acc cursor = Inr (acc, cursor)" by (subst catch_up.simps) auto
    then show ?thesis by simp
  qed
qed

lemma resolve_progress:
  assumes lib: "cron_lib_ok lib" and cfg: "scheduler_config_ok cfg" and t: "resolvable lib N t"
    "td_Status t = TimerStatusActive" "td_NextFireAt t = Some at" and time: "at \<le> now" "now \<le> N"
  obtains occs "next" t' where "resolveTimer lib cfg t now = Inr (occs, next)" "\<not> IsZero next"
    and "td_MisfirePolicy t \<noteq> MisfirePolicySkip \<Longrightarrow> at \<in> set occs"
    and "NextTriggerTime lib (td_CronExpr t) at = Inr t'" "t' \<le> next"
    and "length occs + missed (NextTriggerTime lib (td_CronExpr t)) N next
      \<le> missed (NextTriggerTime lib (td_CronExpr t)) N at"
proof -
  let ?f = "NextTriggerTime lib (td_CronExpr t)"
  have reg: "regular ?f at N" using t by (simp add: resolvable_def)
  note later = NextTriggerTime_later [OF lib, of "td_CronExpr t"]
  from regular_next [OF reg order_refl] time obtain t' where t': "?f at = Inr t'" "at < t'" by auto
  have step: "missed ?f N at = Suc (missed ?f N t')" using missed_step t' time by simp
  show ?thesis
  proof (cases "td_MisfirePolicy t = MisfirePolicyCatchUp")
    case True
    have total: "\<exists>x'. ?f x = Inr x' \<and> x < x'" if "at \<le> x" "x \<le> now" for x
      using regular_next [OF reg that(1) order_trans [OF that(2) time(2)]] .
    have limit: "1 \<le> catch_up_limit cfg t" using cfg by (simp add: catch_up_limit_def scheduler_config_ok_def)
    obtain occs "next" where c: "catch_up ?f now (catch_up_limit cfg t) [] at = Inr (occs, next)"
      using catch_up_total [of at now ?f at "catch_up_limit cfg t" "[]", OF total] by blast
    then have r: "resolveTimer lib cfg t now = Inr (occs, next)"
      using True t(3) limit unfolding resolveTimer_def catch_up_limit_def by (simp add: Let_def split del: if_split)
    from resolveTimer_catch_up [OF True t(3) r] have fires: "fires ?f at occs next"
      and upto: "\<forall>x \<in> set occs. x \<le> now" and stop: "now < next \<or> int (length occs) = catch_up_limit cfg t" by auto
    from fires stop limit time(1) obtain xs where occs: "occs = at # xs" "fires ?f t' xs next"
      using t'(1) by (cases occs) (auto simp: fires_Cons)
    from fires_sorted [OF later occs(2)] have "t' \<le> next" by simp
    moreover have "\<not> IsZero next" using fires_last [OF fires] occs(1) NextTriggerTime_not_zero by blast
    moreover have "\<forall>x \<in> set occs. x \<le> N" using upto time(2) by auto
    from missed_fires [OF fires later this] have "length occs + missed ?f N next \<le> missed ?f N at" by simp
    ultimately show ?thesis using that [OF r] occs(1) t'(1) by simp
  next
    case False
    obtain n where n: "?f now = Inr n" using regular_next [OF reg time] by blast
    with regular_le [OF reg order_refl time t'(1)] have "t' \<le> n" by blast
    have "\<exists>occs next. resolveTimer lib cfg t now = Inr (occs, next)"
      using t False t'(1) n
      by (cases "td_MisfirePolicy t") (auto simp: resolveTimer_def Let_def resolvable_def)
    then obtain occs "next" where r: "resolveTimer lib cfg t now = Inr (occs, next)" by blast
    from resolveTimer_other [OF False t(3) r] have occs: "occs = [at] \<or> occs = [] \<and> td_MisfirePolicy t = MisfirePolicySkip"
      and n': "next = n \<or> next = t'" using n t'(1) by (auto split: if_splits)
    with \<open>t' \<le> n\<close> have "t' \<le> next" by auto
    with missed_antitone [OF reg _ this] t'(2) step occs have "length occs + missed ?f N next \<le> missed ?f N at" by auto
    with that [OF r resolveTimer_not_zero [OF r False] _ t'(1) \<open>t' \<le> next\<close>] occs show ?thesis by auto
  qed
qed


section \<open>One round\<close>

definition timer_missed :: "'c cron_lib \<Rightarrow> time \<Rightarrow> TimerDefinition \<Rightarrow> nat" where
  "timer_missed lib T t =
     (if td_Status t = TimerStatusActive then
        (case td_NextFireAt t of None \<Rightarrow> 0 | Some at \<Rightarrow> missed (NextTriggerTime lib (td_CronExpr t)) T at)
      else 0)"

text \<open>The trigger times up to \<open>T\<close> that no round has dealt with yet.\<close>

definition missed_fires :: "'c cron_lib \<Rightarrow> time \<Rightarrow> db \<Rightarrow> nat" where
  "missed_fires lib T d = (\<Sum>t\<leftarrow>timers d. timer_missed lib T t)"

lemma due_missed: "due_timer T t \<longleftrightarrow> 0 < timer_missed lib T t"
proof (cases "td_NextFireAt t")
  case (Some at)
  then show ?thesis
    using missed_pos [of at T] missed_past [of T at]
    by (cases "at \<le> T") (simp_all add: due_timer_def timer_missed_def)
qed (simp add: due_timer_def timer_missed_def)

lemma no_missed_fires: "missed_fires lib T d = 0 \<longleftrightarrow> (\<forall>t \<in> set (timers d). \<not> due_timer T t)"
  by (simp add: missed_fires_def due_missed [of T _ lib])

lemma snapshot_advanced: "buildRequestSnapshot (touch_timer u (advance_timer n t)) = buildRequestSnapshot t"
  by (simp add: touch_timer_def advance_timer_def buildRequestSnapshot_def cong: if_cong sum.case_cong)

lemma resolvable_advanced:
  "resolvable lib N t \<Longrightarrow> td_NextFireAt t = Some at \<Longrightarrow> at \<le> n \<Longrightarrow>
     resolvable lib N (touch_timer u (advance_timer n t))"
  by (simp add: resolvable_def snapshot_advanced) (auto simp: touch_timer_def advance_timer_def intro: regular_sub)

text \<open>A batch of a session that meets no lock has the Timer with the earliest trigger time.\<close>

lemma batch_has_earliest:
  assumes "\<forall>i. \<not> ses_timer_locked ses i" "1 \<le> n" "t \<in> set (timers d)" "due_timer T t" "T \<le> now"
  shows "\<exists>x \<in> set (batch_timers ses now n d). due_timer T x"
proof -
  let ?F = "filter (due_timer now) (timers d)" and ?k = "\<lambda>t. case td_NextFireAt t of None \<Rightarrow> zero_time | Some f \<Rightarrow> f"
  have b: "batch_timers ses now n d = take (nat n) (sort_key ?k ?F)"
    using assms(1,2) by (simp add: batch_timers_def list_take_def by_next_fire_def)
  have "due_timer now t" using assms(4,5) by (cases "td_NextFireAt t") (simp_all add: due_timer_def)
  then have t: "t \<in> set (sort_key ?k ?F)" using assms(3) by simp
  then obtain x xs where xs: "sort_key ?k ?F = x # xs" by (cases "sort_key ?k ?F") auto
  have "sorted (map ?k (sort_key ?k ?F))" by simp
  with t xs have "?k x \<le> ?k t" by auto
  moreover have "x \<in> set (sort_key ?k ?F)" by (simp add: xs)
  then have "due_timer now x" by simp
  ultimately have "due_timer T x"
    using assms(4) by (cases "td_NextFireAt t"; cases "td_NextFireAt x") (simp_all add: due_timer_def)
  moreover have "x \<in> set (batch_timers ses now n d)" using b xs assms(2) by (cases "nat n") auto
  ultimately show ?thesis by blast
qed


lemma timer_missed_advanced:
  "td_Status t = TimerStatusActive \<Longrightarrow>
     timer_missed lib T (touch_timer u (advance_timer n t)) = missed (NextTriggerTime lib (td_CronExpr t)) T n"
  by (simp add: timer_missed_def touch_timer_def advance_timer_def)

text \<open>The state in which a round succeeds.\<close>

definition schedulable :: "'c cron_lib \<Rightarrow> SchedulerConfig \<Rightarrow> time \<Rightarrow> db \<Rightarrow> bool" where
  "schedulable lib cfg N d \<longleftrightarrow>
     cron_lib_ok lib \<and> scheduler_config_ok cfg \<and> db_ok d \<and> (\<forall>t \<in> set (timers d). resolvable lib N t)"

lemma batch_member:
  assumes "schedulable lib cfg N d" "now \<le> N" "t \<in> set (batch_timers ses now n d)"
  obtains at occs "next" t' where "td_Status t = TimerStatusActive" "td_NextFireAt t = Some at" "at \<le> now"
    and "resolveTimer lib cfg t now = Inr (occs, next)" "\<not> IsZero next" "\<not> isl (buildRequestSnapshot t)"
    and "td_MisfirePolicy t \<noteq> MisfirePolicySkip \<Longrightarrow> at \<in> set occs"
    and "NextTriggerTime lib (td_CronExpr t) at = Inr t'" "t' \<le> next"
    and "length occs + missed (NextTriggerTime lib (td_CronExpr t)) N next
      \<le> missed (NextTriggerTime lib (td_CronExpr t)) N at"
proof -
  from assms(1) have ok: "cron_lib_ok lib" "scheduler_config_ok cfg" "db_ok d" by (simp_all add: schedulable_def)
  from batch_timers_props(2) [OF ok(3) assms(3)] have t: "t \<in> set (timers d)" "due_timer now t" by auto
  then obtain at where at: "td_Status t = TimerStatusActive" "td_NextFireAt t = Some at" "at \<le> now"
    by (auto simp: due_timer_def split: option.splits)
  from assms(1) t(1) have r: "resolvable lib N t" by (simp add: schedulable_def)
  with at(1) have "\<not> isl (buildRequestSnapshot t)" by (simp add: resolvable_def)
  with resolve_progress [OF ok(1,2) r at assms(2)] that [OF at] show ?thesis by metis
qed

lemma batch_done:
  "schedulable lib cfg N d \<Longrightarrow> now \<le> N \<Longrightarrow> t \<in> set (batch_timers ses now n d) \<Longrightarrow>
     timer_done (resolveTimer lib cfg) now t"
  by (erule (2) batch_member) (cases "buildRequestSnapshot t"; simp add: timer_done_def)

lemma round_timer:
  assumes d: "schedulable lib cfg N d" and N: "now \<le> N" and b: "b = batch_timers ses now n d"
    and t: "t \<in> set (timers d)" and adv: "advanced (batch_nexts (resolveTimer lib cfg) now b) t t'"
  shows "resolvable lib N t' \<and>
    (if t \<in> set b then length (timer_keys (resolveTimer lib cfg) now t) else 0) + timer_missed lib N t' \<le> timer_missed lib N t \<and>
    (T \<le> now \<longrightarrow> timer_missed lib T t' \<le> timer_missed lib T t \<and>
       (t \<in> set b \<longrightarrow> due_timer T t \<longrightarrow> timer_missed lib T t' < timer_missed lib T t))"
proof -
  let ?f = "NextTriggerTime lib (td_CronExpr t)" and ?r = "resolveTimer lib cfg"
  from d t have ok: "cron_lib_ok lib" "db_ok d" "resolvable lib N t" by (simp_all add: schedulable_def)
  show ?thesis
  proof (cases "t \<in> set b")
    case False
    with advanced_other [OF ok(2) t False [unfolded b] adv [unfolded b]] ok(3) show ?thesis by simp
  next
    case True
    obtain at occs "next" s where m: "td_Status t = TimerStatusActive" "td_NextFireAt t = Some at" "at \<le> now"
      "?r t now = Inr (occs, next)" "?f at = Inr s" "s \<le> next"
      "length occs + missed ?f N next \<le> missed ?f N at"
      by (rule batch_member [OF d N True [unfolded b]])
    from advanced_member [OF ok(2) True [unfolded b] m(4) adv [unfolded b]] obtain u where
      t': "t' = touch_timer u (advance_timer next t)" by blast
    have later: "at < s" using NextTriggerTime_later [OF ok(1) m(5)] .
    have "length (timer_keys ?r now t) = length occs" by (simp add: timer_keys_def resolved_def m(4))
    moreover have "missed ?f T next \<le> missed ?f T at \<and> (due_timer T t \<longrightarrow> missed ?f T next < missed ?f T at)"
      if T: "T \<le> now"
    proof (cases "at \<le> T")
      case False
      with later m(1,2,6) show ?thesis by (simp add: due_timer_def)
    next
      case le: True
      have reg: "regular ?f at T"
        using ok(3) m(1,2) T N regular_sub [of ?f at N at T] by (simp add: resolvable_def)
      from missed_step [of at T ?f s, OF le m(5) later] missed_antitone [OF reg _ m(6)] later
      show ?thesis by simp
    qed
    ultimately show ?thesis
      using True m(1,2,6,7) later resolvable_advanced [OF ok(3) m(2)]
      by (simp add: t' timer_missed_advanced) (simp add: timer_missed_def)
  qed
qed


lemma sum_list_all2:
  fixes f :: "'a \<Rightarrow> nat"
  shows "list_all2 (\<lambda>x y. g x + h y \<le> f x) xs ys \<Longrightarrow> sum_list (map g xs) + sum_list (map h ys) \<le> sum_list (map f xs)"
  by (induction rule: list_all2_induct) auto

lemma sum_list_all2_less:
  fixes f :: "'a \<Rightarrow> nat"
  assumes "list_all2 (\<lambda>x y. h y \<le> f x \<and> (P x \<longrightarrow> h y < f x)) xs ys" "x \<in> set xs" "P x"
  shows "sum_list (map h ys) < sum_list (map f xs)"
proof -
  have "list_all2 (\<lambda>x y. of_bool (P x) + h y \<le> f x) xs ys" by (rule list.rel_mono_strong [OF assms(1)]) auto
  from sum_list_all2 [OF this] have "sum_list (map (\<lambda>x. of_bool (P x)) xs) + sum_list (map h ys) \<le> sum_list (map f xs)" .
  moreover have "1 \<le> sum_list (map (\<lambda>x. of_bool (P x) :: nat) xs)"
    using assms(3) member_le_sum_list [of "of_bool (P x)" "map (\<lambda>x. of_bool (P x) :: nat) xs"] assms(2) by force
  ultimately show ?thesis by linarith
qed

lemma length_batch_keys:
  assumes "db_ok d"
  shows "length (batch_keys resolve now (batch_timers ses now n d)) =
    (\<Sum>t\<leftarrow>timers d. if t \<in> set (batch_timers ses now n d) then length (timer_keys resolve now t) else 0)"
proof -
  let ?b = "batch_timers ses now n d" and ?g = "\<lambda>t. length (timer_keys resolve now t)"
  have "distinct ?b" "distinct (timers d)"
    using batch_timers_props(1) [OF assms] db_ok_distinct(1) [OF assms] by (simp_all add: distinct_map)
  have sub: "set ?b \<subseteq> set (timers d)" using batch_timers_props(2) [OF assms] by blast
  have "length (batch_keys resolve now ?b) = sum_list (map ?g ?b)"
    by (induction ?b) (simp_all add: batch_keys_def length_concat comp_def)
  also have "\<dots> = sum ?g (set ?b)" using \<open>distinct ?b\<close> by (rule sum_list_distinct_conv_sum_set)
  also have "\<dots> = (\<Sum>t\<in>set (timers d). if t \<in> set ?b then ?g t else 0)"
    using sub by (simp add: sum.If_cases Int_absorb1)
  also have "\<dots> = (\<Sum>t\<leftarrow>timers d. if t \<in> set ?b then ?g t else 0)"
    using \<open>distinct (timers d)\<close> by (rule sum_list_distinct_conv_sum_set [symmetric])
  finally show ?thesis .
qed

lemma keys_missed:
  assumes d: "schedulable lib cfg N d" and N: "now \<le> N"
  shows "length (batch_keys (resolveTimer lib cfg) now (batch_timers ses now n d)) \<le> missed_fires lib N d"
proof -
  have "length (timer_keys (resolveTimer lib cfg) now t) \<le> timer_missed lib N t"
    if "t \<in> set (batch_timers ses now n d)" for t
    by (rule batch_member [OF d N that]) (simp add: timer_keys_def resolved_def timer_missed_def)
  then show ?thesis
    unfolding missed_fires_def using d by (subst length_batch_keys) (auto simp: schedulable_def intro!: sum_list_mono)
qed

text \<open>A round deals with trigger times that were missed: those it resolved are no longer missed, and if a
  Timer is overdue, one is.\<close>

lemma round_progress:
  assumes d: "schedulable lib cfg N d" and N: "now \<le> N" and T: "T \<le> now"
    and run: "ScheduleDueBatch now (sc_BatchSize cfg) (resolveTimer lib cfg) ses d = (Inr res, d')"
    and free: "\<forall>i. \<not> ses_timer_locked ses i"
  shows "schedulable lib cfg N d'"
    and "length (batch_keys (resolveTimer lib cfg) now (batch_timers ses now (sc_BatchSize cfg) d)) +
      missed_fires lib N d' \<le> missed_fires lib N d"
    and "missed_fires lib T d' \<le> missed_fires lib T d - 1"
proof -
  let ?r = "resolveTimer lib cfg" and ?b = "batch_timers ses now (sc_BatchSize cfg) d"
  from d have ok: "db_ok d" "scheduler_config_ok cfg" by (simp_all add: schedulable_def)
  have adv: "list_all2 (advanced (batch_nexts ?r now ?b)) (timers d) (timers d')" by (rule batch_result [OF ok(1) run])
  note one = round_timer [OF d N refl]
  have res: "resolvable lib N t'" if t': "t' \<in> set (timers d')" for t'
  proof -
    obtain t where "t \<in> set (timers d)" "advanced (batch_nexts ?r now ?b) t t'"
      using adv t' by (metis in_set_conv_nth list_all2_conv_all_nth)
    then show ?thesis using one by blast
  qed
  from ScheduleDueBatch_ok [OF ok(1) run] res d show "schedulable lib cfg N d'" by (simp add: schedulable_def)
  have "list_all2 (\<lambda>t t'. (if t \<in> set ?b then length (timer_keys ?r now t) else 0) + timer_missed lib N t'
      \<le> timer_missed lib N t) (timers d) (timers d')"
    by (rule list.rel_mono_strong [OF adv]) (use one in blast)
  from sum_list_all2 [OF this] show "length (batch_keys ?r now ?b) + missed_fires lib N d' \<le> missed_fires lib N d"
    by (simp add: length_batch_keys [OF ok(1)] missed_fires_def)
  have "list_all2 (\<lambda>t t'. timer_missed lib T t' \<le> timer_missed lib T t \<and>
      (t \<in> set ?b \<and> due_timer T t \<longrightarrow> timer_missed lib T t' < timer_missed lib T t)) (timers d) (timers d')" (is "?less")
    by (rule list.rel_mono_strong [OF adv]) (use one T in blast)
  from sum_list_all2 [of "\<lambda>_. 0", simplified, OF list.rel_mono_strong [OF this]]
  have le: "missed_fires lib T d' \<le> missed_fires lib T d" by (simp add: missed_fires_def)
  show "missed_fires lib T d' \<le> missed_fires lib T d - 1"
  proof (cases "missed_fires lib T d = 0")
    case False
    then obtain t where "t \<in> set (timers d)" "due_timer T t" by (auto simp: no_missed_fires)
    with batch_has_earliest [OF free _ _ _ T] ok(2) obtain x where x: "x \<in> set ?b" "due_timer T x"
      unfolding scheduler_config_ok_def by blast
    then have "x \<in> set (timers d)" using batch_timers_props(2) [OF ok(1)] by blast
    from sum_list_all2_less [OF \<open>?less\<close> this] x show ?thesis by (simp add: missed_fires_def)
  qed (use le in simp)
qed


text \<open>A trigger time of a Timer is accounted for: it is still to be resolved, or has its Execution.\<close>

definition accounted :: "int \<Rightarrow> time \<Rightarrow> db \<Rightarrow> bool" where
  "accounted i at d \<longleftrightarrow>
     (\<exists>t \<in> set (timers d). td_ID t = i \<and> td_Status t = TimerStatusActive \<and> td_NextFireAt t = Some at \<and>
        td_MisfirePolicy t \<noteq> MisfirePolicySkip) \<or>
     (\<exists>e \<in> set (executions d). schedule_key e = (i, at))"

lemma round_accounted:
  assumes d: "schedulable lib cfg N d" and N: "now \<le> N"
    and run: "ScheduleDueBatch now n (resolveTimer lib cfg) ses d = (Inr res, d')" and "accounted i at d"
  shows "accounted i at d'"
proof -
  let ?b = "batch_timers ses now n d" and ?r = "resolveTimer lib cfg"
  have ok: "db_ok d" using d by (simp add: schedulable_def)
  have "accounted i at d'" if e: "e \<in> set (executions d)" "schedule_key e = (i, at)" for e
  proof -
    obtain news evs where "batch_news d now (batch_keys ?r now ?b) res d' news evs" by (rule batch_result [OF ok run])
    with e show ?thesis unfolding accounted_def batch_news_def by auto
  qed
  moreover have "accounted i at d'"
    if t: "t \<in> set (timers d)" "td_ID t = i" "td_Status t = TimerStatusActive" "td_NextFireAt t = Some at"
      "td_MisfirePolicy t \<noteq> MisfirePolicySkip" for t
  proof (cases "t \<in> set ?b")
    case True
    then obtain occs "next" where r: "?r t now = Inr (occs, next)" "at \<in> set occs"
      using t(4,5) by (rule_tac batch_member [OF d N True]) auto
    from batch_occurrences [OF ok run True r] t(2) show ?thesis by (auto simp: accounted_def)
  next
    case False
    have "list_all2 (advanced (batch_nexts ?r now ?b)) (timers d) (timers d')" by (rule batch_result [OF ok run])
    from this t(1) obtain t' where "t' \<in> set (timers d')" "advanced (batch_nexts ?r now ?b) t t'"
      by (rule list_all2_partner)
    with advanced_other [OF ok t(1) False] t show ?thesis unfolding accounted_def by blast
  qed
  ultimately show ?thesis using assms(4) unfolding accounted_def by blast
qed

section \<open>The polling loop\<close>

text \<open>A process that meets no fault and no lock, with valid Timers and room for the Executions to come.\<close>

definition calm_world :: "world \<Rightarrow> bool" where
  "calm_world w \<longleftrightarrow> quiet_world w \<and> (\<forall>n i. \<not> ses_timer_locked (w_sessions w n) i)"

definition room_for :: "'c cron_lib \<Rightarrow> time \<Rightarrow> db \<Rightarrow> bool" where
  "room_for lib N d \<longleftrightarrow> rows_fit d \<and> execution_seq d + int (missed_fires lib N d) \<le> int64_max"

lemma batch_in_room:
  assumes d: "schedulable lib cfg N d" "room_for lib N d" and "now \<le> N" "T \<le> now"
    and ses: "faultless ses" "\<forall>i. \<not> ses_timer_locked ses i"
  obtains res d' where "ScheduleDueBatch now (sc_BatchSize cfg) (resolveTimer lib cfg) ses d = (Inr res, d')"
    and "schedulable lib cfg N d'" "room_for lib N d'" "missed_fires lib T d' \<le> missed_fires lib T d - 1"
proof -
  let ?r = "resolveTimer lib cfg" and ?n = "sc_BatchSize cfg"
  let ?keys = "batch_keys ?r now (batch_timers ses now ?n d)"
  from d have ok: "db_ok d" "rows_fit d" by (simp_all add: schedulable_def room_for_def)
  have ts: "timer_done ?r now t \<and> timer_fits t" if "t \<in> set (batch_timers ses now ?n d)" for t
    using that batch_done [OF d(1) assms(3)] batch_timers_props(2) [OF ok(1)] ok(2) by (auto simp: rows_fit_def)
  have keys: "length ?keys + missed_fires lib N d' \<le> missed_fires lib N d"
    if "ScheduleDueBatch now ?n ?r ses d = (Inr res, d')" for res d'
    by (rule round_progress [OF d(1) assms(3,4) that ses(2)])
  from keys_missed [OF d(1) assms(3)] have "execution_seq d + int (length ?keys) \<le> int64_max"
    using d(2) by (simp add: room_for_def) (meson of_nat_mono add_left_mono order_trans)
  from ScheduleDueBatch_succeeds [OF ses(1) ok(1) ts this] obtain res d' where
    run: "ScheduleDueBatch now ?n ?r ses d = (Inr res, d')" and seq: "execution_seq d' \<le> execution_seq d + int (length ?keys)"
    by blast
  have "rows_fit d'" using op_keepsD [OF fitting_batch.batch, of d now ?n ?r ses] ok(2) run by simp
  with seq keys [OF run] d(2) have "room_for lib N d'" by (simp add: room_for_def)
  with that [OF run] round_progress [OF d(1) assms(3,4) run ses(2)] show ?thesis by blast
qed


text \<open>A round of the service, and the rounds of its loop.\<close>

lemma schedule_round:
  assumes w: "calm_world w" "schedulable lib cfg N (w_db w)" "room_for lib N (w_db w)"
    and time: "now \<le> N" "T \<le> now"
  obtains rp' w' where "schedule world_due_repo lib cfg (now, elapsed) (rp, w) = (rp', w')"
    and "calm_world w'" "schedulable lib cfg N (w_db w')" "room_for lib N (w_db w')"
    and "missed_fires lib T (w_db w') \<le> missed_fires lib T (w_db w) - 1"
    and "\<forall>i at. accounted i at (w_db w) \<longrightarrow> accounted i at (w_db w')"
proof -
  let ?m = "ScheduleDueBatch now (sc_BatchSize cfg) (resolveTimer lib cfg)"
  let ?ses = "w_sessions w (w_calls w)"
  have ses: "faultless ?ses" "\<forall>i. \<not> ses_timer_locked ?ses i" and alone: "world_alone w"
    using w(1) by (simp_all add: calm_world_def quiet_world_def)
  obtain res d' where run: "?m ?ses (w_db w) = (Inr res, d')"
    and d': "schedulable lib cfg N d'" "room_for lib N d'" "missed_fires lib T d' \<le> missed_fires lib T (w_db w) - 1"
    by (rule batch_in_room [OF w(2,3) time ses])
  let ?w = "w\<lparr>w_calls := w_calls w + 1, w_db := d'\<rparr>"
  have call: "call ?m w = (Inr res, ?w)" using alone run by (simp add: call_def world_alone_def)
  have "db_ok (snd (?m ses d))" if "db_ok d" for ses d using ScheduleDueBatch_ok [OF that] by (metis surjective_pairing)
  from alone_call(1) [OF alone call this] w(1) have "calm_world ?w" by (simp add: calm_world_def quiet_world_def)
  moreover have "accounted i at d'" if "accounted i at (w_db w)" for i at
    by (rule round_accounted [OF w(2) time(1) run that])
  ultimately show ?thesis using that d' call by (simp add: schedule_def world_due_repo_def)
qed

lemma schedule_rounds:
  assumes "calm_world w" "schedulable lib cfg N (w_db w)" "room_for lib N (w_db w)"
    and "\<forall>tick \<in> set ticks. T \<le> fst tick \<and> fst tick \<le> N"
    and "fold (schedule world_due_repo lib cfg) ticks (rp, w) = (rp', w')"
  shows "db_ok (w_db w') \<and> missed_fires lib T (w_db w') \<le> missed_fires lib T (w_db w) - length ticks \<and>
    (\<forall>i at. accounted i at (w_db w) \<longrightarrow> accounted i at (w_db w'))"
  using assms
proof (induction ticks arbitrary: rp w)
  case Nil
  then show ?case by (simp add: schedulable_def)
next
  case (Cons tick ticks)
  obtain now elapsed where tick: "tick = (now, elapsed)" by force
  with Cons.prems(4) have time: "now \<le> N" "T \<le> now" by auto
  obtain rp1 w1 where r: "schedule world_due_repo lib cfg (now, elapsed) (rp, w) = (rp1, w1)"
    "calm_world w1" "schedulable lib cfg N (w_db w1)" "room_for lib N (w_db w1)"
    "missed_fires lib T (w_db w1) \<le> missed_fires lib T (w_db w) - 1"
    "\<forall>i at. accounted i at (w_db w) \<longrightarrow> accounted i at (w_db w1)"
    by (rule schedule_round [OF Cons.prems(1-3) time, where rp = rp and elapsed = elapsed])
  have "\<forall>tick \<in> set ticks. T \<le> fst tick \<and> fst tick \<le> N" using Cons.prems(4) by simp
  from Cons.IH [OF r(2-4) this, of rp1] Cons.prems(5) r(1,5,6) show ?case by (auto simp: tick)
qed

lemma periodic_regular:
  assumes "0 < p" "expr \<noteq> []" "0 \<le> S"
  shows "regular (NextTriggerTime (periodic_cron p) expr) S N"
  unfolding regular_def
proof (intro allI impI)
  fix t assume t: "S \<le> t" "t \<le> N"
  have f: "NextTriggerTime (periodic_cron p) expr s = Inr ((s div p + 1) * p)" if "S \<le> s" for s
  proof -
    have "0 < (s div p + 1) * p" using that assms(1,3) by (simp add: pos_imp_zdiv_nonneg_iff add_nonneg_pos)
    then show ?thesis
      using assms(2) by (simp add: NextTriggerTime_def CronParser_Parse_def periodic_cron_def IsZero_def zero_time_def Let_def)
  qed
  have "s' \<le> (t div p + 1) * p" if "S \<le> s" "s \<le> t" "NextTriggerTime (periodic_cron p) expr s = Inr s'" for s s'
    using f [OF that(1)] that(3) zdiv_mono1 [OF that(2) assms(1)] assms(1) by (simp add: mult_right_mono)
  with f [OF t(1)] NextTriggerTime_later [OF periodic_cron_ok [OF assms(1)] f [OF t(1)]] show
    "\<exists>t'. NextTriggerTime (periodic_cron p) expr t = Inr t' \<and> t < t' \<and>
      (\<forall>s s'. S \<le> s \<longrightarrow> s \<le> t \<longrightarrow> NextTriggerTime (periodic_cron p) expr s = Inr s' \<longrightarrow> s' \<le> t')" by blast
qed


text \<open>A Scheduler that was away while the Timer of the reachable sample should have run twice.\<close>

definition sample_service :: "(unit, world) Scheduler" where
  "sample_service = \<lparr>sd_repo = world_due_repo, sd_parser = periodic_cron 30, sd_cfg = sample_scheduler\<rparr>"

definition sample_rounds :: "go_error option \<times> Reporter \<times> world" where
  "sample_rounds = Scheduler_Start sample_service (40, 1) [(41, 1)] (NewReporter, lone_world 40 stage2)"

lemma sample_missed:
  "missed_fires (periodic_cron 30) 40 stage2 = 2" "missed_fires (periodic_cron 30) 41 stage2 = 2"
proof -
  let ?f = "NextTriggerTime (periodic_cron 30) ''* * * * *''"
  have f: "?f 10 = Inr 30" "?f 30 = Inr 60" by (simp_all add: resolve_defs)
  have "missed ?f T 10 = 2" if "40 \<le> T" "T < 60" for T
    using missed_step [of 10 T ?f 30] missed_step [of 30 T ?f 60] f that by simp
  from this [of 40] this [of 41]
  show "missed_fires (periodic_cron 30) 40 stage2 = 2" "missed_fires (periodic_cron 30) 41 stage2 = 2"
    by (simp_all add: missed_fires_def timer_missed_def stage2_rows) (simp_all add: stage_timer_def sample_timer_def)
qed

lemma sample_schedulable: "schedulable (periodic_cron 30) sample_scheduler 41 stage2"
proof -
  have "resolvable (periodic_cron 30) 41 due_stage"
    using periodic_regular [of 30 "''* * * * *''" 10 41]
    by (simp add: resolvable_def stage_timer_def sample_timer_def buildRequestSnapshot_def)
  then show ?thesis
    using periodic_cron_ok [of 30] sample_scheduler_ok stage_consistent(2) by (simp add: schedulable_def stage2_rows)
qed

lemma sample_room: "room_for (periodic_cron 30) 41 stage2"
  using reachable_rows_fit [OF stages_reachable(2)]
  by (simp add: room_for_def sample_missed stage2_rows int64_max_def)

lemma sample_calm: "calm_world (lone_world 40 stage2)"
  using quiet_lone [OF stage_consistent(2)] by (simp add: calm_world_def) (simp add: lone_world_def quiet_session_def)

text \<open>C5: The Scheduler catches up.  Let a process that meets no fault and no lock run the Scheduler's loop
  from any consistent database with valid Timers, at times from T to N.  After as many rounds as there are
  trigger times up to T that were missed, no Timer is due at T any more, and every Timer that was due has
  exactly one Execution for the trigger time it had, unless its policy is SKIP.\<close>

theorem scheduler_catches_up:
  assumes "calm_world w" "schedulable lib cfg N (w_db w)" "room_for lib N (w_db w)"
    and "s = \<lparr>sd_repo = world_due_repo, sd_parser = lib, sd_cfg = cfg\<rparr>" "0 < millis (sc_PollIntervalMS cfg)"
    and "\<forall>tick \<in> set (first # ticks). T \<le> fst tick \<and> fst tick \<le> N"
    and "missed_fires lib T (w_db w) \<le> length (first # ticks)"
    and "Scheduler_Start s first ticks (rp, w) = (panic, rp', w')"
  shows "panic = None \<and> (\<forall>t \<in> set (timers (w_db w')). \<not> due_timer T t) \<and>
    (\<forall>t \<in> set (timers (w_db w)). due_timer T t \<and> td_MisfirePolicy t \<noteq> MisfirePolicySkip \<longrightarrow>
       (\<exists>!e. e \<in> set (executions (w_db w')) \<and> te_TimerID e = td_ID t \<and> td_NextFireAt t = Some (te_ScheduledAt e)))"
proof -
  have "fold (schedule world_due_repo lib cfg) (first # ticks) (rp, w) = (rp', w')" "panic = None"
    using assms(4,5,8) by (simp_all add: Scheduler_Start_def polling_returns)
  from schedule_rounds [OF assms(1-3,6) this(1)] assms(7) have ok: "db_ok (w_db w')"
    and none: "missed_fires lib T (w_db w') = 0" and acc: "\<And>i at. accounted i at (w_db w) \<Longrightarrow> accounted i at (w_db w')"
    by auto
  have "\<exists>!e. e \<in> set (executions (w_db w')) \<and> te_TimerID e = td_ID t \<and> td_NextFireAt t = Some (te_ScheduledAt e)"
    if t: "t \<in> set (timers (w_db w))" "due_timer T t" "td_MisfirePolicy t \<noteq> MisfirePolicySkip" for t
  proof -
    from t(2) obtain at where at: "td_Status t = TimerStatusActive" "td_NextFireAt t = Some at" "at \<le> T"
      by (auto simp: due_timer_def split: option.splits)
    with t(1,3) acc [of "td_ID t" at] have "accounted (td_ID t) at (w_db w')" unfolding accounted_def by blast
    moreover have "\<not> due_timer T x" if "x \<in> set (timers (w_db w'))" for x
      using none that by (simp add: no_missed_fires)
    ultimately have "\<exists>e \<in> set (executions (w_db w')). schedule_key e = (td_ID t, at)"
      using at(3) unfolding accounted_def due_timer_def by fastforce
    from one_execution [OF ok this] at(2) show ?thesis by auto
  qed
  with none \<open>panic = None\<close> show ?thesis by (auto simp: no_missed_fires)
qed

theorem scheduler_catches_up_witness:
  "filter (due_timer 40) (timers (w_db (snd (snd sample_rounds)))) = [] \<and>
   (\<exists>!e. e \<in> set (executions (w_db (snd (snd sample_rounds)))) \<and> te_TimerID e = 1 \<and> te_ScheduledAt e = 10)"
proof -
  obtain panic rp w where run: "sample_rounds = (panic, rp, w)" by (metis surj_pair)
  have "(\<forall>t \<in> set (timers (w_db w)). \<not> due_timer 40 t) \<and>
    (\<forall>t \<in> set (timers stage2). due_timer 40 t \<and> td_MisfirePolicy t \<noteq> MisfirePolicySkip \<longrightarrow>
      (\<exists>!e. e \<in> set (executions (w_db w)) \<and> te_TimerID e = td_ID t \<and> td_NextFireAt t = Some (te_ScheduledAt e)))"
    using scheduler_catches_up [OF sample_calm _ _ sample_service_def _ _ _ run [unfolded sample_rounds_def], of 41 40]
      sample_schedulable sample_room sample_missed
    by (simp add: lone_world_def sample_scheduler_def millis_def wrap64_def int64_max_def int64_min_def)
  then show ?thesis
    by (simp add: run stage2_rows filter_empty_conv)
      (simp add: due_timer_def stage_timer_def sample_timer_def eq_commute [of "10 :: int"])
qed

end
