(* ===== verification/Abstract_Spec.thy ===== *)
theory Abstract_Spec
  imports Row_Types
begin

text \<open>
  What the program promises about its Executions, without rows, leases, events or processes: a table that
  has at most one entry for every occurrence of a Timer, and the phases an occurrence goes through.  The
  database of the program, with all its operations running in any order, refines it.
\<close>

section \<open>The specification\<close>

text \<open>The phases count the attempts started so far.\<close>

datatype phase = Waiting nat | Attempting nat | Succeeded nat | GivenUp nat

inductive phase_step :: "phase option \<Rightarrow> phase option \<Rightarrow> bool" where
  due: "phase_step None (Some (Waiting 0))"
| start: "phase_step (Some (Waiting n)) (Some (Attempting (Suc n)))"
| restart: "phase_step (Some (Attempting n)) (Some (Attempting (Suc n)))"
| postpone: "phase_step (Some (Attempting n)) (Some (Waiting n))"
| succeed: "phase_step (Some (Attempting n)) (Some (Succeeded n))"
| give_up: "phase_step (Some (Attempting n)) (Some (GivenUp n))"
| forget_success: "phase_step (Some (Succeeded n)) None"
| forget_failure: "phase_step (Some (GivenUp n)) None"

inductive_simps phase_step_simps [simp]:
  "phase_step None p" "phase_step (Some (Waiting n)) p" "phase_step (Some (Attempting n)) p"
  "phase_step (Some (Succeeded n)) p" "phase_step (Some (GivenUp n)) p"

type_synonym occurrences = "int \<times> time \<Rightarrow> phase option"

inductive spec_step :: "occurrences \<Rightarrow> occurrences \<Rightarrow> bool" where
  one: "phase_step (m k) p \<Longrightarrow> spec_step m (m(k := p))"

text \<open>An occurrence is given up or succeeds only after an attempt, and attempts are only added.\<close>

fun attempts :: "phase \<Rightarrow> nat" where
  "attempts (Waiting n) = n" | "attempts (Attempting n) = n" | "attempts (Succeeded n) = n"
| "attempts (GivenUp n) = n"

section \<open>The abstraction\<close>

fun phase_of :: "ExecutionStatus \<Rightarrow> nat \<Rightarrow> phase" where
  "phase_of ExecutionStatusPending n = Waiting n"
| "phase_of ExecutionStatusRunning n = Attempting n"
| "phase_of ExecutionStatusRetryWait n = Waiting n"
| "phase_of ExecutionStatusSuccess n = Succeeded n"
| "phase_of ExecutionStatusFailed n = GivenUp n"
| "phase_of ExecutionStatusCancelled n = GivenUp n"

definition row_phase :: "TimerExecution \<Rightarrow> phase" where
  "row_phase e = phase_of (te_Status e) (nat (te_Attempt e))"

definition abs_db :: "db \<Rightarrow> occurrences" where
  "abs_db d = map_of (map (\<lambda>e. (schedule_key e, row_phase e)) (executions d))"

lemma abs_db_Some:
  assumes "db_ok d"
  shows "abs_db d k = Some p \<longleftrightarrow> (\<exists>e \<in> set (executions d). schedule_key e = k \<and> row_phase e = p)"
proof -
  have "distinct (map fst (map (\<lambda>e. (schedule_key e, row_phase e)) (executions d)))"
    using db_ok_distinct(5) [OF assms] by (simp add: comp_def)
  then show ?thesis unfolding abs_db_def by (subst map_of_eq_Some_iff) auto
qed

lemma abs_db_None: "abs_db d k = None \<longleftrightarrow> (\<forall>e \<in> set (executions d). schedule_key e \<noteq> k)"
  by (simp add: abs_db_def map_of_eq_None_iff image_image) blast

section \<open>Refinement\<close>

text \<open>A row that follows its state machine follows the phases.\<close>

lemma execution_step_key: "execution_step e e' \<Longrightarrow> schedule_key e' = schedule_key e"
  by (auto simp: execution_step_def schedule_key_def)

lemma execution_step_phase:
  assumes "execution_step e e'" "execution_row_ok e" "execution_row_ok e'"
  shows "phase_step\<^sup>*\<^sup>* (Some (row_phase e)) (Some (row_phase e'))"
proof -
  have "row_phase e' = row_phase e \<or> phase_step (Some (row_phase e)) (Some (row_phase e'))"
    using assms by (cases "te_Status e"; cases "te_Status e'")
      (auto simp: execution_step_def execution_next_def execution_row_ok_def row_phase_def nat_add_distrib)
  then show ?thesis by auto
qed

lemma terminal_forgotten:
  "execution_row_ok e \<Longrightarrow> terminal_status (te_Status e) \<Longrightarrow> phase_step (Some (row_phase e)) None"
  by (cases "te_Status e") (auto simp: row_phase_def terminal_status_def)

text \<open>Maps that differ in finitely many occurrences, each of which steps, step.\<close>

lemma spec_steps_key:
  assumes "phase_step\<^sup>*\<^sup>* p p'" "m k = p"
  shows "spec_step\<^sup>*\<^sup>* m (m(k := p'))"
  using assms
proof (induction rule: rtranclp_induct)
  case base
  then show ?case by (simp add: fun_upd_idem)
next
  case (step q q')
  from step.hyps(2) have "spec_step (m(k := q)) ((m(k := q))(k := q'))" by (intro one) simp
  then have "spec_step (m(k := q)) (m(k := q'))" by simp
  with step.IH [OF step.prems] show ?case by (metis rtranclp.rtrancl_into_rtrancl)
qed

lemma spec_steps_pointwise:
  assumes "finite K" "\<And>k. k \<in> K \<Longrightarrow> phase_step\<^sup>*\<^sup>* (m k) (m' k)" "\<And>k. k \<notin> K \<Longrightarrow> m k = m' k"
  shows "spec_step\<^sup>*\<^sup>* m m'"
  using assms
proof (induction K arbitrary: m rule: finite_induct)
  case empty
  then have "m = m'" by auto
  then show ?case by simp
next
  case (insert k K)
  have "spec_step\<^sup>*\<^sup>* m (m(k := m' k))" by (rule spec_steps_key) (auto intro: insert.prems(1))
  also have "spec_step\<^sup>*\<^sup>* (m(k := m' k)) m'"
    by (rule insert.IH) (use insert.prems insert.hyps in auto)
  finally show ?case .
qed

lemma origin_key:
  assumes "db_ok d'" "executions_step d d'" "y \<in> set (executions d)" "e' \<in> set (executions d')"
    and "te_ID e' = te_ID y"
  shows "schedule_key y = schedule_key e'"
proof -
  from assms obtain x where x: "x \<in> set (executions d')" "execution_step y x"
    unfolding executions_step_def by metis
  then have "te_ID x = te_ID e'" by (simp add: execution_step_def assms(5))
  with execution_by_id [OF assms(1) x(1) assms(4)] execution_step_key [OF x(2)] show ?thesis by simp
qed

lemma new_row_waits:
  assumes "db_ok d'" "new_pending (te_ID ` set (executions d)) d'" "abs_db d' k = Some p"
    and "\<And>y e'. y \<in> set (executions d) \<Longrightarrow> e' \<in> set (executions d') \<Longrightarrow> schedule_key e' = k \<Longrightarrow>
      te_ID e' \<noteq> te_ID y"
  shows "p = Waiting 0"
proof -
  from assms(1,3) obtain e' where e': "e' \<in> set (executions d')" "schedule_key e' = k" "row_phase e' = p"
    by (auto simp: abs_db_Some)
  with assms(2,4) have "te_Status e' = ExecutionStatusPending" by (fastforce simp: new_pending_def)
  with db_okD(5) [OF assms(1) e'(1)] e'(3) show ?thesis
    by (auto simp: execution_row_ok_def row_phase_def)
qed

lemma abs_db_key_steps:
  assumes "db_ok d" "db_ok d'" "executions_step d d'" "new_pending (te_ID ` set (executions d)) d'"
  shows "phase_step\<^sup>*\<^sup>* (abs_db d k) (abs_db d' k)"
proof (cases "abs_db d k")
  case None
  show ?thesis
  proof (cases "abs_db d' k")
    case (Some p)
    have "p = Waiting 0"
      by (rule new_row_waits [OF assms(2,4) Some])
         (metis None abs_db_None origin_key [OF assms(2,3)])
    with None Some show ?thesis using due by auto
  qed (simp add: None)
next
  case (Some p)
  then obtain e where e: "e \<in> set (executions d)" "schedule_key e = k" "row_phase e = p"
    by (auto simp: abs_db_Some [OF assms(1)])
  from assms(3) e(1) consider x where "x \<in> set (executions d')" "execution_step e x"
    | "terminal_status (te_Status e)" "\<forall>e' \<in> set (executions d'). te_ID e' \<noteq> te_ID e"
    unfolding executions_step_def by blast
  then show ?thesis
  proof cases
    case 1
    then have "abs_db d' k = Some (row_phase x)"
      using execution_step_key [OF 1(2)] e(2) by (auto simp: abs_db_Some [OF assms(2)])
    with execution_step_phase [OF 1(2) db_okD(5) [OF assms(1) e(1)] db_okD(5) [OF assms(2) 1(1)]] Some e(3)
    show ?thesis by simp
  next
    case 2
    have gone: "phase_step\<^sup>*\<^sup>* (abs_db d k) None"
      using terminal_forgotten [OF db_okD(5) [OF assms(1) e(1)] 2(1)] e(3) Some by auto
    show ?thesis
    proof (cases "abs_db d' k")
      case again: (Some p')
      have "p' = Waiting 0"
        by (rule new_row_waits [OF assms(2,4) again])
           (metis 2(2) e(1,2) execution_by_schedule [OF assms(1)] origin_key [OF assms(2,3)])
      with gone again show ?thesis using due by (metis rtranclp.rtrancl_into_rtrancl)
    qed (simp add: gone)
  qed
qed

lemma sys_step_refines:
  assumes "db_ok d" "sys_step d d'"
  shows "spec_step\<^sup>*\<^sup>* (abs_db d) (abs_db d')"
proof (rule spec_steps_pointwise)
  let ?K = "schedule_key ` (set (executions d) \<union> set (executions d'))"
  show "finite ?K" by simp
  show "phase_step\<^sup>*\<^sup>* (abs_db d k) (abs_db d' k)" if "k \<in> ?K" for k
    using abs_db_key_steps [OF assms(1) sys_step_ok [OF assms(2,1)]] sys_step_rows [OF assms(2,1)]
      sys_step_new_pending [OF assms(2)] by blast
  show "abs_db d k = abs_db d' k" if "k \<notin> ?K" for k
    using that abs_db_None [of d k] abs_db_None [of d' k] by force
qed

end
