(* ===== verification/Spec2Isabelle.thy ===== *)
theory Spec2Isabelle
  imports Lifecycle_Properties Tooling_Properties Settlement Catch_Up Abstract_Spec
begin

text \<open>
  ChronoFlow is a distributed timer scheduler in Go.  A Timer is a cron expression with an HTTP callback;
  every time it falls due an Execution is created, delivered to a worker through a Redis stream, and run
  with retries until it succeeds or is given up.  All durable state is in MySQL; any number of processes, each
  of one role (API, Scheduler, Dispatcher, Worker) or of all of them, share it.  This library models the
  program's own code and proves what makes it correct.

  \<^bold>\<open>How the parts interact.\<close>  The API creates and activates Timers.  The Scheduler takes due Timers in
  a transaction, resolves the occurrences its misfire policy asks for, inserts one PENDING Execution per
  occurrence together with an outbox event, and advances the Timer.  The Dispatcher claims unpublished events,
  appends them to the stream and marks them published.  A Worker reads a message, claims the Execution under a
  lease with a fresh run token, calls back while a heartbeat renews the lease, records success or failure
  (which may schedule a retry with its own event), and acknowledges the message.  The Reconciler re-announces
  stale Executions, recovers or fails those whose lease expired, and removes old rows; a cleaner trims the
  stream.

  \<^bold>\<open>Theories and code\<close> (paths below \<^verbatim>\<open>internal/\<close> unless they begin with another
  directory):

  \<^item> \<open>Go_Prelude\<close>: results and errors as the code words them, 64-bit wrap-around, time and durations in
    nanoseconds, the string functions and number formats of Go's library.
  \<^item> \<open>Json_Codec\<close>: JSON values and texts, encoding and decoding.
  \<^item> \<open>Domain_Model\<close>: \<^verbatim>\<open>model/\<close>, with the Timer state machine.
  \<^item> \<open>Sql_Store\<close>, \<open>Sql_Statements\<close>: the three tables as lists in key order, transactions with faults and
    rollback, the SQL statements generic in the table (locale \<open>sql_table\<close>); \<open>Db_Invariant\<close>: the invariant
    \<open>db_ok\<close>; \<open>World\<close>: the database between the calls of one process, with interference by others.
  \<^item> \<open>Timer_Repo\<close>, \<open>Scheduler_Repo\<close>, \<open>Execution_Repo\<close>, \<open>Outbox_Repo\<close>, \<open>Recovery_Repo\<close>, \<open>Execution_Query\<close>:
    \<^verbatim>\<open>repository/\<close>, one theory per repository.
  \<^item> \<open>Cron_Parser\<close>, \<open>Callback\<close>, \<open>Metrics_Reporter\<close>, \<open>Redis_Stream\<close>: \<^verbatim>\<open>pkg/\<close>; \<open>Config\<close>:
    \<^verbatim>\<open>config/config.go\<close> with its defaults.
  \<^item> \<open>Timer_Service\<close>, \<open>Scheduler\<close>, \<open>Outbox_Dispatcher\<close>, \<open>Stream_Worker\<close>, \<open>Reconciler\<close>:
    \<^verbatim>\<open>service/\<close>; each service is defined on the operations of the repository interface it is
    given, and a locale states what it needs of them.
  \<^item> \<open>Api_Handlers\<close>, \<open>Monitoring_Api\<close>, \<open>Http_Server\<close>: \<^verbatim>\<open>handler/\<close>,
    \<^verbatim>\<open>middleware/\<close>, \<^verbatim>\<open>app/http.go\<close>, \<^verbatim>\<open>app/api_http.go\<close>.
  \<^item> \<open>Roles\<close>, \<open>App_Lifecycle\<close>: the rest of \<^verbatim>\<open>app/\<close>, \<^verbatim>\<open>launcher/\<close>,
    \<^verbatim>\<open>repository/database.go\<close>, \<^verbatim>\<open>pkg/redis/client.go\<close>, \<^verbatim>\<open>pkg/pool/\<close>,
    \<^verbatim>\<open>pkg/logger/\<close> and \<^verbatim>\<open>cmd/\<close>; \<open>Process_Services\<close>: the constructors of the services and what
    each background service of a process runs, with the repositories on the shared database and the callback
    client the configuration asks for.
  \<^item> \<open>Migration_Command\<close>: \<^verbatim>\<open>migration/\<close>, \<^verbatim>\<open>cmd/migrate\<close>; \<open>Callback_Collector\<close>:
    \<^verbatim>\<open>k6/callback/main.go\<close>.
  \<^item> \<open>System\<close>, \<open>Row_Types\<close>, \<open>Abstract_Spec\<close>: all operations together.  \<open>sys_step\<close> is one operation of any
    process with any session, \<open>reachable\<close> its reachable states.
  \<^item> \<open>Catch_Up\<close>, \<open>Recovery_Progress\<close>, \<open>Delivery\<close>, \<open>Retries\<close>, \<open>Settlement\<close>: what is certain to happen when no
    statement fails: the Scheduler's rounds leave no Timer overdue, recovery uses up its backlog, a Dispatcher's round publishes, a Worker's run ends, a callback that keeps
    failing is given up, and everything that is unfinished in any reachable state ends.
  \<^item> \<open>Sample_Data\<close>: concrete databases and a concrete run from the empty one, on which the properties are
    instantiated; \<open>Schedule_Properties\<close>, \<open>Storage_Properties\<close>, \<open>Service_Properties\<close>, \<open>Boundary_Properties\<close>,
    \<open>Api_Properties\<close>, \<open>Delivery_Properties\<close>, \<open>Lifecycle_Properties\<close>, \<open>Tooling_Properties\<close> and this theory: the
    properties.

  \<^bold>\<open>How state and operations correspond.\<close>  A row is a record with the columns of its table, a nullable
  column an option, an enumeration a datatype with its text.  A repository method is a function from a session
  and the database to a result and the database; a session gives the clock at every statement, the faults of
  statements and of the commit, and the rows that other transactions hold locked, which
  \<^verbatim>\<open>SKIP LOCKED\<close> passes over.  A transaction that fails restores the database.  A service method
  threads its own state (metrics, stream) and that of its repository; \<^verbatim>\<open>Start\<close> loops are folds over
  the list of ticks they receive and return the panic of \<^verbatim>\<open>time.NewTicker\<close> with the state, if there is one
  (\<open>polling\<close>); heartbeats are a list of the instants at which they fire.  Errors are the
  strings that \<^verbatim>\<open>fmt.Errorf\<close> builds; a panic that the transaction turns into a rollback is an
  error.

  \<^bold>\<open>Interfaces.\<close>  \<open>timer_repository\<close>, \<open>due_timer_repository\<close>, \<open>execution_queries\<close>, \<open>api_server\<close> and the
  contracts of the Dispatcher, Worker and Reconciler are locales over an abstract state with an invariant; each
  is interpreted on the modelled SQL repositories in a shared database (\<open>world_...\<close>), so what is proved of a
  service holds of the composed program.  \<open>statement_predicate\<close> and \<open>batch_predicate\<close> (\<open>Row_Types\<close>) carry a
  predicate from the SQL statements to all operations.

  \<^bold>\<open>What the lemmas show.\<close>  Data: the invariant of the database and the types of its rows in every reachable
  state; every row follows its state machine; the refinement of an abstract table of occurrences.  Scheduling:
  each occurrence exactly once, the catch-up loop against iterated trigger times, misfire policies, and that the
  Scheduler's loop catches up with every overdue Timer.
  Execution: exclusive claims, fencing of stale attempts, retries, recovery, clean-up.  Messages: publication
  only after the stream accepted, acknowledgement only when settled, round trips through storage and stream,
  trimming.  Progress: from any reachable state, whatever faults led to it, recovery, one
  round of the Dispatcher and the announced messages end every Execution once nothing fails any more; an occurrence that
  falls due is announced, published, run and recorded as a success; an Execution whose Worker died or whose event was
  lost is brought back to success; one whose callback keeps failing is tried three times and given up; and recovery
  terminates.  Boundaries: private networks through every redirect, API key, exact trimming of the stream.  Processes:
  components of a role, what their services do to the database, that none panics under a configuration
  that loads, release of resources.  Tools: migrations, exact concurrent counting.

  \<^bold>\<open>Bounds and termination.\<close>  There is no fuel.  The exchange of the HTTP client (\<open>client_Do\<close>) is a partial function,
  because a client whose redirect check never refuses may not return; that the configured one always does, after at
  most five requests, is proved.  The catch-up loop recurses on the distance to its limit and
  is total; the other loops recurse on lists.  That repeated recovery scans come to an end, in as many scans as the
  backlog has batches, is proved in \<open>Recovery_Progress\<close>; that the Scheduler catches up, in as many rounds as trigger
  times were missed, in \<open>Catch_Up\<close>.  Integers wrap at 64 bits where the code computes with them
  (\<open>wrap64\<close>, \<open>time_add\<close>); hypotheses of the form \<open>in_int64\<close> say where a product or identifier must fit.

  \<^bold>\<open>Parameters.\<close>  Third-party libraries and what lies outside the process are arguments of the definitions:
  the cron library, the Redis client, gin's decoding and route matching, what HTTP servers answer, URL parsing, name
  resolution, floating point numbers, \<^verbatim>\<open>golang-migrate\<close>, \<^verbatim>\<open>viper\<close>'s decoding, the
  goroutine pool, the operating system.  Hypotheses about them, where a property needs one, name documented
  behaviour and are met by the sample instances.

  \<^bold>\<open>Not modelled.\<close>  The rounding of \<^verbatim>\<open>DATETIME(3)\<close> to milliseconds; collation (texts compare by bytes);
  the replacement of ill-formed UTF-8 by \<^verbatim>\<open>encoding/json\<close> (columns do refuse it); deadlocks and lock waits (locked rows are skipped or the statement fails); the registry and
  exposition format of Prometheus; the format of log lines; the panic of a heartbeat's ticker whose interval overflows
  (excluded for a loaded configuration within \<open>clock_range\<close>); real time, the scheduling of goroutines beyond the interleaving of
  operations, and cancellation inside a statement; the web console, dashboards and load scripts; the SQL files,
  whose columns and keys are part of the store.
\<close>

section \<open>The system as a whole\<close>

text \<open>C1: The database is always consistent.  In every state that the operations of all instances can
  reach from the empty database, in any order, with any fault at any statement, keys are unique, references
  resolve, a Timer has a next trigger time exactly while it is ACTIVE, an Execution has a lease exactly
  while it is RUNNING, and every event belongs to an Execution and is claimed only while unpublished.\<close>

theorem reachable_consistent:
  assumes "reachable d"
  shows "db_ok d"
  by (rule reachable_ok [OF assms])

theorem reachable_consistent_witness: "db_ok stage5"
  by (rule reachable_consistent [OF stages_reachable(5)])

text \<open>C10: Rows follow their state machines.  From a reachable state, whatever operation runs, every
  Execution is still there after a transition of the status machine, with its Timer, its scheduled time and
  its snapshot unchanged and at most one attempt more, or it was finished and has been removed; and every
  Timer is still there, its definition unchanged, after at most one permitted transition, which raises its
  version by one.\<close>

theorem steps_follow_state_machines:
  assumes "reachable d" "sys_step d d'"
  shows "executions_step d d' \<and> timers_step d d'"
  by (rule sys_step_rows [OF assms(2) reachable_ok [OF assms(1)]])

theorem steps_follow_state_machines_witness: "executions_step stage2 stage3 \<and> timers_step stage2 stage3"
proof (rule steps_follow_state_machines [OF stages_reachable(2)])
  show "sys_step stage2 stage3"
    using schedule_batch [of stage2 15 10 "\<lambda>_ _. Inr ([10], 100)" "quiet_session 15"]
    by (simp add: stage3_run)
qed

text \<open>C3: The program implements its specification.  Seen through the abstraction that keeps, for every
  occurrence of a Timer, the phase of its Execution and the number of its attempts, every operation of the
  program is a sequence of steps of the specification: an occurrence becomes due at most once, is attempted,
  put off, attempted again, and ends as succeeded or given up; and every reachable database is an abstract
  table that the specification reaches from the empty one.\<close>

theorem program_refines_specification:
  assumes "reachable d" "sys_step d d'"
  shows "spec_step\<^sup>*\<^sup>* (abs_db d) (abs_db d') \<and> spec_step\<^sup>*\<^sup>* Map.empty (abs_db d)"
proof
  show "spec_step\<^sup>*\<^sup>* (abs_db d) (abs_db d')"
    by (rule sys_step_refines [OF reachable_ok [OF assms(1)] assms(2)])
  show "spec_step\<^sup>*\<^sup>* Map.empty (abs_db d)" using assms(1)
  proof (induction rule: reachable.induct)
    case reachable_empty
    have "abs_db empty_db = Map.empty" by (simp add: abs_db_def empty_db_def)
    then show ?case by simp
  next
    case (reachable_step d d')
    with sys_step_refines [OF reachable_ok] show ?case by (meson rtranclp_trans)
  qed
qed

theorem program_refines_specification_witness:
  "spec_step\<^sup>*\<^sup>* (abs_db stage2) (abs_db stage3) \<and> abs_db stage2 (1, 10) = None \<and>
   abs_db stage3 (1, 10) = Some (Waiting 0)"
proof -
  have "sys_step stage2 stage3"
    using schedule_batch [of stage2 15 10 "\<lambda>_ _. Inr ([10], 100)" "quiet_session 15"]
    by (simp add: stage3_run)
  moreover have "abs_db stage2 (1, 10) = None" "abs_db stage3 (1, 10) = Some (Waiting 0)"
    by (simp_all add: abs_db_def stage_defs empty_db_def create_execution_row_def pending_execution_def
        schedule_key_def row_phase_def)
  ultimately show ?thesis using program_refines_specification [OF stages_reachable(2)] by blast
qed



text \<open>A finished Execution stays finished.  Once an Execution of a reachable state is SUCCESS, FAILED or
  CANCELLED, every later operation leaves its row exactly as it is, or removes it for good.\<close>

lemma terminal_execution_final:
  assumes "reachable d" "sys_step d d'" "e \<in> set (executions d)" "IsTerminal e"
  shows "e \<in> set (executions d') \<or> (\<forall>e' \<in> set (executions d'). te_ID e' \<noteq> te_ID e)"
proof -
  from sys_step_rows [OF assms(2) reachable_ok [OF assms(1)]] have "executions_step d d'" by blast
  with assms(3,4) execution_step_terminal show ?thesis
    unfolding executions_step_def IsTerminal_def by blast
qed

end
